theory Spec2Isabelle
  imports Main
begin

section \<open>JavaScript strings\<close>

text \<open>
  Source texts are taken to be ASCII, so a JavaScript string is a \<open>char list\<close>.
  \<open>startsWith\<close>, \<open>endsWith\<close>, \<open>trim\<close>, \<open>Array.join\<close> and \<open>String.split\<close>
  are the built-ins of the same names; \<open>isSpace\<close> is the class \<open>\s\<close> and \<open>isWordChar\<close> the
  class \<open>\w\<close> of the regular expressions, restricted to ASCII.
\<close>

definition startsWith :: "string \<Rightarrow> string \<Rightarrow> bool" where
  "startsWith s p = (take (length p) s = p)"

definition endsWith :: "string \<Rightarrow> string \<Rightarrow> bool" where
  "endsWith s p = (length p \<le> length s \<and> drop (length s - length p) s = p)"

definition isSpace :: "char \<Rightarrow> bool" where
  "isSpace c = (c \<in> set [CHR '' '', CHR 0x09, CHR 0x0A, CHR 0x0B, CHR 0x0C, CHR 0x0D])"

definition isUpper :: "char \<Rightarrow> bool" where
  "isUpper c = (c \<in> set ''ABCDEFGHIJKLMNOPQRSTUVWXYZ'')"

definition isLower :: "char \<Rightarrow> bool" where
  "isLower c = (c \<in> set ''abcdefghijklmnopqrstuvwxyz'')"

definition isDigit :: "char \<Rightarrow> bool" where
  "isDigit c = (c \<in> set ''0123456789'')"

definition isWordChar :: "char \<Rightarrow> bool" where
  "isWordChar c = (isUpper c \<or> isLower c \<or> isDigit c \<or> c = CHR ''_'')"

definition trim :: "string \<Rightarrow> string" where
  "trim s = rev (dropWhile isSpace (rev (dropWhile isSpace s)))"

fun joinWith :: "string \<Rightarrow> string list \<Rightarrow> string" where
  "joinWith sep [] = []"
| "joinWith sep [x] = x"
| "joinWith sep (x # y # ys) = x @ sep @ joinWith sep (y # ys)"

fun splitOn :: "char \<Rightarrow> string \<Rightarrow> string list" where
  "splitOn c [] = [[]]"
| "splitOn c (x # xs) =
     (if x = c then [] # splitOn c xs
      else (case splitOn c xs of [] \<Rightarrow> [[x]] | y # ys \<Rightarrow> (x # y) # ys))"

text \<open>\<open>truthy\<close> is JavaScript's truthiness of a \<open>string | undefined\<close>: the empty string and
  \<open>undefined\<close> are falsy.\<close>

definition truthy :: "string option \<Rightarrow> bool" where
  "truthy v = (case v of None \<Rightarrow> False | Some s \<Rightarrow> s \<noteq> [])"

section \<open>File paths\<close>

text \<open>
  The discovery driver hands the parser absolute file-system paths, and every path the
  parser computes comes from \<open>path.resolve\<close>, \<open>path.dirname\<close> or \<open>path.join\<close> of one. A path
  is therefore modelled as the list of its segments below the root; \<open>[]\<close> is the root itself
  and \<open>pathText\<close> is the string the code holds. \<open>path_resolve\<close> is \<open>path.resolve(base, rel)\<close>:
  an absolute \<open>rel\<close> replaces the base, empty and \<open>.\<close> segments are dropped and \<open>..\<close> pops a
  segment. \<open>withExtension\<close> is the template \<open>`${base}.ts`\<close>.
\<close>

type_synonym path = "string list"

definition pathText :: "path \<Rightarrow> string" where
  "pathText p = (if p = [] then ''/'' else concat (map (\<lambda>s. CHR ''/'' # s) p))"

fun normalizeOnto :: "string list \<Rightarrow> string list \<Rightarrow> path" where
  "normalizeOnto acc [] = rev acc"
| "normalizeOnto acc (s # ss) =
     (if s = [] \<or> s = ''.'' then normalizeOnto acc ss
      else if s = ''..'' then normalizeOnto (tl acc) ss
      else normalizeOnto (s # acc) ss)"

definition path_resolve :: "path \<Rightarrow> string \<Rightarrow> path" where
  "path_resolve base rel =
     (if startsWith rel ''/'' then normalizeOnto [] (splitOn (CHR ''/'') rel)
      else normalizeOnto (rev base) (splitOn (CHR ''/'') rel))"

definition path_dirname :: "path \<Rightarrow> path" where
  "path_dirname p = butlast p"

definition path_join :: "path \<Rightarrow> string \<Rightarrow> path" where
  "path_join p leaf = p @ [leaf]"

definition withExtension :: "path \<Rightarrow> string \<Rightarrow> path" where
  "withExtension p ext = (if p = [] then [ext] else butlast p @ [last p @ ext])"

section \<open>The syntax tree of a source file\<close>

text \<open>
  \<open>node\<close> is \<open>ts.Node\<close> as \<open>ts.createSourceFile\<close> returns it, with one constructor for every
  syntax kind the parser tests for. Any other kind is \<open>Other\<close> (or \<open>OtherFunctionLike\<close> when
  \<open>ts.isFunctionLike\<close> holds of it). The first field of a node is its source text, what
  \<open>node.getText()\<close> returns: the characters of the file from the first token of the node to
  its last, with the quotes, comments and line breaks that are written there. The keywords
  \<open>true\<close>, \<open>false\<close> and \<open>null\<close> have no such field, their text being the keyword. Where the
  code also reads the \<open>text\<close> property of a node, the node has it as its second field: the name
  of an identifier with its escapes decoded, the value of a string literal, and the normalised
  value of a numeric literal (\<open>16\<close> for \<open>0x10\<close>).

  \<open>PropertyAssignment\<close> and \<open>VariableDeclaration\<close> carry the zero-based line of their first
  token, which the code reads through \<open>getLineAndCharacterOfPosition\<close>. A declaration, a type
  alias, a type query and a shorthand property hold the source text of their name, which is all
  the code reads of it; an import declaration holds the \<open>text\<close> of its module specifier and the
  source texts of the names of its clause.
\<close>

datatype importSpecifier = ImportSpecifier (propertyName: "string option") (localName: string)

datatype namedBindings = NamedImports "importSpecifier list" | NamespaceImport string

datatype importClause = ImportClause (defaultName: "string option") (bindings: "namedBindings option")

datatype node =
    SourceFile string "node list"
  | Identifier string string
  | PrivateIdentifier string string
  | StringLiteral string string
  | NumericLiteral string string
  | NoSubstitutionTemplateLiteral string
  | TemplateExpression string "node list"
  | TrueKeyword
  | FalseKeyword
  | NullKeyword
  | PropertyAccessExpression string node node
  | CallExpression string node "node list"
  | NewExpression string node "node list"
  | ParenthesizedExpression string node
  | AsExpression string node
  | SatisfiesExpression string node
  | NonNullExpression string node
  | ConditionalExpression string node node node
  | ArrayLiteralExpression string "node list"
  | SpreadElement string node
  | ObjectLiteralExpression string "node list"
  | PropertyAssignment string nat node node
  | ShorthandPropertyAssignment string string
  | SpreadAssignment string node
  | MethodDeclaration string node node
  | ComputedPropertyName string node
  | ArrowFunction string node
  | FunctionExpression string node
  | FunctionDeclaration string node
  | Block string "node list"
  | ReturnStatement string "node option"
  | VariableStatement string "node list"
  | VariableDeclaration string nat string "node option"
  | TypeAliasDeclaration string bool string node
  | TypeQuery string string
  | ImportDeclaration string string "importClause option"
  | OtherFunctionLike string "node list"
  | Other string "node list"

text \<open>
  \<open>forEachChild\<close> lists the children of a node in source order. The parameters of a function
  and the names that are held as text are left out of the list: no visitor of the code reacts
  to a node of their kinds.
\<close>

fun forEachChild :: "node \<Rightarrow> node list" where
  "forEachChild (SourceFile t ss) = ss"
| "forEachChild (TemplateExpression t es) = es"
| "forEachChild (PropertyAccessExpression t e n) = [e, n]"
| "forEachChild (CallExpression t f args) = f # args"
| "forEachChild (NewExpression t f args) = f # args"
| "forEachChild (ParenthesizedExpression t e) = [e]"
| "forEachChild (AsExpression t e) = [e]"
| "forEachChild (SatisfiesExpression t e) = [e]"
| "forEachChild (NonNullExpression t e) = [e]"
| "forEachChild (ConditionalExpression t c a b) = [c, a, b]"
| "forEachChild (ArrayLiteralExpression t es) = es"
| "forEachChild (SpreadElement t e) = [e]"
| "forEachChild (ObjectLiteralExpression t ps) = ps"
| "forEachChild (PropertyAssignment t l n e) = [n, e]"
| "forEachChild (SpreadAssignment t e) = [e]"
| "forEachChild (MethodDeclaration t n b) = [n, b]"
| "forEachChild (ComputedPropertyName t e) = [e]"
| "forEachChild (ArrowFunction t b) = [b]"
| "forEachChild (FunctionExpression t b) = [b]"
| "forEachChild (FunctionDeclaration t b) = [b]"
| "forEachChild (Block t ss) = ss"
| "forEachChild (ReturnStatement t r) = (case r of None \<Rightarrow> [] | Some e \<Rightarrow> [e])"
| "forEachChild (VariableStatement t ds) = ds"
| "forEachChild (VariableDeclaration t l n i) = (case i of None \<Rightarrow> [] | Some e \<Rightarrow> [e])"
| "forEachChild (TypeAliasDeclaration t ex n ty) = [ty]"
| "forEachChild (OtherFunctionLike t cs) = cs"
| "forEachChild (Other t cs) = cs"
| "forEachChild _ = []"

text \<open>\<open>getText\<close> is \<open>node.getText()\<close>; \<open>identifierName\<close> is the \<open>text\<close> of a node that
  \<open>ts.isIdentifier\<close> holds of, and \<open>nameText\<close> the \<open>text\<close> of the name of a property access.\<close>

fun getText :: "node \<Rightarrow> string" where
  "getText (SourceFile t ss) = t"
| "getText (Identifier t name) = t"
| "getText (PrivateIdentifier t name) = t"
| "getText (StringLiteral t v) = t"
| "getText (NumericLiteral t v) = t"
| "getText (NoSubstitutionTemplateLiteral t) = t"
| "getText (TemplateExpression t es) = t"
| "getText TrueKeyword = ''true''"
| "getText FalseKeyword = ''false''"
| "getText NullKeyword = ''null''"
| "getText (PropertyAccessExpression t e n) = t"
| "getText (CallExpression t f args) = t"
| "getText (NewExpression t f args) = t"
| "getText (ParenthesizedExpression t e) = t"
| "getText (AsExpression t e) = t"
| "getText (SatisfiesExpression t e) = t"
| "getText (NonNullExpression t e) = t"
| "getText (ConditionalExpression t c a b) = t"
| "getText (ArrayLiteralExpression t es) = t"
| "getText (SpreadElement t e) = t"
| "getText (ObjectLiteralExpression t ps) = t"
| "getText (PropertyAssignment t l n e) = t"
| "getText (ShorthandPropertyAssignment t n) = t"
| "getText (SpreadAssignment t e) = t"
| "getText (MethodDeclaration t n b) = t"
| "getText (ComputedPropertyName t e) = t"
| "getText (ArrowFunction t b) = t"
| "getText (FunctionExpression t b) = t"
| "getText (FunctionDeclaration t b) = t"
| "getText (Block t ss) = t"
| "getText (ReturnStatement t r) = t"
| "getText (VariableStatement t ds) = t"
| "getText (VariableDeclaration t l n i) = t"
| "getText (TypeAliasDeclaration t ex n ty) = t"
| "getText (TypeQuery t n) = t"
| "getText (ImportDeclaration t spec c) = t"
| "getText (OtherFunctionLike t cs) = t"
| "getText (Other t cs) = t"

definition identifierName :: "node \<Rightarrow> string option" where
  "identifierName n = (case n of Identifier t name \<Rightarrow> Some name | _ \<Rightarrow> None)"

definition nameText :: "node \<Rightarrow> string" where
  "nameText n =
     (case n of Identifier t name \<Rightarrow> name | PrivateIdentifier t name \<Rightarrow> name | _ \<Rightarrow> getText n)"

section \<open>JSON values\<close>

text \<open>
  \<open>json\<close> is a value that \<open>JSON.parse\<close> returns. An object holds its members as the text
  declares them, in that order and with the repetitions of a key the text may have; a number
  holds its digits, which the code never reads.

  \<open>member v k\<close> is the property read \<open>v.k\<close> for the three keys the code reads
  (\<open>compilerOptions\<close>, \<open>paths\<close>, \<open>baseUrl\<close>), \<open>None\<close> being \<open>undefined\<close>: of an object it is the
  last member of that key, and a boolean, a number, a string and an array have no property of
  these names. Reading a property of \<open>null\<close> throws, which the caller tests before.

  \<open>ownEntries v\<close> is \<open>Object.entries(v)\<close> of an object or an array. JavaScript enumerates the
  keys of an object that are array indices (the canonical decimal numerals up to \<open>2^32 - 2\<close>)
  first, in ascending numeric order, and then the other keys in the order of their first
  declaration, each with the value declared last for it; the keys of an array are its
  indices. \<open>iterate v\<close> are the values a \<open>for ... of\<close> loop over \<open>v\<close> yields, \<open>None\<close> when \<open>v\<close>
  is not iterable: the elements of an array, and the characters of a string.
\<close>

datatype json =
    JNull
  | JBool bool
  | JNumber string
  | JString string
  | JArray "json list"
  | JObject "(string \<times> json) list"

definition member :: "json \<Rightarrow> string \<Rightarrow> json option" where
  "member v k = (case v of JObject members \<Rightarrow> map_of (rev members) k | _ \<Rightarrow> None)"

definition digitValue :: "char \<Rightarrow> int" where
  "digitValue c = of_char c - 48"

definition numeralValue :: "string \<Rightarrow> int" where
  "numeralValue k = foldl (\<lambda>n c. 10 * n + digitValue c) 0 k"

definition isArrayIndex :: "string \<Rightarrow> bool" where
  "isArrayIndex k =
     (k \<noteq> [] \<and> list_all isDigit k \<and> (k = ''0'' \<or> hd k \<noteq> CHR ''0'') \<and>
      numeralValue k \<le> 4294967294)"

fun showNat :: "nat \<Rightarrow> string" where
  "showNat n =
     (if n < 10 then [char_of (48 + n)] else showNat (n div 10) @ [char_of (48 + n mod 10)])"

definition objectEntries :: "(string \<times> json) list \<Rightarrow> (string \<times> json) list" where
  "objectEntries members =
     (let keys = rev (remdups (rev (map fst members)))
      in map (\<lambda>k. (k, the (map_of (rev members) k)))
           (sort_key numeralValue (filter isArrayIndex keys)
            @ filter (\<lambda>k. \<not> isArrayIndex k) keys))"

definition ownEntries :: "json \<Rightarrow> (string \<times> json) list" where
  "ownEntries v =
     (case v of
        JObject members \<Rightarrow> objectEntries members
      | JArray elements \<Rightarrow> zip (map showNat [0..<length elements]) elements
      | _ \<Rightarrow> [])"

definition iterate :: "json \<Rightarrow> json list option" where
  "iterate v =
     (case v of
        JArray elements \<Rightarrow> Some elements
      | JString t \<Rightarrow> Some (map (\<lambda>c. JString [c]) t)
      | _ \<Rightarrow> None)"

section \<open>The file system and the caches\<close>

text \<open>
  A file is held by the two views the code takes of its text: the tree that
  \<open>ts.createSourceFile\<close> builds of it (the source text and the statements of the
  \<open>SourceFile\<close> node), and the value that \<open>JSON.parse\<close> returns for it once the comments are
  stripped (\<open>None\<close> when parsing throws). \<open>readSourceFile\<close> is \<open>fs.readFileSync\<close> followed by
  \<open>ts.createSourceFile\<close>; reading a directory or a missing file throws. \<open>TypeError\<close> is the
  exception JavaScript throws when a value is used as what it is not.
\<close>

datatype fsEntry = File string "node list" "json option" | Directory

type_synonym fileSystem = "path \<Rightarrow> fsEntry option"

datatype error = EISDIR path | ENOENT path | TypeError

definition existsSync :: "fileSystem \<Rightarrow> path \<Rightarrow> bool" where
  "existsSync fs p = (fs p \<noteq> None)"

definition isFile :: "fileSystem \<Rightarrow> path \<Rightarrow> bool" where
  "isFile fs p = (case fs p of Some (File t ast js) \<Rightarrow> True | _ \<Rightarrow> False)"

definition readSourceFile :: "fileSystem \<Rightarrow> path \<Rightarrow> error + node" where
  "readSourceFile fs p =
     (case fs p of
        Some (File t statements js) \<Rightarrow> Inr (SourceFile t statements)
      | Some Directory \<Rightarrow> Inl (EISDIR p)
      | None \<Rightarrow> Inl (ENOENT p))"

record ImportInfo =
  moduleSpecifier :: string
  importName :: string
  isDefault :: bool

text \<open>\<open>paths\<close> is the value of \<open>compilerOptions.paths\<close> as it was parsed: the code tests
  that it is an object (or an array, which is one to \<open>typeof\<close>) and nothing of its members.\<close>

record TsConfigPaths =
  paths :: json
  baseUrl :: path

text \<open>
  \<open>TypeCheckerContext\<close> stands for the \<open>ts.Program\<close> and \<open>ts.TypeChecker\<close> of one
  configuration root. The compiler is outside the repository, so the context is given by
  what the code asks of it: whether the program holds a file (\<open>getProgramSourceFile\<close>); the
  text of the type at a node, printed by \<open>checker.typeToString\<close> (\<open>typeStringAt\<close>) or by
  \<open>typeToDisplayString\<close> (\<open>displayStringAt\<close>), \<open>None\<close> when \<open>findNodeByRange\<close> or
  \<open>getTypeAtLocation\<close> finds nothing; and what \<open>resolveEnumType\<close> returns for a name. The
  node of the program's own parse is found by the offsets of the node of the shallow parse;
  the model names it by that node.
\<close>

record TypeCheckerContext =
  hasSourceFile :: "path \<Rightarrow> bool"
  typeStringAt :: "path \<Rightarrow> node \<Rightarrow> string option"
  displayStringAt :: "path \<Rightarrow> node \<Rightarrow> string option"
  resolveEnumType :: "string \<Rightarrow> string option"

text \<open>
  The four module-level caches. A \<open>Map\<close> with \<open>null\<close> values is a map into an option:
  \<open>has(k)\<close> is \<open>m k \<noteq> None\<close>, and \<open>get(k) ?? null\<close> is \<open>the (m k)\<close>.
\<close>

record session =
  tsConfigPathsCache :: "path \<Rightarrow> TsConfigPaths option option"
  enumResolutionCache :: "string \<Rightarrow> string option option"
  nearestTsConfigPathCache :: "path \<Rightarrow> path option option"
  typeCheckerContextCache :: "path \<Rightarrow> TypeCheckerContext option option"

definition clearProcedureAnalysisCaches :: "session \<Rightarrow> session" where
  "clearProcedureAnalysisCaches s =
     s\<lparr>enumResolutionCache := Map.empty,
       nearestTsConfigPathCache := Map.empty,
       typeCheckerContextCache := Map.empty\<rparr>"

section \<open>Module resolver\<close>

definition resolveFile :: "fileSystem \<Rightarrow> path \<Rightarrow> path option" where
  "resolveFile fs base =
     find (\<lambda>candidate. existsSync fs candidate \<and> isFile fs candidate)
       [base,
        withExtension base ''.ts'',
        withExtension base ''.tsx'',
        path_join base ''index.ts'',
        path_join base ''index.tsx'']"

text \<open>
  The body of the \<open>try\<close> block of \<open>getTsConfigPaths\<close>: \<open>None\<close> when it throws (the file cannot
  be read or parsed, the parsed value is \<open>null\<close>, or \<open>baseUrl\<close> is not a string, which
  \<open>path.resolve\<close> rejects) and when \<open>compilerOptions.paths\<close> is not a truthy value of type
  \<open>object\<close>.
\<close>

definition readTsConfigPaths :: "fileSystem \<Rightarrow> path \<Rightarrow> path \<Rightarrow> TsConfigPaths option" where
  "readTsConfigPaths fs tsConfigPath dir =
     (case fs tsConfigPath of
        Some (File t ast (Some config)) \<Rightarrow>
          if config = JNull then None
          else
            (let compilerOptions =
                   (case member config ''compilerOptions'' of
                      None \<Rightarrow> JObject []
                    | Some JNull \<Rightarrow> JObject []
                    | Some options \<Rightarrow> options);
                 found =
                   (case member compilerOptions ''paths'' of
                      Some (JObject members) \<Rightarrow> Some (JObject members)
                    | Some (JArray elements) \<Rightarrow> Some (JArray elements)
                    | _ \<Rightarrow> None)
             in case found of
                  None \<Rightarrow> None
                | Some ps \<Rightarrow>
                    (case member compilerOptions ''baseUrl'' of
                       None \<Rightarrow> Some \<lparr>paths = ps, baseUrl = path_resolve dir ''.''\<rparr>
                     | Some JNull \<Rightarrow> Some \<lparr>paths = ps, baseUrl = path_resolve dir ''.''\<rparr>
                     | Some (JString b) \<Rightarrow> Some \<lparr>paths = ps, baseUrl = path_resolve dir b\<rparr>
                     | Some other \<Rightarrow> None))
      | _ \<Rightarrow> None)"

function getTsConfigPathsFrom ::
  "fileSystem \<Rightarrow> path \<Rightarrow> session \<Rightarrow> TsConfigPaths option \<times> session" where
  "getTsConfigPathsFrom fs dir s =
     (if dir = [] then (None, s\<lparr>tsConfigPathsCache := (tsConfigPathsCache s)(dir \<mapsto> None)\<rparr>)
      else
        (case tsConfigPathsCache s dir of
           Some cached \<Rightarrow> (cached, s)
         | None \<Rightarrow>
             (if existsSync fs (path_join dir ''tsconfig.json'') then
                (case readTsConfigPaths fs (path_join dir ''tsconfig.json'') dir of
                   Some result \<Rightarrow>
                     (Some result,
                      s\<lparr>tsConfigPathsCache := (tsConfigPathsCache s)(dir \<mapsto> Some result)\<rparr>)
                 | None \<Rightarrow>
                     (None, s\<lparr>tsConfigPathsCache := (tsConfigPathsCache s)(dir \<mapsto> None)\<rparr>))
              else getTsConfigPathsFrom fs (path_dirname dir) s)))"
  by pat_completeness auto
termination
  by (relation "measure (\<lambda>(fs, dir, s). length dir)") (auto simp: path_dirname_def)

definition getTsConfigPaths ::
  "fileSystem \<Rightarrow> path \<Rightarrow> session \<Rightarrow> TsConfigPaths option \<times> session" where
  "getTsConfigPaths fs fromFilePath s = getTsConfigPathsFrom fs (path_dirname fromFilePath) s"

text \<open>
  \<open>stripTrailingStar\<close> is \<open>replace(/\*$/, "")\<close>. \<open>tryMappings\<close> is the inner loop of
  \<open>resolveImport\<close> over the values that iterating \<open>mappings\<close> yields, and \<open>tryPatterns\<close> the
  outer loop over \<open>Object.entries(paths)\<close>. The code casts \<open>mappings\<close> to \<open>string[]\<close> and tests
  nothing: a value that is not iterable, and an element that has no method \<open>replace\<close>, throw a
  \<open>TypeError\<close> when the loop reaches them.
\<close>

definition stripTrailingStar :: "string \<Rightarrow> string" where
  "stripTrailingStar p = (if p \<noteq> [] \<and> last p = CHR ''*'' then butlast p else p)"

fun tryMappings :: "fileSystem \<Rightarrow> path \<Rightarrow> string \<Rightarrow> json list \<Rightarrow> error + path option" where
  "tryMappings fs base rest [] = Inr None"
| "tryMappings fs base rest (mapping # mappings) =
     (case mapping of
        JString m \<Rightarrow>
          (case resolveFile fs (path_resolve base (stripTrailingStar m @ rest)) of
             Some resolved \<Rightarrow> Inr (Some resolved)
           | None \<Rightarrow> tryMappings fs base rest mappings)
      | _ \<Rightarrow> Inl TypeError)"

fun tryPatterns ::
  "fileSystem \<Rightarrow> path \<Rightarrow> string \<Rightarrow> (string \<times> json) list \<Rightarrow> error + path option" where
  "tryPatterns fs base specifier [] = Inr None"
| "tryPatterns fs base specifier ((pattern, mappings) # entries) =
     (if \<not> startsWith specifier (stripTrailingStar pattern)
      then tryPatterns fs base specifier entries
      else
        (case iterate mappings of
           None \<Rightarrow> Inl TypeError
         | Some substitutions \<Rightarrow>
             (case tryMappings fs base (drop (length (stripTrailingStar pattern)) specifier) substitutions of
                Inl e \<Rightarrow> Inl e
              | Inr (Some resolved) \<Rightarrow> Inr (Some resolved)
              | Inr None \<Rightarrow> tryPatterns fs base specifier entries)))"

definition resolveImport ::
  "fileSystem \<Rightarrow> string \<Rightarrow> path \<Rightarrow> session \<Rightarrow> error + (path option \<times> session)" where
  "resolveImport fs specifier fromFilePath s =
     (if startsWith specifier ''.''
      then Inr (resolveFile fs (path_resolve (path_dirname fromFilePath) specifier), s)
      else
        (case getTsConfigPaths fs fromFilePath s of
           (None, s') \<Rightarrow> Inr (None, s')
         | (Some tsConfigPaths, s') \<Rightarrow>
             (case tryPatterns fs (baseUrl tsConfigPaths) specifier
                     (ownEntries (paths tsConfigPaths)) of
                Inl e \<Rightarrow> Inl e
              | Inr resolved \<Rightarrow> Inr (resolved, s'))))"

section \<open>Walking the tree\<close>

lemma forEachChild_smaller: "c \<in> set (forEachChild n) \<Longrightarrow> size c < size n"
  by (cases n)
    (auto simp: less_Suc_eq_le split: option.splits intro: size_list_estimation' trans_le_add1)

text \<open>\<open>preorder\<close> lists a node and its descendants in the order in which a visitor of the shape
  \<open>visit(node) { ...; ts.forEachChild(node, visit) }\<close> reaches them.\<close>

function preorder :: "node \<Rightarrow> node list" where
  "preorder n = n # concat (map preorder (forEachChild n))"
  by pat_completeness auto
termination
  by (relation "measure size") (auto simp: forEachChild_smaller)

declare preorder.simps [simp del]

text \<open>A JavaScript \<open>Set\<close> of strings keeps its members in insertion order; \<open>arrayFromSet\<close> is
  \<open>Array.from(new Set(xs))\<close>.\<close>

definition setAdd :: "string list \<Rightarrow> string \<Rightarrow> string list" where
  "setAdd results x = (if x \<in> set results then results else results @ [x])"

definition arrayFromSet :: "string list \<Rightarrow> string list" where
  "arrayFromSet xs = foldl setAdd [] xs"

section \<open>Root alias probe\<close>

text \<open>\<open>rootAliasTarget\<close> is the test of the visitor of \<open>findAppRoutersInFile\<close>, with the text
  of \<open>node.type.exprName\<close> when it holds.\<close>

definition rootAliasTarget :: "node \<Rightarrow> string option" where
  "rootAliasTarget n =
     (case n of
        TypeAliasDeclaration t exported alias (TypeQuery q exprName) \<Rightarrow>
          if alias = ''AppRouter'' then Some exprName else None
      | _ \<Rightarrow> None)"

definition findAppRoutersInFile :: "fileSystem \<Rightarrow> path \<Rightarrow> error + string list" where
  "findAppRoutersInFile fs filePath =
     (if \<not> existsSync fs filePath then Inr []
      else
        (case readSourceFile fs filePath of
           Inl e \<Rightarrow> Inl e
         | Inr sourceFile \<Rightarrow>
             Inr (foldl
               (\<lambda>results n.
                  (case rootAliasTarget n of
                     Some exprName \<Rightarrow> setAdd results exprName
                   | None \<Rightarrow> results))
               [] (preorder sourceFile))))"

definition findAppRouterInFile :: "fileSystem \<Rightarrow> path \<Rightarrow> error + string option" where
  "findAppRouterInFile fs filePath =
     (case findAppRoutersInFile fs filePath of
        Inl e \<Rightarrow> Inl e
      | Inr matches \<Rightarrow> Inr (case matches of [] \<Rightarrow> None | m # ms \<Rightarrow> Some m))"

section \<open>Imports and variable declarations of a file\<close>

definition statements :: "node \<Rightarrow> node list" where
  "statements sourceFile = (case sourceFile of SourceFile t ss \<Rightarrow> ss | _ \<Rightarrow> [])"

definition addNamedImport ::
  "string \<Rightarrow> (string \<Rightarrow> ImportInfo option) \<Rightarrow> importSpecifier \<Rightarrow> (string \<Rightarrow> ImportInfo option)" where
  "addNamedImport spec result el =
     result(localName el \<mapsto>
       \<lparr>moduleSpecifier = spec,
        importName = (case propertyName el of Some imported \<Rightarrow> imported | None \<Rightarrow> localName el),
        isDefault = False\<rparr>)"

definition addImports ::
  "(string \<Rightarrow> ImportInfo option) \<Rightarrow> node \<Rightarrow> (string \<Rightarrow> ImportInfo option)" where
  "addImports result stmt =
     (case stmt of
        ImportDeclaration t spec (Some clause) \<Rightarrow>
          (let result1 =
                 (case defaultName clause of
                    Some n \<Rightarrow>
                      result(n \<mapsto> \<lparr>moduleSpecifier = spec, importName = ''default'', isDefault = True\<rparr>)
                  | None \<Rightarrow> result)
           in (case bindings clause of
                 Some (NamedImports elements) \<Rightarrow> foldl (addNamedImport spec) result1 elements
               | _ \<Rightarrow> result1))
      | _ \<Rightarrow> result)"

definition getImports :: "node \<Rightarrow> (string \<Rightarrow> ImportInfo option)" where
  "getImports sourceFile = foldl addImports Map.empty (statements sourceFile)"

definition isRouterCall :: "node \<Rightarrow> bool" where
  "isRouterCall call =
     (case call of
        CallExpression t (PropertyAccessExpression q e n) args \<Rightarrow> getText n = ''router''
      | CallExpression t (Identifier q name) args \<Rightarrow> q = ''router'' \<or> q = ''createTRPCRouter''
      | _ \<Rightarrow> False)"

text \<open>
  \<open>variableInitializer varName n\<close> is the test \<open>ts.isVariableDeclaration(node) &&
  node.name.getText() === varName && node.initializer\<close> of the visitors, with the line and the
  initializer of the declaration when it holds.
\<close>

definition variableInitializer :: "string \<Rightarrow> node \<Rightarrow> (nat \<times> node) option" where
  "variableInitializer varName n =
     (case n of
        VariableDeclaration t l declared (Some initializer) \<Rightarrow>
          if declared = varName then Some (l, initializer) else None
      | _ \<Rightarrow> None)"

text \<open>
  \<open>findVariableInitializer\<close> stops descending once \<open>result\<close> is truthy, and does not descend
  into a declaration it has taken the initializer of.
\<close>

function findVariableInitializerVisit :: "string \<Rightarrow> string option \<Rightarrow> node \<Rightarrow> string option" where
  "findVariableInitializerVisit varName result n =
     (if truthy result then result
      else
        (case variableInitializer varName n of
           Some (l, initializer) \<Rightarrow> Some (getText initializer)
         | None \<Rightarrow> foldl (findVariableInitializerVisit varName) result (forEachChild n)))"
  by pat_completeness auto
termination
  by (relation "measure (\<lambda>(varName, result, n). size n)") (auto simp: forEachChild_smaller)

definition findVariableInitializer :: "node \<Rightarrow> string \<Rightarrow> string option" where
  "findVariableInitializer sourceFile varName = findVariableInitializerVisit varName None sourceFile"

function findVariableDeclarationInfoVisit ::
  "string \<Rightarrow> (node \<times> nat) option \<Rightarrow> node \<Rightarrow> (node \<times> nat) option" where
  "findVariableDeclarationInfoVisit varName result n =
     (if result \<noteq> None then result
      else
        (case variableInitializer varName n of
           Some (l, initializer) \<Rightarrow> Some (initializer, l + 1)
         | None \<Rightarrow> foldl (findVariableDeclarationInfoVisit varName) result (forEachChild n)))"
  by pat_completeness auto
termination
  by (relation "measure (\<lambda>(varName, result, n). size n)") (auto simp: forEachChild_smaller)

definition findVariableDeclarationInfo :: "node \<Rightarrow> string \<Rightarrow> (node \<times> nat) option" where
  "findVariableDeclarationInfo sourceFile varName =
     findVariableDeclarationInfoVisit varName None sourceFile"

section \<open>Procedure analyzer: the semantic context\<close>

text \<open>
  \<open>createTypeCheckerContext\<close> builds a program with the TypeScript compiler; the model takes
  it as a parameter \<open>compiler\<close>, from the configuration path and the target file to the
  context (or \<open>null\<close>).
\<close>

type_synonym compiler = "path \<Rightarrow> path \<Rightarrow> TypeCheckerContext option"

function findNearestTsConfigFileFrom ::
  "fileSystem \<Rightarrow> path \<Rightarrow> path \<Rightarrow> session \<Rightarrow> path option \<times> session" where
  "findNearestTsConfigFileFrom fs initialDir dir s =
     (case nearestTsConfigPathCache s dir of
        Some cached \<Rightarrow> (cached, s)
      | None \<Rightarrow>
          (if existsSync fs (path_join dir ''tsconfig.json'') then
             (Some (path_join dir ''tsconfig.json''),
              s\<lparr>nearestTsConfigPathCache :=
                  (nearestTsConfigPathCache s)(dir \<mapsto> Some (path_join dir ''tsconfig.json''))\<rparr>)
           else if dir = [] then
             (None, s\<lparr>nearestTsConfigPathCache := (nearestTsConfigPathCache s)(initialDir \<mapsto> None)\<rparr>)
           else findNearestTsConfigFileFrom fs initialDir (path_dirname dir) s))"
  by pat_completeness auto
termination
  by (relation "measure (\<lambda>(fs, initialDir, dir, s). length dir)") (auto simp: path_dirname_def)

definition findNearestTsConfigFile :: "fileSystem \<Rightarrow> path \<Rightarrow> session \<Rightarrow> path option \<times> session" where
  "findNearestTsConfigFile fs fromFilePath s =
     findNearestTsConfigFileFrom fs (path_dirname fromFilePath) (path_dirname fromFilePath) s"

definition getTypeCheckerContext ::
  "fileSystem \<Rightarrow> compiler \<Rightarrow> path \<Rightarrow> session \<Rightarrow> TypeCheckerContext option \<times> session" where
  "getTypeCheckerContext fs createTypeCheckerContext filePath s =
     (case findNearestTsConfigFile fs filePath s of
        (None, s1) \<Rightarrow> (None, s1)
      | (Some tsConfigPath, s1) \<Rightarrow>
          (case typeCheckerContextCache s1 tsConfigPath of
             Some cached \<Rightarrow> (cached, s1)
           | None \<Rightarrow>
               (createTypeCheckerContext tsConfigPath filePath,
                s1\<lparr>typeCheckerContextCache :=
                     (typeCheckerContextCache s1)
                       (tsConfigPath \<mapsto> createTypeCheckerContext tsConfigPath filePath)\<rparr>)))"

section \<open>Procedure analyzer: type texts\<close>

definition isNonInformativeInferredType :: "string \<Rightarrow> bool" where
  "isNonInformativeInferredType typeText =
     (let compact = filter (\<lambda>c. \<not> isSpace c) typeText in
      compact = [] \<or>
      list_all
        (\<lambda>part. part = ''any'' \<or> part = ''any[]'' \<or> part = ''unknown'' \<or> part = ''unknown[]''
           \<or> part = ''{[key:string]:unknown;}'' \<or> part = ''{[key:string]:unknown}'')
        (splitOn (CHR ''|'') compact))"

fun closingAngle :: "string \<Rightarrow> nat \<Rightarrow> int \<Rightarrow> nat option" where
  "closingAngle [] i depth = None"
| "closingAngle (ch # rest) i depth =
     (if ch = CHR ''<'' then closingAngle rest (i + 1) (depth + 1)
      else if ch = CHR ''>'' then
        (if depth - 1 = 0 then Some i else closingAngle rest (i + 1) (depth - 1))
      else closingAngle rest (i + 1) depth)"

definition slice :: "string \<Rightarrow> nat \<Rightarrow> nat \<Rightarrow> string" where
  "slice s a b = take (b - a) (drop a s)"

definition extractTopLevelGenericArg :: "string \<Rightarrow> string option" where
  "extractTopLevelGenericArg typeText =
     (let ltIndex = length (takeWhile (\<lambda>c. c \<noteq> CHR ''<'') typeText) in
      if ltIndex = length typeText then None
      else
        (case closingAngle (drop ltIndex typeText) ltIndex 0 of
           None \<Rightarrow> None
         | Some i \<Rightarrow> Some (trim (slice typeText (ltIndex + 1) i))))"

text \<open>\<open>charAt\<close> is \<open>text[i] ?? ""\<close>; \<open>isIdentChar\<close> is the class \<open>[A-Za-z0-9_$]\<close>; \<open>skipSpace\<close>
  is the loop \<open>while (/\s/.test(text[cursor] ?? "")) cursor++\<close>.\<close>

definition charAt :: "string \<Rightarrow> nat \<Rightarrow> string" where
  "charAt s i = (if i < length s then [s ! i] else [])"

definition isIdentChar :: "char \<Rightarrow> bool" where
  "isIdentChar c = (isWordChar c \<or> c = CHR ''$'')"

definition skipSpace :: "string \<Rightarrow> nat \<Rightarrow> nat" where
  "skipSpace s cursor = cursor + length (takeWhile isSpace (drop cursor s))"

definition isQuote :: "char \<Rightarrow> bool" where
  "isQuote c = (c = CHR 0x27 \<or> c = CHR 0x22 \<or> c = CHR 0x60)"

text \<open>The inner loop of \<open>extractTopLevelObjectFieldType\<close>, which finds where the value of the
  field ends.\<close>

function scanValue ::
  "string \<Rightarrow> nat \<Rightarrow> nat \<Rightarrow> int \<Rightarrow> int \<Rightarrow> int \<Rightarrow> int \<Rightarrow> char option \<Rightarrow> string" where
  "scanValue s valueStart j valueBrace valueAngle valueBracket valueParen valueString =
     (if length s \<le> j then trim (drop valueStart s)
      else
        (case valueString of
           Some q \<Rightarrow>
             if s ! j = CHR 0x5C
             then scanValue s valueStart (j + 2) valueBrace valueAngle valueBracket valueParen valueString
             else if s ! j = q
             then scanValue s valueStart (j + 1) valueBrace valueAngle valueBracket valueParen None
             else scanValue s valueStart (j + 1) valueBrace valueAngle valueBracket valueParen valueString
         | None \<Rightarrow>
             if isQuote (s ! j)
             then scanValue s valueStart (j + 1) valueBrace valueAngle valueBracket valueParen (Some (s ! j))
             else if s ! j = CHR ''{''
             then scanValue s valueStart (j + 1) (valueBrace + 1) valueAngle valueBracket valueParen None
             else if s ! j = CHR ''}'' then
               (if valueBrace = 0 \<and> valueAngle = 0 \<and> valueBracket = 0 \<and> valueParen = 0
                then trim (slice s valueStart j)
                else scanValue s valueStart (j + 1) (valueBrace - 1) valueAngle valueBracket valueParen None)
             else if s ! j = CHR ''<''
             then scanValue s valueStart (j + 1) valueBrace (valueAngle + 1) valueBracket valueParen None
             else if s ! j = CHR ''>''
             then scanValue s valueStart (j + 1) valueBrace (max 0 (valueAngle - 1)) valueBracket valueParen None
             else if s ! j = CHR ''[''
             then scanValue s valueStart (j + 1) valueBrace valueAngle (valueBracket + 1) valueParen None
             else if s ! j = CHR '']''
             then scanValue s valueStart (j + 1) valueBrace valueAngle (valueBracket - 1) valueParen None
             else if s ! j = CHR ''(''
             then scanValue s valueStart (j + 1) valueBrace valueAngle valueBracket (valueParen + 1) None
             else if s ! j = CHR '')''
             then scanValue s valueStart (j + 1) valueBrace valueAngle valueBracket (valueParen - 1) None
             else if (s ! j = CHR '';'' \<or> s ! j = CHR '','')
                     \<and> valueBrace = 0 \<and> valueAngle = 0 \<and> valueBracket = 0 \<and> valueParen = 0
             then trim (slice s valueStart j)
             else scanValue s valueStart (j + 1) valueBrace valueAngle valueBracket valueParen None))"
  by pat_completeness auto
termination
  by (relation "measure (\<lambda>(s, valueStart, j, rest). length s - j)") auto

text \<open>What the outer loop does at an index where the field name stands at depth one: \<open>None\<close> is
  \<open>continue\<close>, \<open>Some v\<close> is \<open>return v\<close>.\<close>

definition fieldValueAt :: "string \<Rightarrow> string \<Rightarrow> nat \<Rightarrow> string option" where
  "fieldValueAt s fieldName i =
     (let preceding = (if 0 < i then charAt s (i - 1) else []);
          following = charAt s (i + length fieldName)
      in if list_ex isIdentChar preceding \<or> list_ex isIdentChar following then None
         else
           (let cursor1 = skipSpace s (i + length fieldName);
                cursor2 = (if charAt s cursor1 = ''?'' then cursor1 + 1 else cursor1);
                cursor3 = skipSpace s cursor2
            in if charAt s cursor3 \<noteq> '':'' then None
               else Some (scanValue s (skipSpace s (cursor3 + 1)) (skipSpace s (cursor3 + 1)) 0 0 0 0 None)))"

function scanField ::
  "string \<Rightarrow> string \<Rightarrow> nat \<Rightarrow> int \<Rightarrow> int \<Rightarrow> int \<Rightarrow> int \<Rightarrow> char option \<Rightarrow> string option" where
  "scanField s fieldName i depthBrace depthAngle depthBracket depthParen inString =
     (if length s \<le> i then None
      else
        (case inString of
           Some q \<Rightarrow>
             if s ! i = CHR 0x5C
             then scanField s fieldName (i + 2) depthBrace depthAngle depthBracket depthParen inString
             else if s ! i = q
             then scanField s fieldName (i + 1) depthBrace depthAngle depthBracket depthParen None
             else scanField s fieldName (i + 1) depthBrace depthAngle depthBracket depthParen inString
         | None \<Rightarrow>
             if isQuote (s ! i)
             then scanField s fieldName (i + 1) depthBrace depthAngle depthBracket depthParen (Some (s ! i))
             else if s ! i = CHR ''{''
             then scanField s fieldName (i + 1) (depthBrace + 1) depthAngle depthBracket depthParen None
             else if s ! i = CHR ''}''
             then scanField s fieldName (i + 1) (depthBrace - 1) depthAngle depthBracket depthParen None
             else if s ! i = CHR ''<''
             then scanField s fieldName (i + 1) depthBrace (depthAngle + 1) depthBracket depthParen None
             else if s ! i = CHR ''>''
             then scanField s fieldName (i + 1) depthBrace (max 0 (depthAngle - 1)) depthBracket depthParen None
             else if s ! i = CHR ''[''
             then scanField s fieldName (i + 1) depthBrace depthAngle (depthBracket + 1) depthParen None
             else if s ! i = CHR '']''
             then scanField s fieldName (i + 1) depthBrace depthAngle (depthBracket - 1) depthParen None
             else if s ! i = CHR ''(''
             then scanField s fieldName (i + 1) depthBrace depthAngle depthBracket (depthParen + 1) None
             else if s ! i = CHR '')''
             then scanField s fieldName (i + 1) depthBrace depthAngle depthBracket (depthParen - 1) None
             else if depthBrace \<noteq> 1 \<or> depthAngle \<noteq> 0 \<or> depthBracket \<noteq> 0 \<or> depthParen \<noteq> 0
             then scanField s fieldName (i + 1) depthBrace depthAngle depthBracket depthParen None
             else if startsWith (drop i s) fieldName then
               (case fieldValueAt s fieldName i of
                  Some v \<Rightarrow> Some v
                | None \<Rightarrow>
                    scanField s fieldName (i + 1) depthBrace depthAngle depthBracket depthParen None)
             else scanField s fieldName (i + 1) depthBrace depthAngle depthBracket depthParen None))"
  by pat_completeness auto
termination
  by (relation "measure (\<lambda>(s, fieldName, i, rest). length s - i)") auto

definition extractTopLevelObjectFieldType :: "string \<Rightarrow> string \<Rightarrow> string option" where
  "extractTopLevelObjectFieldType objectText fieldName =
     (if \<not> startsWith (trim objectText) ''{'' then None
      else scanField (trim objectText) fieldName 0 0 0 0 0 None)"
text \<open>\<open>stripImports\<close> is \<open>replace(/import\([^)]*\)\./g, "")\<close>.\<close>

function stripImports :: "string \<Rightarrow> string" where
  "stripImports s =
     (case s of
        [] \<Rightarrow> []
      | c # cs \<Rightarrow>
          if startsWith s ''import(''
             \<and> startsWith (dropWhile (\<lambda>x. x \<noteq> CHR '')'') (drop 7 s)) '').''
          then stripImports (drop 2 (dropWhile (\<lambda>x. x \<noteq> CHR '')'') (drop 7 s)))
          else c # stripImports cs)"
  by pat_completeness auto
termination
proof (relation "measure length")
  show "wf (measure length)" by simp
next
  fix s :: string and c cs
  assume "s = c # cs"
  have "length (dropWhile (\<lambda>x. x \<noteq> CHR '')'') (drop 7 s)) \<le> length (drop 7 s)"
    by (rule length_dropWhile_le)
  then show "(drop 2 (dropWhile (\<lambda>x. x \<noteq> CHR '')'') (drop 7 s)), s) \<in> measure length"
    using \<open>s = c # cs\<close> by simp
next
  fix s :: string and c cs
  assume "s = c # cs"
  then show "(cs, s) \<in> measure length" by simp
qed

definition isAlpha :: "char \<Rightarrow> bool" where
  "isAlpha c = (isUpper c \<or> isLower c)"

definition includesText :: "string \<Rightarrow> string \<Rightarrow> bool" where
  "includesText s sub = list_ex (\<lambda>i. startsWith (drop i s) sub) [0..<Suc (length s)]"

text \<open>\<open>wrapperMatch\<close> is the first group of \<open>/^([A-Za-z_$][\w$.]*)\s*<([\s\S]+)>$/\<close>, when the
  text matches.\<close>

definition wrapperMatch :: "string \<Rightarrow> string option" where
  "wrapperMatch current =
     (case current of
        [] \<Rightarrow> None
      | c # cs \<Rightarrow>
          if isAlpha c \<or> c = CHR ''_'' \<or> c = CHR ''$'' then
            (let wrapper = c # takeWhile (\<lambda>x. isWordChar x \<or> x = CHR ''$'' \<or> x = CHR ''.'') cs;
                 rest = dropWhile isSpace (drop (length wrapper) current)
             in if startsWith rest ''<'' \<and> 3 \<le> length rest \<and> last rest = CHR ''>''
                then Some wrapper else None)
          else None)"

lemma length_trim_le: "length (trim s) \<le> length s"
proof -
  have "length (trim s) \<le> length (dropWhile isSpace s)"
    unfolding trim_def using length_dropWhile_le [of isSpace "rev (dropWhile isSpace s)"] by simp
  also have "\<dots> \<le> length s" by (rule length_dropWhile_le)
  finally show ?thesis .
qed

lemma extractTopLevelGenericArg_shorter:
  "extractTopLevelGenericArg t = Some g \<Longrightarrow> length g < length t"
proof -
  assume a: "extractTopLevelGenericArg t = Some g"
  define lt where "lt = length (takeWhile (\<lambda>c. c \<noteq> CHR ''<'') t)"
  from a have lt: "lt < length t"
    using length_takeWhile_le [of "\<lambda>c. c \<noteq> CHR ''<''" t]
    by (auto simp: extractTopLevelGenericArg_def lt_def Let_def split: if_splits)
  from a obtain i where g: "g = trim (slice t (lt + 1) i)"
    by (auto simp: extractTopLevelGenericArg_def lt_def Let_def split: if_splits option.splits)
  have "length g \<le> length (slice t (lt + 1) i)"
    unfolding g by (rule length_trim_le)
  also have "\<dots> \<le> length t - (lt + 1)"
    by (simp add: slice_def)
  also have "\<dots> < length t" using lt by simp
  finally show ?thesis .
qed

function unwrapLoop :: "string \<Rightarrow> string" where
  "unwrapLoop current =
     (case wrapperMatch current of
        None \<Rightarrow> current
      | Some wrapper \<Rightarrow>
          (case extractTopLevelGenericArg current of
             None \<Rightarrow> current
           | Some genericArg \<Rightarrow>
               if genericArg = [] then current
               else if endsWith wrapper ''.PrismaPromise'' \<or> wrapper = ''PrismaPromise''
                       \<or> wrapper = ''Promise'' \<or> includesText wrapper ''Prisma__''
               then unwrapLoop (trim genericArg)
               else current))"
  by pat_completeness auto
termination
proof (relation "measure length")
  show "wf (measure length)" by simp
next
  fix current :: string and wrapper genericArg
  assume "extractTopLevelGenericArg current = Some genericArg"
  then have "length genericArg < length current"
    by (rule extractTopLevelGenericArg_shorter)
  then show "(trim genericArg, current) \<in> measure length"
    using length_trim_le [of genericArg] by simp
qed

definition unwrapKnownWrapperTypes :: "string \<Rightarrow> string" where
  "unwrapKnownWrapperTypes typeText = unwrapLoop (trim typeText)"

definition sanitizeTypeText :: "string option \<Rightarrow> string option" where
  "sanitizeTypeText typeText =
     (case typeText of
        None \<Rightarrow> None
      | Some t \<Rightarrow>
          if t = [] then None
          else Some (trim (unwrapKnownWrapperTypes (trim (stripImports t)))))"

section \<open>Procedure analyzer: enum aliases\<close>

text \<open>
  \<open>resolveEnumAliasesInText\<close> replaces every match of
  \<open>/\$Enums\.([A-Za-z_]\w*)|(?<=:\s*)([A-Z][A-Za-z_]\w*)\b(?!\s*[<({.])/g\<close> through a callback that
  consults and fills \<open>enumResolutionCache\<close>. \<open>matchEnumAt prev rest\<close> tries the expression at
  the position that has the reversed text \<open>prev\<close> before it and \<open>rest\<close> from it on; it gives the
  length of the match less one, and the name captured.
\<close>

definition matchEnumAt :: "string \<Rightarrow> string \<Rightarrow> (nat \<times> string) option" where
  "matchEnumAt prev rest =
     (let viaNamespace =
            (if startsWith rest ''$Enums.'' then
               (case drop 7 rest of
                  [] \<Rightarrow> None
                | c # cs \<Rightarrow>
                    if isAlpha c \<or> c = CHR ''_''
                    then Some (7 + length (takeWhile isWordChar cs), c # takeWhile isWordChar cs)
                    else None)
             else None)
      in case viaNamespace of
           Some m \<Rightarrow> Some m
         | None \<Rightarrow>
             (case rest of
                c1 # c2 # cs \<Rightarrow>
                  if startsWith (dropWhile isSpace prev) '':''
                     \<and> isUpper c1 \<and> (isAlpha c2 \<or> c2 = CHR ''_'')
                     \<and> \<not> (case dropWhile isSpace (dropWhile isWordChar cs) of
                             [] \<Rightarrow> False
                           | d # ds \<Rightarrow> d \<in> set ''<({.'')
                  then Some (1 + length (takeWhile isWordChar cs), c1 # c2 # takeWhile isWordChar cs)
                  else None
              | _ \<Rightarrow> None))"

definition builtinTypeNames :: "string list" where
  "builtinTypeNames =
     [''Date'', ''Map'', ''Set'', ''Array'', ''Promise'', ''RegExp'', ''Error'', ''Buffer'',
      ''String'', ''Number'', ''Boolean'', ''Object'', ''Symbol'', ''BigInt'']"

definition replaceEnum ::
  "TypeCheckerContext \<Rightarrow> string \<Rightarrow> string \<Rightarrow> session \<Rightarrow> string \<times> session" where
  "replaceEnum ctx fullMatch enumName s =
     (if enumName \<in> set builtinTypeNames then (fullMatch, s)
      else
        (case enumResolutionCache s enumName of
           Some cached \<Rightarrow> ((case cached of Some r \<Rightarrow> r | None \<Rightarrow> fullMatch), s)
         | None \<Rightarrow>
             ((case resolveEnumType ctx enumName of Some r \<Rightarrow> r | None \<Rightarrow> fullMatch),
              s\<lparr>enumResolutionCache :=
                  (enumResolutionCache s)(enumName \<mapsto> resolveEnumType ctx enumName)\<rparr>)))"

function resolveEnumScan ::
  "TypeCheckerContext \<Rightarrow> string \<Rightarrow> string \<Rightarrow> session \<Rightarrow> string \<times> session" where
  "resolveEnumScan ctx prev rest s =
     (case rest of
        [] \<Rightarrow> ([], s)
      | c # cs \<Rightarrow>
          (case matchEnumAt prev rest of
             Some (n, enumName) \<Rightarrow>
               (case replaceEnum ctx (take (Suc n) rest) enumName s of
                  (replacement, s1) \<Rightarrow>
                    (case resolveEnumScan ctx (rev (take (Suc n) rest) @ prev) (drop (Suc n) rest) s1 of
                       (out, s2) \<Rightarrow> (replacement @ out, s2)))
           | None \<Rightarrow>
               (case resolveEnumScan ctx (c # prev) cs s of (out, s1) \<Rightarrow> (c # out, s1))))"
  by pat_completeness auto
termination
  by (relation "measure (\<lambda>(ctx, prev, rest, s). length rest)") auto

definition resolveEnumAliasesInText ::
  "string \<Rightarrow> TypeCheckerContext \<Rightarrow> session \<Rightarrow> string \<times> session" where
  "resolveEnumAliasesInText t ctx s = resolveEnumScan ctx [] t s"

section \<open>Procedure analyzer: structural inference\<close>

definition isFunctionLike :: "node \<Rightarrow> bool" where
  "isFunctionLike n =
     (case n of
        ArrowFunction t b \<Rightarrow> True
      | FunctionExpression t b \<Rightarrow> True
      | FunctionDeclaration t b \<Rightarrow> True
      | MethodDeclaration t m b \<Rightarrow> True
      | OtherFunctionLike t cs \<Rightarrow> True
      | _ \<Rightarrow> False)"

definition returnedExpression :: "node \<Rightarrow> node option" where
  "returnedExpression n = (case n of ReturnStatement t (Some e) \<Rightarrow> Some e | _ \<Rightarrow> None)"

function collectReturnsVisit :: "node \<Rightarrow> node list" where
  "collectReturnsVisit n =
     (if isFunctionLike n then []
      else
        (case returnedExpression n of
           Some e \<Rightarrow> [e]
         | None \<Rightarrow> concat (map collectReturnsVisit (forEachChild n))))"
  by pat_completeness auto
termination
  by (relation "measure size") (auto simp: forEachChild_smaller)

definition collectReturnExpressions :: "node \<Rightarrow> node list" where
  "collectReturnExpressions resolver =
     (case resolver of
        ArrowFunction t (Block q ss) \<Rightarrow> collectReturnsVisit (Block q ss)
      | ArrowFunction t body \<Rightarrow> [body]
      | FunctionExpression t (Block q ss) \<Rightarrow> collectReturnsVisit (Block q ss)
      | FunctionExpression t body \<Rightarrow> [body]
      | _ \<Rightarrow> [])"

text \<open>
  \<open>existsSuffix P s\<close> holds when \<open>P\<close> holds of the text from some position of \<open>s\<close> on, and
  \<open>firstSuffix f s\<close> is the value of \<open>f\<close> at the leftmost position where it has one: an
  unanchored regular expression is tried at every position, from the left.
\<close>

fun existsSuffix :: "(string \<Rightarrow> bool) \<Rightarrow> string \<Rightarrow> bool" where
  "existsSuffix P [] = P []"
| "existsSuffix P (c # cs) = (P (c # cs) \<or> existsSuffix P cs)"

fun firstSuffix :: "(string \<Rightarrow> 'a option) \<Rightarrow> string \<Rightarrow> 'a option" where
  "firstSuffix f [] = f []"
| "firstSuffix f (c # cs) = (case f (c # cs) of Some v \<Rightarrow> Some v | None \<Rightarrow> firstSuffix f cs)"

definition zodPrimitives :: "(string \<times> string) list" where
  "zodPrimitives =
     [(''string'', ''string''), (''number'', ''number''), (''boolean'', ''boolean''),
      (''date'', ''Date''), (''bigint'', ''bigint''), (''unknown'', ''unknown''), (''any'', ''any''),
      (''null'', ''null''), (''undefined'', ''undefined'')]"

text \<open>\<open>baseMatchAt\<close> is the expression \<open>field\s*:\s*z\.(string|number|...)\s*\(\<close> tried at the
  start of a text; it gives the primitive that the keyword is mapped to.\<close>

definition baseMatchAt :: "string \<Rightarrow> string \<Rightarrow> string option" where
  "baseMatchAt fieldName t =
     (if \<not> startsWith t fieldName then None
      else
        (let afterField = dropWhile isSpace (drop (length fieldName) t) in
         if \<not> startsWith afterField '':'' then None
         else
           (let afterColon = dropWhile isSpace (drop 1 afterField) in
            if \<not> startsWith afterColon ''z.'' then None
            else
              map_option snd
                (find (\<lambda>(keyword, primitive).
                         startsWith (drop 2 afterColon) keyword
                         \<and> startsWith (dropWhile isSpace (drop (2 + length keyword) afterColon)) ''('')
                   zodPrimitives))))"

definition callFollows :: "string \<Rightarrow> string \<Rightarrow> string \<Rightarrow> bool" where
  "callFollows fieldName suffixMethod t =
     existsSuffix
       (\<lambda>u. startsWith u fieldName
            \<and> existsSuffix
                (\<lambda>v. startsWith v suffixMethod
                     \<and> startsWith (dropWhile isSpace (drop (length suffixMethod) v)) ''('')
                (drop (length fieldName) u))
       t"

definition guessInputFieldTypeFromSchema :: "string option \<Rightarrow> string \<Rightarrow> string option" where
  "guessInputFieldTypeFromSchema inputSchema fieldName =
     (case inputSchema of
        None \<Rightarrow> None
      | Some schema \<Rightarrow>
          if schema = [] then None
          else
            (case firstSuffix (baseMatchAt fieldName) schema of
               None \<Rightarrow> None
             | Some primitive \<Rightarrow>
                 if callFollows fieldName ''.optional'' schema then Some (primitive @ '' | undefined'')
                 else if callFollows fieldName ''.nullable'' schema then Some (primitive @ '' | null'')
                 else Some primitive))"

definition getPropertyNameText :: "node \<Rightarrow> string option" where
  "getPropertyNameText n =
     (case n of
        Identifier t name \<Rightarrow> Some t
      | PrivateIdentifier t name \<Rightarrow> Some t
      | StringLiteral t v \<Rightarrow> Some v
      | NumericLiteral t v \<Rightarrow> Some v
      | _ \<Rightarrow> None)"

definition unionText :: "string list \<Rightarrow> string" where
  "unionText types = (case arrayFromSet types of [t] \<Rightarrow> t | unique \<Rightarrow> joinWith '' | '' unique)"

fun inferTypeFromExpression :: "node \<Rightarrow> string option \<Rightarrow> string" where
  "inferTypeFromExpression (ParenthesizedExpression t e) inputSchema = inferTypeFromExpression e inputSchema"
| "inferTypeFromExpression (AsExpression t e) inputSchema = inferTypeFromExpression e inputSchema"
| "inferTypeFromExpression (SatisfiesExpression t e) inputSchema = inferTypeFromExpression e inputSchema"
| "inferTypeFromExpression (NonNullExpression t e) inputSchema = inferTypeFromExpression e inputSchema"
| "inferTypeFromExpression (PropertyAccessExpression t e field) inputSchema =
     (if identifierName e = Some ''input'' then
        (case guessInputFieldTypeFromSchema inputSchema (nameText field) of
           Some guessed \<Rightarrow> if guessed \<noteq> [] then guessed else ''unknown''
         | None \<Rightarrow> ''unknown'')
      else ''unknown'')"
| "inferTypeFromExpression (StringLiteral t v) inputSchema = ''string''"
| "inferTypeFromExpression (NoSubstitutionTemplateLiteral t) inputSchema = ''string''"
| "inferTypeFromExpression (TemplateExpression t es) inputSchema = ''string''"
| "inferTypeFromExpression (NumericLiteral t v) inputSchema = ''number''"
| "inferTypeFromExpression TrueKeyword inputSchema = ''boolean''"
| "inferTypeFromExpression FalseKeyword inputSchema = ''boolean''"
| "inferTypeFromExpression NullKeyword inputSchema = ''null''"
| "inferTypeFromExpression (Identifier t name) inputSchema =
     (if t = ''undefined'' then ''undefined'' else ''unknown'')"
| "inferTypeFromExpression (NewExpression t f args) inputSchema =
     (if identifierName f = Some ''Date'' then ''Date'' else ''unknown'')"
| "inferTypeFromExpression (ArrayLiteralExpression t elements) inputSchema =
     (if elements = [] then ''unknown[]''
      else
        (let itemTypes =
               filter (\<lambda>itemType. itemType \<noteq> [])
                 (concat (map (\<lambda>element.
                    (case element of
                       SpreadElement q e \<Rightarrow> []
                     | _ \<Rightarrow> [inferTypeFromExpression element inputSchema])) elements))
         in if itemTypes = [] then ''unknown[]'' else unionText itemTypes @ ''[]''))"
| "inferTypeFromExpression (ObjectLiteralExpression t properties) inputSchema =
     (if properties = [] then ''{ }''
      else
        (let fields =
               concat (map (\<lambda>prop.
                 (case prop of
                    PropertyAssignment q l propName initializer \<Rightarrow>
                      (case getPropertyNameText propName of
                         None \<Rightarrow> []
                       | Some k \<Rightarrow>
                           if k = [] then []
                           else [k @ '': '' @ inferTypeFromExpression initializer inputSchema @ '';''])
                  | ShorthandPropertyAssignment q n \<Rightarrow> [n @ '': unknown;'']
                  | MethodDeclaration q propName b \<Rightarrow>
                      (case getPropertyNameText propName of
                         None \<Rightarrow> []
                       | Some k \<Rightarrow> if k = [] then [] else [k @ '': (...args: unknown[]) => unknown;''])
                  | _ \<Rightarrow> [])) properties);
             hasSpread = list_ex (\<lambda>prop. case prop of SpreadAssignment q e \<Rightarrow> True | _ \<Rightarrow> False) properties;
             allFields = (if hasSpread then fields @ [''[key: string]: unknown;''] else fields)
         in if allFields = [] then ''{ [key: string]: unknown; }''
            else ''{ '' @ joinWith '' '' allFields @ '' }''))"
| "inferTypeFromExpression (ConditionalExpression t c whenTrue whenFalse) inputSchema =
     (if inferTypeFromExpression whenTrue inputSchema = inferTypeFromExpression whenFalse inputSchema
      then inferTypeFromExpression whenTrue inputSchema
      else inferTypeFromExpression whenTrue inputSchema @ '' | ''
             @ inferTypeFromExpression whenFalse inputSchema)"
| "inferTypeFromExpression other inputSchema = ''unknown''"

section \<open>Procedure analyzer: the analysis of a call chain\<close>

text \<open>
  The two functions that ask the type checker take the node itself where the code takes its
  offsets in the source file.
\<close>

definition inferTypeFromTypeChecker ::
  "fileSystem \<Rightarrow> compiler \<Rightarrow> node \<Rightarrow> path \<Rightarrow> session \<Rightarrow> string option \<times> session" where
  "inferTypeFromTypeChecker fs createTypeCheckerContext expr filePath s =
     (case getTypeCheckerContext fs createTypeCheckerContext filePath s of
        (None, s1) \<Rightarrow> (None, s1)
      | (Some ctx, s1) \<Rightarrow>
          if \<not> hasSourceFile ctx filePath then (None, s1)
          else
            (case sanitizeTypeText (displayStringAt ctx filePath expr) of
               None \<Rightarrow> (None, s1)
             | Some sanitized \<Rightarrow>
                 if sanitized = [] then (None, s1)
                 else
                   (case resolveEnumAliasesInText sanitized ctx s1 of
                      (resolved, s2) \<Rightarrow> (Some resolved, s2))))"

fun inferReturnTypes ::
  "fileSystem \<Rightarrow> compiler \<Rightarrow> path \<Rightarrow> string option \<Rightarrow> node list \<Rightarrow> session
     \<Rightarrow> string list \<times> session" where
  "inferReturnTypes fs createTypeCheckerContext filePath inputSchema [] s = ([], s)"
| "inferReturnTypes fs createTypeCheckerContext filePath inputSchema (expr # exprs) s =
     (case
        (if inferTypeFromExpression expr inputSchema = []
            \<or> isNonInformativeInferredType (inferTypeFromExpression expr inputSchema)
         then inferTypeFromTypeChecker fs createTypeCheckerContext expr filePath s
         else (Some (inferTypeFromExpression expr inputSchema), s))
      of (inferred, s1) \<Rightarrow>
        (case inferReturnTypes fs createTypeCheckerContext filePath inputSchema exprs s1 of
           (inferredTypes, s2) \<Rightarrow>
             ((case inferred of
                 Some t \<Rightarrow> if t \<noteq> [] \<and> \<not> isNonInformativeInferredType t then [t] else []
               | None \<Rightarrow> []) @ inferredTypes,
              s2)))"

definition isResolverFunction :: "node \<Rightarrow> bool" where
  "isResolverFunction n =
     (case n of ArrowFunction t b \<Rightarrow> True | FunctionExpression t b \<Rightarrow> True | _ \<Rightarrow> False)"

definition inferOutputSchemaFromResolver ::
  "fileSystem \<Rightarrow> compiler \<Rightarrow> node \<Rightarrow> path \<Rightarrow> string option \<Rightarrow> session
     \<Rightarrow> string option \<times> session" where
  "inferOutputSchemaFromResolver fs createTypeCheckerContext n filePath inputSchema s =
     (case n of
        CallExpression t callee (resolver # args) \<Rightarrow>
          if \<not> isResolverFunction resolver then (None, s)
          else if collectReturnExpressions resolver = [] then (None, s)
          else
            (case inferReturnTypes fs createTypeCheckerContext filePath inputSchema
                    (collectReturnExpressions resolver) s of
               (inferredTypes, s1) \<Rightarrow>
                 if inferredTypes = [] then (None, s1) else (Some (unionText inferredTypes), s1))
      | _ \<Rightarrow> (None, s))"

definition inferSchemasFromProcedureType ::
  "fileSystem \<Rightarrow> compiler \<Rightarrow> node \<Rightarrow> path \<Rightarrow> session
     \<Rightarrow> (string option \<times> string option) option \<times> session" where
  "inferSchemasFromProcedureType fs createTypeCheckerContext n filePath s =
     (case getTypeCheckerContext fs createTypeCheckerContext filePath s of
        (None, s1) \<Rightarrow> (None, s1)
      | (Some ctx, s1) \<Rightarrow>
          if \<not> hasSourceFile ctx filePath then (None, s1)
          else
            (case typeStringAt ctx filePath n of
               None \<Rightarrow> (None, s1)
             | Some typeText \<Rightarrow>
                 (case extractTopLevelGenericArg typeText of
                    None \<Rightarrow> (None, s1)
                  | Some genericArg \<Rightarrow>
                      if genericArg = [] then (None, s1)
                      else
                        (let inputSchema =
                               sanitizeTypeText (extractTopLevelObjectFieldType genericArg ''input'');
                             outputSchema =
                               sanitizeTypeText (extractTopLevelObjectFieldType genericArg ''output'')
                         in if \<not> truthy inputSchema \<and> \<not> truthy outputSchema then (None, s1)
                            else
                              (case outputSchema of
                                 None \<Rightarrow> (Some (inputSchema, outputSchema), s1)
                               | Some out \<Rightarrow>
                                   if out = [] then (Some (inputSchema, outputSchema), s1)
                                   else
                                     (case resolveEnumAliasesInText out ctx s1 of
                                        (resolved, s2) \<Rightarrow> (Some (inputSchema, Some resolved), s2)))))))"

fun findMethodInChain :: "node \<Rightarrow> string \<Rightarrow> string option" where
  "findMethodInChain (CallExpression t (PropertyAccessExpression q e n) args) methodName =
     (if getText n = methodName \<and> args \<noteq> [] then Some (getText (hd args))
      else findMethodInChain e methodName)"
| "findMethodInChain other methodName = None"

record ProcedureAnalysisResult =
  par_type :: string
  par_inputSchema :: "string option"
  par_outputSchema :: "string option"

text \<open>
  \<open>schemaResolver\<close> is the type of the callback \<open>resolveSchemaText\<close> that the tree builder
  hands to the analyzer; it reads files and the path-mapping cache, so it takes the session and
  may throw.
\<close>

type_synonym importMap = "string \<Rightarrow> ImportInfo option"

type_synonym schemaResolver =
  "string \<Rightarrow> node \<Rightarrow> importMap \<Rightarrow> path \<Rightarrow> session \<Rightarrow> error + (string \<times> session)"

definition resolveExplicit ::
  "schemaResolver \<Rightarrow> string option \<Rightarrow> node \<Rightarrow> importMap \<Rightarrow> path \<Rightarrow> session
     \<Rightarrow> error + (string option \<times> session)" where
  "resolveExplicit resolveSchemaText schema sourceFile imps filePath s =
     (case schema of
        None \<Rightarrow> Inr (None, s)
      | Some t \<Rightarrow>
          if t = [] then Inr (Some t, s)
          else
            (case resolveSchemaText t sourceFile imps filePath s of
               Inl e \<Rightarrow> Inl e
             | Inr (resolved, s1) \<Rightarrow> Inr (Some resolved, s1)))"

definition informative :: "string option \<Rightarrow> bool" where
  "informative schema =
     (case schema of None \<Rightarrow> False | Some t \<Rightarrow> t \<noteq> [] \<and> \<not> isNonInformativeInferredType t)"

definition isProcedureMethod :: "string \<Rightarrow> bool" where
  "isProcedureMethod m = (m = ''query'' \<or> m = ''mutation'' \<or> m = ''subscription'')"

text \<open>
  \<open>procedureMethod\<close> is the three tests at the head of \<open>analyzeProcedureChain\<close>: the node is a
  call, its callee is a property access, and the source text of the name of the access is one of
  the three method names. It gives the receiver of the access and that text.
\<close>

definition procedureMethod :: "node \<Rightarrow> (node \<times> string) option" where
  "procedureMethod n =
     (case n of
        CallExpression t (PropertyAccessExpression q receiver name) args \<Rightarrow>
          if isProcedureMethod (getText name) then Some (receiver, getText name) else None
      | _ \<Rightarrow> None)"

definition analyzeProcedureChain ::
  "fileSystem \<Rightarrow> compiler \<Rightarrow> node \<Rightarrow> node \<Rightarrow> importMap \<Rightarrow> path \<Rightarrow> schemaResolver \<Rightarrow> session
     \<Rightarrow> error + (ProcedureAnalysisResult option \<times> session)" where
  "analyzeProcedureChain fs createTypeCheckerContext n sourceFile imps filePath resolveSchemaText s =
     (case procedureMethod n of
        None \<Rightarrow> Inr (None, s)
      | Some (receiver, m) \<Rightarrow>
            (let hasExplicitInput = truthy (findMethodInChain receiver ''input'');
                 hasExplicitOutput = truthy (findMethodInChain receiver ''output'')
             in case resolveExplicit resolveSchemaText (findMethodInChain receiver ''input'')
                       sourceFile imps filePath s of
                  Inl e \<Rightarrow> Inl e
                | Inr (inputSchema, s1) \<Rightarrow>
                    (case resolveExplicit resolveSchemaText (findMethodInChain receiver ''output'')
                            sourceFile imps filePath s1 of
                       Inl e \<Rightarrow> Inl e
                     | Inr (explicitOutput, s2) \<Rightarrow>
                         (case (if \<not> truthy explicitOutput
                                then inferOutputSchemaFromResolver fs createTypeCheckerContext n
                                       filePath inputSchema s2
                                else (explicitOutput, s2)) of
                            (outputSchema, s3) \<Rightarrow>
                              (case inferSchemasFromProcedureType fs createTypeCheckerContext n
                                      filePath s3 of
                                 (procedureTypeSchemas, s4) \<Rightarrow>
                                   Inr (Some
                                     \<lparr>par_type = m,
                                      par_inputSchema =
                                        (if \<not> hasExplicitInput
                                            \<and> informative (case procedureTypeSchemas of
                                                             None \<Rightarrow> None | Some p \<Rightarrow> fst p)
                                         then (case procedureTypeSchemas of
                                                 None \<Rightarrow> None | Some p \<Rightarrow> fst p)
                                         else inputSchema),
                                      par_outputSchema =
                                        (if \<not> hasExplicitOutput
                                            \<and> informative (case procedureTypeSchemas of
                                                             None \<Rightarrow> None | Some p \<Rightarrow> snd p)
                                         then (case procedureTypeSchemas of
                                                 None \<Rightarrow> None | Some p \<Rightarrow> snd p)
                                         else outputSchema)\<rparr>,
                                     s4))))))"

section \<open>Schema text resolver\<close>

record IdentifierResolution =
  ir_text :: string
  ir_filePath :: path
  ir_sourceFile :: node
  ir_imports :: importMap

definition resolveIdentifierFull ::
  "fileSystem \<Rightarrow> string \<Rightarrow> node \<Rightarrow> importMap \<Rightarrow> path \<Rightarrow> session
     \<Rightarrow> error + (IdentifierResolution option \<times> session)" where
  "resolveIdentifierFull fs ident sourceFile imps filePath s =
     (if truthy (findVariableInitializer sourceFile ident) then
        Inr (Some \<lparr>ir_text = the (findVariableInitializer sourceFile ident), ir_filePath = filePath,
                   ir_sourceFile = sourceFile, ir_imports = imps\<rparr>, s)
      else
        (case imps ident of
           None \<Rightarrow> Inr (None, s)
         | Some importInfo \<Rightarrow>
             (case resolveImport fs (moduleSpecifier importInfo) filePath s of
                Inl e \<Rightarrow> Inl e
              | Inr (None, s1) \<Rightarrow> Inr (None, s1)
              | Inr (Some resolvedPath, s1) \<Rightarrow>
                  if \<not> existsSync fs resolvedPath then Inr (None, s1)
                  else
                    (case readSourceFile fs resolvedPath of
                       Inl e \<Rightarrow> Inl e
                     | Inr importSf \<Rightarrow>
                         (let targetVar =
                                (if isDefault importInfo then ident else importName importInfo)
                          in if truthy (findVariableInitializer importSf targetVar) then
                               Inr (Some \<lparr>ir_text = the (findVariableInitializer importSf targetVar),
                                          ir_filePath = resolvedPath,
                                          ir_sourceFile = importSf,
                                          ir_imports = getImports importSf\<rparr>, s1)
                             else Inr (None, s1))))))"

text \<open>\<open>identifierSplit\<close> is the match of \<open>/^([A-Za-z_$][\w$]*)([\s\S]*)$/\<close>: the identifier
  and the suffix.\<close>

definition identifierSplit :: "string \<Rightarrow> (string \<times> string) option" where
  "identifierSplit trimmed =
     (case trimmed of
        [] \<Rightarrow> None
      | c # cs \<Rightarrow>
          if isAlpha c \<or> c = CHR ''_'' \<or> c = CHR ''$''
          then Some (c # takeWhile isIdentChar cs, dropWhile isIdentChar cs)
          else None)"

function resolveSchemaText ::
  "fileSystem \<Rightarrow> string \<Rightarrow> node \<Rightarrow> importMap \<Rightarrow> path \<Rightarrow> nat \<Rightarrow> session
     \<Rightarrow> error + (string \<times> session)" where
  "resolveSchemaText fs schemaText sourceFile imps filePath depth s =
     (if 5 < depth then Inr (schemaText, s)
      else if startsWith (trim schemaText) ''z.'' \<or> startsWith (trim schemaText) ''{''
      then Inr (trim schemaText, s)
      else
        (case identifierSplit (trim schemaText) of
           None \<Rightarrow> Inr (trim schemaText, s)
         | Some (ident, suffix) \<Rightarrow>
             (case resolveIdentifierFull fs ident sourceFile imps filePath s of
                Inl e \<Rightarrow> Inl e
              | Inr (None, s1) \<Rightarrow> Inr (trim schemaText, s1)
              | Inr (Some resolved, s1) \<Rightarrow>
                  if startsWith (ir_text resolved @ suffix) ''z.''
                  then Inr (ir_text resolved @ suffix, s1)
                  else resolveSchemaText fs (ir_text resolved @ suffix) (ir_sourceFile resolved)
                         (ir_imports resolved) (ir_filePath resolved) (depth + 1) s1)))"
  by pat_completeness auto
termination
  by (relation "measure (\<lambda>(fs, schemaText, sourceFile, imps, filePath, depth, s). 6 - depth)") auto

text \<open>The callback as the tree builder passes it: \<open>depth\<close> takes its default \<open>0\<close>.\<close>

definition resolveSchemaTextCallback :: "fileSystem \<Rightarrow> schemaResolver" where
  "resolveSchemaTextCallback fs schemaText sourceFile imps filePath s =
     resolveSchemaText fs schemaText sourceFile imps filePath 0 s"

section \<open>Router tree builder\<close>

text \<open>The fields of the records of the source \<open>TrpcNode\<close>, \<open>ProcedureAnalysisResult\<close>,
  \<open>ProcedureResolution\<close> and \<open>IdentifierResolution\<close> carry a prefix, since they share
  their names.\<close>

datatype TrpcNode =
  TrpcNode (tn_name: string) (tn_type: string) (tn_children: "TrpcNode list")
    (tn_filePath: "path option") (tn_line: "nat option") (tn_inputSchema: "string option")
    (tn_outputSchema: "string option")

record ProcedureResolution =
  pr_type :: string
  pr_inputSchema :: "string option"
  pr_outputSchema :: "string option"
  pr_filePath :: path
  pr_line :: nat

definition resolveIdentifierAsProcedure ::
  "fileSystem \<Rightarrow> compiler \<Rightarrow> string \<Rightarrow> path \<Rightarrow> node \<Rightarrow> importMap \<Rightarrow> session
     \<Rightarrow> error + (ProcedureResolution option \<times> session)" where
  "resolveIdentifierAsProcedure fs createTypeCheckerContext varName currentFilePath currentSourceFile
       currentImports s =
     (case
        (case findVariableDeclarationInfo currentSourceFile varName of
           None \<Rightarrow> Inr (None, s)
         | Some (initializer, l) \<Rightarrow>
             (case analyzeProcedureChain fs createTypeCheckerContext initializer currentSourceFile
                     currentImports currentFilePath (resolveSchemaTextCallback fs) s of
                Inl e \<Rightarrow> Inl e
              | Inr (None, s1) \<Rightarrow> Inr (None, s1)
              | Inr (Some localProc, s1) \<Rightarrow>
                  Inr (Some \<lparr>pr_type = par_type localProc,
                             pr_inputSchema = par_inputSchema localProc,
                             pr_outputSchema = par_outputSchema localProc,
                             pr_filePath = currentFilePath, pr_line = l\<rparr>, s1)))
      of
        Inl e \<Rightarrow> Inl e
      | Inr (Some localResult, s1) \<Rightarrow> Inr (Some localResult, s1)
      | Inr (None, s1) \<Rightarrow>
          (case currentImports varName of
             None \<Rightarrow> Inr (None, s1)
           | Some importInfo \<Rightarrow>
               (case resolveImport fs (moduleSpecifier importInfo) currentFilePath s1 of
                  Inl e \<Rightarrow> Inl e
                | Inr (None, s2) \<Rightarrow> Inr (None, s2)
                | Inr (Some resolvedPath, s2) \<Rightarrow>
                    if \<not> existsSync fs resolvedPath then Inr (None, s2)
                    else
                      (case readSourceFile fs resolvedPath of
                         Inl e \<Rightarrow> Inl e
                       | Inr importSf \<Rightarrow>
                           (case findVariableDeclarationInfo importSf
                                   (if isDefault importInfo then varName else importName importInfo) of
                              None \<Rightarrow> Inr (None, s2)
                            | Some (initializer, l) \<Rightarrow>
                                (case analyzeProcedureChain fs createTypeCheckerContext initializer
                                        importSf (getImports importSf) resolvedPath
                                        (resolveSchemaTextCallback fs) s2 of
                                   Inl e \<Rightarrow> Inl e
                                 | Inr (None, s3) \<Rightarrow> Inr (None, s3)
                                 | Inr (Some importedProc, s3) \<Rightarrow>
                                     Inr (Some \<lparr>pr_type = par_type importedProc,
                                                pr_inputSchema = par_inputSchema importedProc,
                                                pr_outputSchema = par_outputSchema importedProc,
                                                pr_filePath = resolvedPath, pr_line = l\<rparr>, s3)))))))"

text \<open>
  \<open>routerObjects\<close> lists, in the order of the visitor of \<open>parseRouterFromFile\<close>, the
  properties of the object literal of every declaration of the variable whose initializer is a
  collection-factory call with an object literal as first argument.
\<close>

definition routerObject :: "string \<Rightarrow> node \<Rightarrow> node list option" where
  "routerObject routerVarName n =
     (case variableInitializer routerVarName n of
        Some (l, CallExpression t callee (ObjectLiteralExpression q properties # args)) \<Rightarrow>
          if isRouterCall (CallExpression t callee (ObjectLiteralExpression q properties # args))
          then Some properties else None
      | _ \<Rightarrow> None)"

definition routerObjects :: "string \<Rightarrow> node \<Rightarrow> node list list" where
  "routerObjects routerVarName sourceFile =
     List.map_filter (routerObject routerVarName) (preorder sourceFile)"

definition visitedKey :: "path \<Rightarrow> string \<Rightarrow> string" where
  "visitedKey filePath routerVarName = pathText filePath @ '':'' @ routerVarName"

definition emptyRouter :: "string \<Rightarrow> path \<Rightarrow> nat \<Rightarrow> TrpcNode" where
  "emptyRouter k filePath l = TrpcNode k ''router'' [] (Some filePath) (Some l) None None"

definition rename :: "string \<Rightarrow> TrpcNode \<Rightarrow> TrpcNode" where
  "rename k child =
     TrpcNode k (tn_type child) (tn_children child) (tn_filePath child) (tn_line child)
       (tn_inputSchema child) (tn_outputSchema child)"

text \<open>
  The tests the loop of \<open>parseRouterObject\<close> makes of a property and of its value:
  \<open>ts.isPropertyAssignment\<close>, \<open>ts.isShorthandPropertyAssignment\<close>, \<open>ts.isIdentifier\<close>, and
  \<open>ts.isCallExpression(value) && isRouterCall(value)\<close>, which gives the properties of the
  first argument when that is an object literal.
\<close>

definition propertyAssignment :: "node \<Rightarrow> (nat \<times> node \<times> node) option" where
  "propertyAssignment prop =
     (case prop of PropertyAssignment t l propName v \<Rightarrow> Some (l, propName, v) | _ \<Rightarrow> None)"

definition shorthandProperty :: "node \<Rightarrow> string option" where
  "shorthandProperty prop = (case prop of ShorthandPropertyAssignment t k \<Rightarrow> Some k | _ \<Rightarrow> None)"

definition identifierText :: "node \<Rightarrow> string option" where
  "identifierText v = (case v of Identifier t name \<Rightarrow> Some t | _ \<Rightarrow> None)"

definition inlineRouterObject :: "node \<Rightarrow> node list option option" where
  "inlineRouterObject v =
     (case v of
        CallExpression t callee args \<Rightarrow>
          if isRouterCall v
          then Some (case args of ObjectLiteralExpression q nested # others \<Rightarrow> Some nested | _ \<Rightarrow> None)
          else None
      | _ \<Rightarrow> None)"

lemma inlineRouterObject_smaller:
  "propertyAssignment prop = Some (l, propName, v) \<Longrightarrow> inlineRouterObject v = Some (Some nested) \<Longrightarrow>
   size_list size nested < size prop"
  by (auto simp: propertyAssignment_def inlineRouterObject_def split: node.splits if_splits list.splits)

text \<open>
  The builder recurses through the files of the project, so the model gives it fuel: the first
  argument bounds the depth of nested calls of \<open>parseRouterFromFile\<close>, and \<open>None\<close> is the
  result of a run that needs more. A result \<open>Some (Inl e)\<close> is an exception thrown, and
  \<open>Some (Inr (r, visited, s))\<close> is the value returned with the visited set and the caches as
  the call leaves them. \<open>parseRouterObject\<close> returns the children it pushes to its parent; it
  walks the properties in order, \<open>parseRouterProperty\<close> being the body of its loop, and
  \<open>parseRouterDeclarations\<close> is the visitor of \<open>parseRouterFromFile\<close> over the declarations
  that \<open>routerObjects\<close> lists.
\<close>

function parseRouterFromFile ::
      "nat \<Rightarrow> fileSystem \<Rightarrow> compiler \<Rightarrow> path \<Rightarrow> string \<Rightarrow> string set \<Rightarrow> session
         \<Rightarrow> (error + (TrpcNode option \<times> string set \<times> session)) option"
  and parseRouterDeclarations ::
      "nat \<Rightarrow> fileSystem \<Rightarrow> compiler \<Rightarrow> node list list \<Rightarrow> path \<Rightarrow> importMap \<Rightarrow> string set \<Rightarrow> node
         \<Rightarrow> session \<Rightarrow> (error + (TrpcNode list \<times> string set \<times> session)) option"
  and parseRouterObject ::
      "nat \<Rightarrow> fileSystem \<Rightarrow> compiler \<Rightarrow> node list \<Rightarrow> path \<Rightarrow> importMap \<Rightarrow> string set \<Rightarrow> node
         \<Rightarrow> session \<Rightarrow> (error + (TrpcNode list \<times> string set \<times> session)) option"
  and parseRouterProperty ::
      "nat \<Rightarrow> fileSystem \<Rightarrow> compiler \<Rightarrow> node \<Rightarrow> path \<Rightarrow> importMap \<Rightarrow> string set \<Rightarrow> node
         \<Rightarrow> session \<Rightarrow> (error + (TrpcNode list \<times> string set \<times> session)) option"
  and resolveIdentifierAsRouter ::
      "nat \<Rightarrow> fileSystem \<Rightarrow> compiler \<Rightarrow> string \<Rightarrow> path \<Rightarrow> importMap \<Rightarrow> string set \<Rightarrow> session
         \<Rightarrow> (error + (TrpcNode option \<times> string set \<times> session)) option"
where
  "parseRouterFromFile fuel fs cc filePath routerVarName visited s =
     (case fuel of
        0 \<Rightarrow> None
      | Suc fuel' \<Rightarrow>
          (let s0 = (if visited = {} then clearProcedureAnalysisCaches s else s) in
           if visitedKey filePath routerVarName \<in> visited then Some (Inr (None, visited, s0))
           else if \<not> existsSync fs filePath then Some (Inr (None, visited, s0))
           else
             (case readSourceFile fs filePath of
                Inl e \<Rightarrow> Some (Inl e)
              | Inr sourceFile \<Rightarrow>
                  (case parseRouterDeclarations fuel' fs cc (routerObjects routerVarName sourceFile)
                          filePath (getImports sourceFile)
                          (insert (visitedKey filePath routerVarName) visited) sourceFile s0 of
                     None \<Rightarrow> None
                   | Some (Inl e) \<Rightarrow> Some (Inl e)
                   | Some (Inr (pushed, visited1, s1)) \<Rightarrow>
                       Some (Inr (Some (TrpcNode routerVarName ''router'' pushed (Some filePath)
                                          None None None),
                                  visited1, s1))))))"
| "parseRouterDeclarations fuel fs cc objects filePath imps visited sourceFile s =
     (case objects of
        [] \<Rightarrow> Some (Inr ([], visited, s))
      | properties # others \<Rightarrow>
          (case parseRouterObject fuel fs cc properties filePath imps visited sourceFile s of
             None \<Rightarrow> None
           | Some (Inl e) \<Rightarrow> Some (Inl e)
           | Some (Inr (pushed, visited1, s1)) \<Rightarrow>
               (case parseRouterDeclarations fuel fs cc others filePath imps visited1 sourceFile s1 of
                  None \<Rightarrow> None
                | Some (Inl e) \<Rightarrow> Some (Inl e)
                | Some (Inr (pushed2, visited2, s2)) \<Rightarrow>
                    Some (Inr (pushed @ pushed2, visited2, s2)))))"
| "parseRouterObject fuel fs cc properties filePath imps visited sourceFile s =
     (case properties of
        [] \<Rightarrow> Some (Inr ([], visited, s))
      | prop # props \<Rightarrow>
          (case parseRouterProperty fuel fs cc prop filePath imps visited sourceFile s of
             None \<Rightarrow> None
           | Some (Inl e) \<Rightarrow> Some (Inl e)
           | Some (Inr (pushed, visited1, s1)) \<Rightarrow>
               (case parseRouterObject fuel fs cc props filePath imps visited1 sourceFile s1 of
                  None \<Rightarrow> None
                | Some (Inl e) \<Rightarrow> Some (Inl e)
                | Some (Inr (pushed2, visited2, s2)) \<Rightarrow>
                    Some (Inr (pushed @ pushed2, visited2, s2)))))"
| "parseRouterProperty fuel fs cc prop filePath imps visited sourceFile s =
     (case propertyAssignment prop of
        Some (l, propName, v) \<Rightarrow>
          (case analyzeProcedureChain fs cc v sourceFile imps filePath (resolveSchemaTextCallback fs) s of
             Inl e \<Rightarrow> Some (Inl e)
           | Inr (Some procInfo, s1) \<Rightarrow>
               Some (Inr ([TrpcNode (getText propName) (par_type procInfo) [] (Some filePath)
                             (Some (l + 1)) (par_inputSchema procInfo) (par_outputSchema procInfo)],
                          visited, s1))
           | Inr (None, s1) \<Rightarrow>
               (case identifierText v of
                  Some ident \<Rightarrow>
                    (case resolveIdentifierAsProcedure fs cc ident filePath sourceFile imps s1 of
                       Inl e \<Rightarrow> Some (Inl e)
                     | Inr (Some proc, s2) \<Rightarrow>
                         Some (Inr ([TrpcNode (getText propName) (pr_type proc) []
                                       (Some (pr_filePath proc)) (Some (pr_line proc))
                                       (pr_inputSchema proc) (pr_outputSchema proc)],
                                    visited, s2))
                     | Inr (None, s2) \<Rightarrow>
                         (case resolveIdentifierAsRouter fuel fs cc ident filePath imps visited s2 of
                            None \<Rightarrow> None
                          | Some (Inl e) \<Rightarrow> Some (Inl e)
                          | Some (Inr (Some child, visited3, s3)) \<Rightarrow>
                              Some (Inr ([rename (getText propName) child], visited3, s3))
                          | Some (Inr (None, visited3, s3)) \<Rightarrow>
                              Some (Inr ([emptyRouter (getText propName) filePath (l + 1)],
                                         visited3, s3))))
                | None \<Rightarrow>
                    (case inlineRouterObject v of
                       Some (Some nested) \<Rightarrow>
                         (case parseRouterObject fuel fs cc nested filePath imps visited sourceFile s1 of
                            None \<Rightarrow> None
                          | Some (Inl e) \<Rightarrow> Some (Inl e)
                          | Some (Inr (pushed, visited2, s2)) \<Rightarrow>
                              Some (Inr ([TrpcNode (getText propName) ''router'' pushed (Some filePath)
                                            (Some (l + 1)) None None],
                                         visited2, s2)))
                     | _ \<Rightarrow>
                         Some (Inr ([emptyRouter (getText propName) filePath (l + 1)], visited, s1)))))
      | None \<Rightarrow>
          (case shorthandProperty prop of
             Some k \<Rightarrow>
               (case resolveIdentifierAsRouter fuel fs cc k filePath imps visited s of
                  None \<Rightarrow> None
                | Some (Inl e) \<Rightarrow> Some (Inl e)
                | Some (Inr (Some child, visited1, s1)) \<Rightarrow> Some (Inr ([rename k child], visited1, s1))
                | Some (Inr (None, visited1, s1)) \<Rightarrow> Some (Inr ([], visited1, s1)))
           | None \<Rightarrow> Some (Inr ([], visited, s))))"
| "resolveIdentifierAsRouter fuel fs cc varName currentFilePath imps visited s =
     (case imps varName of
        Some importInfo \<Rightarrow>
          (case resolveImport fs (moduleSpecifier importInfo) currentFilePath s of
             Inl e \<Rightarrow> Some (Inl e)
           | Inr (Some resolved, s1) \<Rightarrow>
               parseRouterFromFile fuel fs cc resolved
                 (if isDefault importInfo then varName else importName importInfo) visited s1
           | Inr (None, s1) \<Rightarrow> parseRouterFromFile fuel fs cc currentFilePath varName visited s1)
      | None \<Rightarrow> parseRouterFromFile fuel fs cc currentFilePath varName visited s)"
  by pat_completeness auto
termination
  by (relation "inv_image (less_than <*lex*> less_than <*lex*> less_than)
        (\<lambda>x. case x of
           Inl (Inl (fuel, rest)) \<Rightarrow> (fuel, 0::nat, 0::nat)
         | Inl (Inr (fuel, fs, cc, objects, rest)) \<Rightarrow> (fuel, 3, length objects)
         | Inr (Inl (fuel, fs, cc, properties, rest)) \<Rightarrow> (fuel, 2, size_list size properties)
         | Inr (Inr (Inl (fuel, fs, cc, prop, rest))) \<Rightarrow> (fuel, 2, size prop)
         | Inr (Inr (Inr (fuel, rest))) \<Rightarrow> (fuel, 1, 0))")
    (auto simp: inlineRouterObject_smaller)

declare parseRouterFromFile.simps [simp del] parseRouterDeclarations.simps [simp del]
  parseRouterObject.simps [simp del] parseRouterProperty.simps [simp del]
  resolveIdentifierAsRouter.simps [simp del]

section \<open>Reference readings of the specification\<close>

text \<open>
  \<open>spec_longestPrefixMatch\<close> follows the words of the specification, not the code: among the
  entries of a path-mapping table whose literal prefix matches a specifier, it is the one with
  the longest prefix (the earliest of them if several are equally long).
\<close>

fun spec_longestPrefixMatch ::
  "string \<Rightarrow> (string \<times> json) list \<Rightarrow> (string \<times> json) option" where
  "spec_longestPrefixMatch specifier [] = None"
| "spec_longestPrefixMatch specifier ((pattern, mappings) # entries) =
     (case spec_longestPrefixMatch specifier entries of
        None \<Rightarrow>
          (if startsWith specifier (stripTrailingStar pattern) then Some (pattern, mappings) else None)
      | Some (pattern', mappings') \<Rightarrow>
          (if startsWith specifier (stripTrailingStar pattern)
              \<and> length (stripTrailingStar pattern') \<le> length (stripTrailingStar pattern)
           then Some (pattern, mappings) else Some (pattern', mappings')))"

text \<open>
  \<open>candidates specifier entries\<close> are the steps of the two loops of \<open>resolveImport\<close> laid out in
  one list, in the order the code takes them: for every entry whose pattern, less its trailing
  wildcard, starts the specifier, the texts that its substitutions give, less their trailing
  wildcard and with the rest of the specifier appended. A step is \<open>Inl TypeError\<close> where the
  loop throws: at an entry whose value cannot be iterated, and at a substitution that is not a
  string. \<open>firstResolved\<close> runs down the steps: it throws at the first step that throws, and
  returns the first text that resolves to a file.
\<close>

definition candidates :: "string \<Rightarrow> (string \<times> json) list \<Rightarrow> (error + string) list" where
  "candidates specifier entries =
     concat (map (\<lambda>(pattern, mappings).
        if startsWith specifier (stripTrailingStar pattern)
        then
          (case iterate mappings of
             None \<Rightarrow> [Inl TypeError]
           | Some substitutions \<Rightarrow>
               map (\<lambda>v. case v of
                      JString m \<Rightarrow>
                        Inr (stripTrailingStar m
                             @ drop (length (stripTrailingStar pattern)) specifier)
                    | _ \<Rightarrow> Inl TypeError) substitutions)
        else []) entries)"

fun firstResolved :: "fileSystem \<Rightarrow> path \<Rightarrow> (error + string) list \<Rightarrow> error + path option" where
  "firstResolved fs base [] = Inr None"
| "firstResolved fs base (Inl e # steps) = Inl e"
| "firstResolved fs base (Inr m # steps) =
     (case resolveFile fs (path_resolve base m) of
        Some resolved \<Rightarrow> Inr (Some resolved)
      | None \<Rightarrow> firstResolved fs base steps)"

text \<open>
  \<open>aliasStep\<close> is one link of a schema identifier chain that does not reach a literal base
  case: the text is not a literal, its leading identifier resolves to an initializer, and the
  initializer with the suffix spliced on does not start with \<open>z.\<close>. The states are the
  arguments of \<open>resolveSchemaText\<close> before and after the link.
\<close>

type_synonym resolverState = "string \<times> node \<times> importMap \<times> path \<times> session"

definition aliasStep :: "fileSystem \<Rightarrow> resolverState \<Rightarrow> resolverState \<Rightarrow> bool" where
  "aliasStep fs c c' =
     (case c of (schemaText, sourceFile, imps, filePath, s) \<Rightarrow>
        \<not> startsWith (trim schemaText) ''z.'' \<and> \<not> startsWith (trim schemaText) ''{'' \<and>
        (\<exists>idName suffix resolved s1.
           identifierSplit (trim schemaText) = Some (idName, suffix) \<and>
           resolveIdentifierFull fs idName sourceFile imps filePath s = Inr (Some resolved, s1) \<and>
           \<not> startsWith (ir_text resolved @ suffix) ''z.'' \<and>
           c' = (ir_text resolved @ suffix, ir_sourceFile resolved, ir_imports resolved,
                 ir_filePath resolved, s1)))"

text \<open>
  \<open>unresolvedLink\<close> is the end of a chain at an identifier with no definition: the text is
  not a literal, and either it does not start with an identifier or its identifier resolves to
  nothing. The session is the one after the attempt.
\<close>

definition unresolvedLink :: "fileSystem \<Rightarrow> resolverState \<Rightarrow> session \<Rightarrow> bool" where
  "unresolvedLink fs c s' =
     (case c of (schemaText, sourceFile, imps, filePath, s) \<Rightarrow>
        \<not> startsWith (trim schemaText) ''z.'' \<and> \<not> startsWith (trim schemaText) ''{'' \<and>
        (case identifierSplit (trim schemaText) of
           None \<Rightarrow> s' = s
         | Some (idName, suffix) \<Rightarrow>
             resolveIdentifierFull fs idName sourceFile imps filePath s = Inr (None, s')))"




section \<open>Measures and invariants of the router tree builder\<close>

text \<open>
  The names the builder can be asked to expand in a project: the identifiers and shorthand
  properties of its files and the names its import clauses give, with the names \<open>extra\<close> the
  build starts from. \<open>projectKeys\<close> are the keys of the visited set they can make for the files
  of the project.
\<close>

definition nodeNames :: "node \<Rightarrow> string set" where
  "nodeNames n =
     {t. \<exists>name. Identifier t name \<in> set (preorder n)}
       \<union> {k. \<exists>t. ShorthandPropertyAssignment t k \<in> set (preorder n)}"

definition fileNames :: "fsEntry option \<Rightarrow> string set" where
  "fileNames e =
     (case e of
        Some (File t stmts js) \<Rightarrow>
          nodeNames (SourceFile t stmts) \<union> importName ` ran (getImports (SourceFile t stmts))
      | _ \<Rightarrow> {})"

definition projectNames :: "fileSystem \<Rightarrow> string set \<Rightarrow> string set" where
  "projectNames fs extra = extra \<union> (\<Union>p \<in> dom fs. fileNames (fs p))"

definition projectKeys :: "fileSystem \<Rightarrow> string set \<Rightarrow> string set" where
  "projectKeys fs extra =
     (\<lambda>(p, v). visitedKey p v) ` ({p. isFile fs p} \<times> projectNames fs extra)"

text \<open>
  \<open>settled visited result\<close>: the run had fuel enough, and it either threw a \<open>TypeError\<close> or
  returned with a visited set that holds \<open>visited\<close>.
\<close>

definition settled ::
  "string set \<Rightarrow> (error + ('a \<times> string set \<times> session)) option \<Rightarrow> bool" where
  "settled visited result =
     (case result of
        None \<Rightarrow> False
      | Some (Inl e) \<Rightarrow> e = TypeError
      | Some (Inr (r, visited', s')) \<Rightarrow> visited \<subseteq> visited')"


text \<open>
  A path-mapping table is well formed when every one of its values iterates to strings, which
  is what the cast \<open>mappings as string[]\<close> of \<open>resolveImport\<close> takes for granted. A project is
  well formed when every table that \<open>getTsConfigPaths\<close> can read from it is, and the
  path-mapping cache when every table it holds is. \<open>samePaths s s'\<close>: the path-mapping cache
  is the same in \<open>s\<close> and \<open>s'\<close>.
\<close>

definition isJString :: "json \<Rightarrow> bool" where
  "isJString v = (case v of JString t \<Rightarrow> True | _ \<Rightarrow> False)"

definition wellFormedEntry :: "string \<times> json \<Rightarrow> bool" where
  "wellFormedEntry entry =
     (case iterate (snd entry) of None \<Rightarrow> False | Some substitutions \<Rightarrow> list_all isJString substitutions)"

definition wellFormedPaths :: "TsConfigPaths \<Rightarrow> bool" where
  "wellFormedPaths tsConfigPaths = list_all wellFormedEntry (ownEntries (paths tsConfigPaths))"

definition wellFormedProject :: "fileSystem \<Rightarrow> bool" where
  "wellFormedProject fs =
     (\<forall>tsConfigPath dir tsConfigPaths.
        readTsConfigPaths fs tsConfigPath dir = Some tsConfigPaths \<longrightarrow> wellFormedPaths tsConfigPaths)"

definition wellFormedCache :: "session \<Rightarrow> bool" where
  "wellFormedCache s =
     (\<forall>dir tsConfigPaths.
        tsConfigPathsCache s dir = Some (Some tsConfigPaths) \<longrightarrow> wellFormedPaths tsConfigPaths)"

definition samePaths :: "session \<Rightarrow> session \<Rightarrow> bool" where
  "samePaths s s' = (tsConfigPathsCache s' = tsConfigPathsCache s)"

section \<open>Example inputs\<close>

text \<open>
  The examples give a file the views that the code reads of it: a configuration file its parsed
  value, a source file its text and its tree. The text of a configuration file is left out, and
  a file that is only tested for existence is empty.
\<close>

definition emptySession :: session where
  "emptySession =
     \<lparr>tsConfigPathsCache = Map.empty, enumResolutionCache = Map.empty,
      nearestTsConfigPathCache = Map.empty, typeCheckerContextCache = Map.empty\<rparr>"

text \<open>\<open>pathsConfig members\<close> is what \<open>JSON.parse\<close> returns for a configuration file that reads
  \<open>{ "compilerOptions": { "paths": { ... } } }\<close> with the given members of \<open>paths\<close>.\<close>

definition pathsConfig :: "(string \<times> json) list \<Rightarrow> json" where
  "pathsConfig members = JObject [(''compilerOptions'', JObject [(''paths'', JObject members)])]"

text \<open>A project whose configuration maps \<open>@app/*\<close> to \<open>./src/*\<close>, with a file \<open>src/db\<close> next
  to \<open>src/db.ts\<close>.\<close>

definition fsDbFile :: fileSystem where
  "fsDbFile =
     [[''root'', ''tsconfig.json''] \<mapsto>
        File [] [] (Some (pathsConfig [(''@app/*'', JArray [JString ''./src/*''])])),
      [''root'', ''src'', ''db''] \<mapsto> File [] [] None,
      [''root'', ''src'', ''db.ts''] \<mapsto> File [] [] None]"

text \<open>The same project with a directory \<open>src/db\<close> that holds \<open>index.ts\<close>.\<close>

definition fsDbIndex :: fileSystem where
  "fsDbIndex =
     [[''root'', ''tsconfig.json''] \<mapsto>
        File [] [] (Some (pathsConfig [(''@app/*'', JArray [JString ''./src/*''])])),
      [''root'', ''src'', ''db''] \<mapsto> Directory,
      [''root'', ''src'', ''db'', ''index.ts''] \<mapsto> File [] [] None]"

text \<open>A project with two overlapping patterns, \<open>@/*\<close> declared before \<open>@/lib/*\<close>.\<close>

definition fsOverlap :: fileSystem where
  "fsOverlap =
     [[''root'', ''tsconfig.json''] \<mapsto>
        File [] []
          (Some (pathsConfig [(''@/*'', JArray [JString ''./a/*'']),
                              (''@/lib/*'', JArray [JString ''./b/*''])])),
      [''root'', ''a'', ''lib'', ''x.ts''] \<mapsto> File [] [] None,
      [''root'', ''b'', ''x.ts''] \<mapsto> File [] [] None]"

text \<open>A project whose table declares the pattern \<open>10\<close> before the pattern \<open>1\<close>; both start
  the specifier \<open>10\<close>.\<close>

definition fsNumeric :: fileSystem where
  "fsNumeric =
     [[''root'', ''tsconfig.json''] \<mapsto>
        File [] []
          (Some (pathsConfig [(''10'', JArray [JString ''./ten'']),
                              (''1'', JArray [JString ''./one/*''])])),
      [''root'', ''ten.ts''] \<mapsto> File [] [] None,
      [''root'', ''one'', ''0.ts''] \<mapsto> File [] [] None]"

text \<open>\<open>ident name\<close> is an identifier written without escapes: its source text is its name.\<close>

definition ident :: "string \<Rightarrow> node" where
  "ident name = Identifier name name"

text \<open>\<open>quoted t\<close> is \<open>t\<close> between double quotes, and \<open>sourceFileOf\<close> the tree of the file
  that has the given statements, one on each line.\<close>

definition quoted :: "string \<Rightarrow> string" where
  "quoted t = [CHR 0x22] @ t @ [CHR 0x22]"

definition sourceFileOf :: "node list \<Rightarrow> node" where
  "sourceFileOf stmts = SourceFile (joinWith [CHR 0x0A] (map getText stmts)) stmts"

definition importNamed :: "string \<Rightarrow> string \<Rightarrow> node" where
  "importNamed name specifier =
     ImportDeclaration (''import { '' @ name @ '' } from '' @ quoted specifier @ '';'') specifier
       (Some (ImportClause None (Some (NamedImports [ImportSpecifier None name]))))"

text \<open>A file that declares a router and exports \<open>type AppRouter = typeof appRouter\<close>, and
  a file that exports another alias, \<open>type Foo = typeof foo\<close>.\<close>

definition appRouterStatements :: "node list" where
  "appRouterStatements =
     [VariableStatement ''const appRouter = router({});''
        [VariableDeclaration ''appRouter = router({})'' 0 ''appRouter''
           (Some (CallExpression ''router({})'' (ident ''router'') [ObjectLiteralExpression ''{}'' []]))],
      TypeAliasDeclaration ''export type AppRouter = typeof appRouter;'' True ''AppRouter''
        (TypeQuery ''typeof appRouter'' ''appRouter'')]"

definition fsAppRouter :: fileSystem where
  "fsAppRouter =
     [[''root'', ''app.ts''] \<mapsto>
        File ''const appRouter = router({}); export type AppRouter = typeof appRouter;''
          appRouterStatements None]"

definition fooAliasStatements :: "node list" where
  "fooAliasStatements =
     [TypeAliasDeclaration ''export type Foo = typeof foo;'' True ''Foo'' (TypeQuery ''typeof foo'' ''foo'')]"

definition fsFooAlias :: fileSystem where
  "fsFooAlias = [[''root'', ''app.ts''] \<mapsto> File ''export type Foo = typeof foo;'' fooAliasStatements None]"

text \<open>A compiler that builds no program.\<close>

definition ccNone :: compiler where
  "ccNone = (\<lambda>tsConfigPath target. None)"

text \<open>
  A project for the analyzer: a configuration file at the root and a compiler whose checker
  prints one procedure type for every call, with no enum and no display type. The file
  \<open>app.ts\<close> is \<open>export const list = publicProcedure.query(() => [1, foo]);\<close>.
\<close>

definition listProcedure :: node where
  "listProcedure =
     CallExpression ''publicProcedure.query(() => [1, foo])''
       (PropertyAccessExpression ''publicProcedure.query'' (ident ''publicProcedure'') (ident ''query''))
       [ArrowFunction ''() => [1, foo]''
          (ArrayLiteralExpression ''[1, foo]'' [NumericLiteral ''1'' ''1'', ident ''foo''])]"

definition listFile :: node where
  "listFile =
     SourceFile ''export const list = publicProcedure.query(() => [1, foo]);''
       [VariableStatement ''export const list = publicProcedure.query(() => [1, foo]);''
          [VariableDeclaration ''list = publicProcedure.query(() => [1, foo])'' 0 ''list''
             (Some listProcedure)]]"

definition fsProcedure :: fileSystem where
  "fsProcedure =
     [[''root'', ''tsconfig.json''] \<mapsto> File ''{}'' [] (Some (JObject [])),
      [''root'', ''app.ts''] \<mapsto> File (getText listFile) (statements listFile) None]"

definition procedureTypeText :: string where
  "procedureTypeText = ''QueryProcedure<{ input: void; output: (string | number)[]; meta: object; }>''"

definition ccProcedure :: compiler where
  "ccProcedure = (\<lambda>tsConfigPath target.
     Some \<lparr>hasSourceFile = (\<lambda>p. True),
           typeStringAt = (\<lambda>p n. Some procedureTypeText),
           displayStringAt = (\<lambda>p n. None),
           resolveEnumType = (\<lambda>n. None)\<rparr>)"

text \<open>
  A project whose configuration gives the pattern \<open>@app/*\<close> the number \<open>5\<close> where its
  substitutions should be: \<open>{ "compilerOptions": { "paths": { "@app/*": 5 } } }\<close>. The file
  \<open>app.ts\<close> imports \<open>userSchema\<close> from \<open>@app/schemas\<close> and declares the alias
  \<open>schemaAlias = userSchema\<close>, the procedure
  \<open>create = publicProcedure.input(userSchema).query(() => 1)\<close> and the router
  \<open>appRouter = router({ user: userRouter })\<close>, with \<open>userRouter\<close> imported from
  \<open>@app/user\<close>.
\<close>

definition inputProcedure :: node where
  "inputProcedure =
     CallExpression ''publicProcedure.input(userSchema).query(() => 1)''
       (PropertyAccessExpression ''publicProcedure.input(userSchema).query''
          (CallExpression ''publicProcedure.input(userSchema)''
             (PropertyAccessExpression ''publicProcedure.input'' (ident ''publicProcedure'')
                (ident ''input''))
             [ident ''userSchema''])
          (ident ''query''))
       [ArrowFunction ''() => 1'' (NumericLiteral ''1'' ''1'')]"

definition malformedFile :: node where
  "malformedFile =
     sourceFileOf
       [importNamed ''userSchema'' ''@app/schemas'',
        importNamed ''userRouter'' ''@app/user'',
        VariableStatement ''const schemaAlias = userSchema;''
          [VariableDeclaration ''schemaAlias = userSchema'' 2 ''schemaAlias''
             (Some (ident ''userSchema''))],
        VariableStatement ''const create = publicProcedure.input(userSchema).query(() => 1);''
          [VariableDeclaration ''create = publicProcedure.input(userSchema).query(() => 1)'' 3
             ''create'' (Some inputProcedure)],
        VariableStatement ''const appRouter = router({ user: userRouter });''
          [VariableDeclaration ''appRouter = router({ user: userRouter })'' 4 ''appRouter''
             (Some (CallExpression ''router({ user: userRouter })'' (ident ''router'')
                [ObjectLiteralExpression ''{ user: userRouter }''
                   [PropertyAssignment ''user: userRouter'' 4 (ident ''user'')
                      (ident ''userRouter'')]]))]]"

definition fsMalformed :: fileSystem where
  "fsMalformed =
     [[''root'', ''tsconfig.json''] \<mapsto>
        File [] [] (Some (pathsConfig [(''@app/*'', JNumber ''5'')])),
      [''root'', ''app.ts''] \<mapsto> File (getText malformedFile) (statements malformedFile) None]"

text \<open>A file with a chain of eight aliases, \<open>a0 = a1\<close> to \<open>a6 = a7\<close> and
  \<open>a7 = z.string()\<close>.\<close>

definition constStatement :: "nat \<Rightarrow> string \<Rightarrow> node \<Rightarrow> node" where
  "constStatement l name initializer =
     VariableStatement (''const '' @ name @ '' = '' @ getText initializer @ '';'')
       [VariableDeclaration (name @ '' = '' @ getText initializer) l name (Some initializer)]"

definition aliasChainFile :: node where
  "aliasChainFile =
     SourceFile []
       [constStatement 0 ''a0'' (ident ''a1''),
        constStatement 1 ''a1'' (ident ''a2''),
        constStatement 2 ''a2'' (ident ''a3''),
        constStatement 3 ''a3'' (ident ''a4''),
        constStatement 4 ''a4'' (ident ''a5''),
        constStatement 5 ''a5'' (ident ''a6''),
        constStatement 6 ''a6'' (ident ''a7''),
        constStatement 7 ''a7''
          (CallExpression ''z.string()''
             (PropertyAccessExpression ''z.string'' (ident ''z'') (ident ''string'')) [])]"

text \<open>A file with the two aliases \<open>a0 = a1\<close> and \<open>a1 = a2\<close>, and no \<open>a2\<close>.\<close>

definition shortChainFile :: node where
  "shortChainFile =
     SourceFile []
       [constStatement 0 ''a0'' (ident ''a1''),
        constStatement 1 ''a1'' (ident ''a2'')]"









section \<open>Properties of the module resolver\<close>

lemma isFile_existsSync: "isFile fs p \<Longrightarrow> existsSync fs p"
  by (auto simp: isFile_def existsSync_def split: option.splits)

lemma resolveFile_cases:
  "resolveFile fs base =
     (if isFile fs base then Some base
      else if isFile fs (withExtension base ''.ts'') then Some (withExtension base ''.ts'')
      else if isFile fs (withExtension base ''.tsx'') then Some (withExtension base ''.tsx'')
      else if isFile fs (path_join base ''index.ts'') then Some (path_join base ''index.ts'')
      else if isFile fs (path_join base ''index.tsx'') then Some (path_join base ''index.tsx'')
      else None)"
  by (auto simp: resolveFile_def isFile_existsSync)

lemma path_resolve_src_db: "path_resolve root ''./src/db'' = root @ [''src'', ''db'']"
  by (simp add: path_resolve_def startsWith_def)

lemma firstResolved_append:
  "firstResolved fs base (steps @ others) =
     (case firstResolved fs base steps of
        Inl e \<Rightarrow> Inl e
      | Inr (Some resolved) \<Rightarrow> Inr (Some resolved)
      | Inr None \<Rightarrow> firstResolved fs base others)"
  by (induction fs base steps rule: firstResolved.induct) (auto split: option.splits)

lemma tryMappings_firstResolved:
  "tryMappings fs base rest substitutions =
     firstResolved fs base
       (map (\<lambda>v. case v of JString m \<Rightarrow> Inr (stripTrailingStar m @ rest) | _ \<Rightarrow> Inl TypeError) substitutions)"
  by (induction substitutions) (auto split: json.splits option.splits)

lemma tryPatterns_firstResolved:
  "tryPatterns fs base specifier entries = firstResolved fs base (candidates specifier entries)"
proof (induction entries)
  case Nil
  show ?case by (simp add: candidates_def)
next
  case (Cons entry entries)
  obtain pattern mappings where entry: "entry = (pattern, mappings)" by (cases entry)
  have unfold: "candidates specifier ((pattern, mappings) # entries) =
      (if startsWith specifier (stripTrailingStar pattern)
        then
          (case iterate mappings of
             None \<Rightarrow> [Inl TypeError]
           | Some substitutions \<Rightarrow>
               map (\<lambda>v. case v of
                      JString m \<Rightarrow>
                        Inr (stripTrailingStar m
                             @ drop (length (stripTrailingStar pattern)) specifier)
                    | _ \<Rightarrow> Inl TypeError) substitutions)
        else []) @ candidates specifier entries"
    by (simp add: candidates_def)
  show ?case
    using Cons
    by (auto simp: entry unfold firstResolved_append tryMappings_firstResolved
        split: option.splits sum.splits)
qed

text \<open>
  C4, as the code has it. For a non-relative specifier and the active path-mapping table, the
  patterns are taken in the order in which \<open>Object.entries\<close> enumerates the table: the patterns
  that are array indices first, in ascending numeric order, then the others in declared order.
  A pattern matches when the specifier starts with the pattern less its trailing wildcard; the
  rest of the specifier is appended to each substitution of a matching pattern, less its
  trailing wildcard, in declared order; and the first of these paths, over all matching
  patterns, that resolves to an existing file is the result. No pattern is preferred for the
  length of its prefix.
\<close>

theorem resolveImport_entries_order:
  "\<not> startsWith specifier ''.'' \<Longrightarrow>
   fst (getTsConfigPaths fs fromFilePath s) = Some tsConfigPaths \<Longrightarrow>
   resolveImport fs specifier fromFilePath s =
     (case firstResolved fs (baseUrl tsConfigPaths)
             (candidates specifier (ownEntries (paths tsConfigPaths))) of
        Inl e \<Rightarrow> Inl e
      | Inr resolved \<Rightarrow> Inr (resolved, snd (getTsConfigPaths fs fromFilePath s)))"
  by (cases "getTsConfigPaths fs fromFilePath s")
    (auto simp: resolveImport_def tryPatterns_firstResolved split: sum.splits)

theorem resolveImport_entries_order_witness:
  "ownEntries (JObject [(''10'', JArray [JString ''./ten'']), (''1'', JArray [JString ''./one/*''])])
     = [(''1'', JArray [JString ''./one/*'']), (''10'', JArray [JString ''./ten''])] \<and>
   fst (getTsConfigPaths fsNumeric [''root'', ''app.ts''] emptySession)
     = Some \<lparr>paths = JObject [(''10'', JArray [JString ''./ten'']),
                               (''1'', JArray [JString ''./one/*''])],
             baseUrl = [''root'']\<rparr> \<and>
   (case resolveImport fsNumeric ''10'' [''root'', ''app.ts''] emptySession of
      Inr (resolved, s') \<Rightarrow> resolved = Some [''root'', ''one'', ''0.ts'']
    | Inl e \<Rightarrow> False)"
proof -
  have rel: "\<not> startsWith ''10'' ''.''"
    by (simp add: startsWith_def)
  have entries: "ownEntries (JObject [(''10'', JArray [JString ''./ten'']),
                                      (''1'', JArray [JString ''./one/*''])])
     = [(''1'', JArray [JString ''./one/*'']), (''10'', JArray [JString ''./ten''])]"
    by code_simp
  have cfg: "fst (getTsConfigPaths fsNumeric [''root'', ''app.ts''] emptySession)
      = Some \<lparr>paths = JObject [(''10'', JArray [JString ''./ten'']),
                                (''1'', JArray [JString ''./one/*''])],
              baseUrl = [''root'']\<rparr>"
    by code_simp
  have first: "firstResolved fsNumeric [''root'']
      (candidates ''10'' [(''1'', JArray [JString ''./one/*'']), (''10'', JArray [JString ''./ten''])])
      = Inr (Some [''root'', ''one'', ''0.ts''])"
    by code_simp
  show ?thesis
    using resolveImport_entries_order [OF rel cfg] entries cfg first
    by simp
qed

text \<open>
  C4 as stated fails: for \<open>@/lib/x\<close> the pattern with the longest matching prefix is
  \<open>@/lib/*\<close>, whose substitution resolves to \<open>/root/b/x.ts\<close>, but the code returns
  \<open>/root/a/lib/x.ts\<close>, found through the pattern \<open>@/*\<close> that is declared first.
\<close>

theorem resolveImport_longest_prefix_counterexample:
  "spec_longestPrefixMatch ''@/lib/x''
       [(''@/*'', JArray [JString ''./a/*'']), (''@/lib/*'', JArray [JString ''./b/*''])]
     = Some (''@/lib/*'', JArray [JString ''./b/*'']) \<and>
   tryMappings fsOverlap [''root''] (drop (length (stripTrailingStar ''@/lib/*'')) ''@/lib/x'')
       [JString ''./b/*'']
     = Inr (Some [''root'', ''b'', ''x.ts'']) \<and>
   (case resolveImport fsOverlap ''@/lib/x'' [''root'', ''app.ts''] emptySession of
      Inr (resolved, s') \<Rightarrow> resolved = Some [''root'', ''a'', ''lib'', ''x.ts'']
    | Inl e \<Rightarrow> False)"
  by code_simp

text \<open>
  C5, as the code has it. A resolved base is accepted as the first of five candidates that is
  a file: the base itself, the base with \<open>.ts\<close>, the base with \<open>.tsx\<close>, \<open>index.ts\<close> inside
  the base and \<open>index.tsx\<close> inside the base. With the mapping \<open>@app/*\<close> to \<open>./src/*\<close> active
  and base directory \<open>root\<close>, importing \<open>@app/db\<close> resolves to \<open>root/src/db.ts\<close> when that
  is a file and \<open>root/src/db\<close> is not, and to \<open>root/src/db/index.ts\<close> when that is a file and
  none of \<open>root/src/db\<close>, \<open>root/src/db.ts\<close> and \<open>root/src/db.tsx\<close> is.
\<close>

theorem resolveFile_candidate_order:
  "resolveFile fs base =
     (if isFile fs base then Some base
      else if isFile fs (withExtension base ''.ts'') then Some (withExtension base ''.ts'')
      else if isFile fs (withExtension base ''.tsx'') then Some (withExtension base ''.tsx'')
      else if isFile fs (path_join base ''index.ts'') then Some (path_join base ''index.ts'')
      else if isFile fs (path_join base ''index.tsx'') then Some (path_join base ''index.tsx'')
      else None)
   \<and> (fst (getTsConfigPaths fs fromFilePath s)
         = Some \<lparr>paths = JObject [(''@app/*'', JArray [JString ''./src/*''])], baseUrl = root\<rparr> \<longrightarrow>
       (\<not> isFile fs (root @ [''src'', ''db'']) \<and> isFile fs (root @ [''src'', ''db.ts'']) \<longrightarrow>
          resolveImport fs ''@app/db'' fromFilePath s
            = Inr (Some (root @ [''src'', ''db.ts'']), snd (getTsConfigPaths fs fromFilePath s))) \<and>
       (\<not> isFile fs (root @ [''src'', ''db'']) \<and> \<not> isFile fs (root @ [''src'', ''db.ts''])
          \<and> \<not> isFile fs (root @ [''src'', ''db.tsx''])
          \<and> isFile fs (root @ [''src'', ''db'', ''index.ts'']) \<longrightarrow>
          resolveImport fs ''@app/db'' fromFilePath s
            = Inr (Some (root @ [''src'', ''db'', ''index.ts'']),
                   snd (getTsConfigPaths fs fromFilePath s))))"
proof -
  have entries: "ownEntries (JObject [(''@app/*'', JArray [JString ''./src/*''])])
      = [(''@app/*'', JArray [JString ''./src/*''])]"
    by code_simp
  have imp: "resolveImport fs ''@app/db'' fromFilePath s
      = Inr (resolveFile fs (root @ [''src'', ''db'']), snd (getTsConfigPaths fs fromFilePath s))"
    if "fst (getTsConfigPaths fs fromFilePath s)
         = Some \<lparr>paths = JObject [(''@app/*'', JArray [JString ''./src/*''])], baseUrl = root\<rparr>"
    using that
    by (cases "getTsConfigPaths fs fromFilePath s")
      (auto simp: resolveImport_def entries iterate_def startsWith_def stripTrailingStar_def
         path_resolve_src_db split: option.splits)
  have ext: "withExtension (root @ [''src'', ''db'']) e = root @ [''src'', ''db'' @ e]" for e
    by (simp add: withExtension_def butlast_append)
  have idx: "path_join (root @ [''src'', ''db'']) leaf = root @ [''src'', ''db'', leaf]" for leaf
    by (simp add: path_join_def)
  show ?thesis
    using imp ext idx by (simp add: resolveFile_cases)
qed

theorem resolveFile_candidate_order_witness:
  "(case resolveImport fsDbIndex ''@app/db'' [''root'', ''app.ts''] emptySession of
      Inr (resolved, s') \<Rightarrow> resolved = Some [''root'', ''src'', ''db'', ''index.ts'']
    | Inl e \<Rightarrow> False)"
proof -
  have cfg: "fst (getTsConfigPaths fsDbIndex [''root'', ''app.ts''] emptySession)
      = Some \<lparr>paths = JObject [(''@app/*'', JArray [JString ''./src/*''])], baseUrl = [''root'']\<rparr>"
    by code_simp
  have files: "\<not> isFile fsDbIndex ([''root''] @ [''src'', ''db''])"
    "\<not> isFile fsDbIndex ([''root''] @ [''src'', ''db.ts''])"
    "\<not> isFile fsDbIndex ([''root''] @ [''src'', ''db.tsx''])"
    "isFile fsDbIndex ([''root''] @ [''src'', ''db'', ''index.ts''])"
    by (simp_all add: fsDbIndex_def isFile_def)
  show ?thesis
    using resolveFile_candidate_order
      [of fsDbIndex "[''root'']" "[''root'', ''app.ts'']" emptySession "[''root'']"] cfg files
    by simp
qed

text \<open>
  C5 as stated fails: \<open>/root/src/db.ts\<close> is a file, yet \<open>@app/db\<close> does not resolve to it,
  because \<open>/root/src/db\<close> is a file itself and is tried first.
\<close>

theorem resolveImport_db_counterexample:
  "isFile fsDbFile [''root'', ''src'', ''db.ts''] \<and>
   (case resolveImport fsDbFile ''@app/db'' [''root'', ''app.ts''] emptySession of
      Inr (resolved, s') \<Rightarrow> resolved \<noteq> Some [''root'', ''src'', ''db.ts'']
    | Inl e \<Rightarrow> False)"
  by code_simp

section \<open>Properties of the root alias probe\<close>

lemma rootAliasTarget_Some:
  "rootAliasTarget n = Some e \<longleftrightarrow>
     (\<exists>t exported q. n = TypeAliasDeclaration t exported ''AppRouter'' (TypeQuery q e))"
  by (cases n) (auto simp: rootAliasTarget_def split: node.splits)

lemma rootAlias_fold_set:
  "set (foldl (\<lambda>results n. (case rootAliasTarget n of
                     Some exprName \<Rightarrow> setAdd results exprName
                   | None \<Rightarrow> results)) acc ns)
     = set acc \<union> {e. \<exists>n \<in> set ns. rootAliasTarget n = Some e}"
  by (induction ns arbitrary: acc) (auto simp: setAdd_def split: option.splits)

lemma rootAlias_fold_distinct:
  "distinct acc \<Longrightarrow> distinct (foldl (\<lambda>results n. (case rootAliasTarget n of
                     Some exprName \<Rightarrow> setAdd results exprName
                   | None \<Rightarrow> results)) acc ns)"
  by (induction ns arbitrary: acc) (auto simp: setAdd_def split: option.splits)

text \<open>
  C8, as the code has it. The probe returns the empty list for a path that does not exist. For
  a file it returns, without repetition, exactly the names \<open>n\<close> such that the file contains
  (at any depth) a type alias named \<open>AppRouter\<close> whose right-hand side is the type query
  \<open>typeof n\<close>; whether the alias is exported is not looked at.
\<close>

theorem findAppRoutersInFile_names:
  "(\<not> existsSync fs filePath \<longrightarrow> findAppRoutersInFile fs filePath = Inr []) \<and>
   (\<forall>fileText stmts js. fs filePath = Some (File fileText stmts js) \<longrightarrow>
      (\<exists>names. findAppRoutersInFile fs filePath = Inr names \<and> distinct names \<and>
         set names = {n. \<exists>t exported q. TypeAliasDeclaration t exported ''AppRouter'' (TypeQuery q n)
                           \<in> set (preorder (SourceFile fileText stmts))}))"
proof -
  have "{e. \<exists>n \<in> set ns. rootAliasTarget n = Some e}
      = {n. \<exists>t exported q. TypeAliasDeclaration t exported ''AppRouter'' (TypeQuery q n) \<in> set ns}" for ns
    by (auto simp: rootAliasTarget_Some)
  then show ?thesis
    by (auto simp: findAppRoutersInFile_def existsSync_def readSourceFile_def rootAlias_fold_set
        rootAlias_fold_distinct)
qed

theorem findAppRoutersInFile_names_witness:
  "\<exists>names. findAppRoutersInFile fsAppRouter [''root'', ''app.ts''] = Inr names \<and> distinct names \<and>
     set names = {''appRouter''}"
proof -
  have "{n. \<exists>t exported q. TypeAliasDeclaration t exported ''AppRouter'' (TypeQuery q n)
          \<in> set (preorder (SourceFile
                ''const appRouter = router({}); export type AppRouter = typeof appRouter;''
                appRouterStatements))} = {''appRouter''}"
    by (auto simp: preorder.simps appRouterStatements_def ident_def)
  then show ?thesis
    using findAppRoutersInFile_names [of fsAppRouter "[''root'', ''app.ts'']"]
    by (simp add: fsAppRouter_def)
qed

text \<open>
  C8 as stated fails: the file exports the alias \<open>type Foo = typeof foo\<close>, an exported type
  alias whose right-hand side is a type query, and the probe returns the empty list.
\<close>

theorem findAppRoutersInFile_other_alias_counterexample:
  "TypeAliasDeclaration ''export type Foo = typeof foo;'' True ''Foo'' (TypeQuery ''typeof foo'' ''foo'')
     \<in> set (preorder (SourceFile ''export type Foo = typeof foo;'' fooAliasStatements)) \<and>
   fsFooAlias [''root'', ''app.ts'']
     = Some (File ''export type Foo = typeof foo;'' fooAliasStatements None) \<and>
   findAppRoutersInFile fsFooAlias [''root'', ''app.ts''] = Inr []"
  by (simp add: fsFooAlias_def fooAliasStatements_def findAppRoutersInFile_def existsSync_def
      readSourceFile_def preorder.simps rootAliasTarget_def)

section \<open>Properties of the procedure analyzer\<close>

lemma resolveFile_isFile: "resolveFile fs base = Some p \<Longrightarrow> isFile fs p"
  by (auto simp: resolveFile_def split: if_splits)

lemma firstResolved_isFile: "firstResolved fs base steps = Inr (Some p) \<Longrightarrow> isFile fs p"
  by (induction fs base steps rule: firstResolved.induct)
    (auto split: option.splits dest: resolveFile_isFile)

lemma firstResolved_Inl: "firstResolved fs base steps = Inl e \<Longrightarrow> Inl e \<in> set steps"
  by (induction fs base steps rule: firstResolved.induct) (auto split: option.splits)

lemma candidates_Inl: "Inl e \<in> set (candidates specifier entries) \<Longrightarrow> e = TypeError"
  by (auto simp: candidates_def split: if_splits option.splits json.splits)

lemma resolveImport_isFile:
  "resolveImport fs specifier fromFilePath s = Inr (Some p, s') \<Longrightarrow> isFile fs p"
  by (auto simp: resolveImport_def tryPatterns_firstResolved
      split: if_splits prod.splits option.splits sum.splits
      dest: resolveFile_isFile firstResolved_isFile)

lemma resolveImport_Inl: "resolveImport fs specifier fromFilePath s = Inl e \<Longrightarrow> e = TypeError"
  by (auto simp: resolveImport_def tryPatterns_firstResolved
      split: if_splits prod.splits option.splits sum.splits
      dest!: firstResolved_Inl candidates_Inl)

lemma readSourceFile_isFile:
  "isFile fs p \<Longrightarrow> \<exists>t stmts. readSourceFile fs p = Inr (SourceFile t stmts)"
  by (auto simp: isFile_def readSourceFile_def split: option.splits fsEntry.splits)

lemma resolveIdentifierFull_Inl:
  assumes "resolveIdentifierFull fs idName sourceFile imps filePath s = Inl e"
  shows "e = TypeError"
proof (cases "truthy (findVariableInitializer sourceFile idName)")
  case True
  with assms show ?thesis by (simp add: resolveIdentifierFull_def)
next
  case False
  show ?thesis
  proof (cases "imps idName")
    case None
    with False assms show ?thesis by (simp add: resolveIdentifierFull_def)
  next
    case (Some importInfo)
    show ?thesis
    proof (cases "resolveImport fs (moduleSpecifier importInfo) filePath s")
      case (Inl e')
      with False Some assms resolveImport_Inl [OF Inl] show ?thesis
        by (simp add: resolveIdentifierFull_def)
    next
      case (Inr found)
      obtain r s1 where found: "found = (r, s1)" by (cases found)
      show ?thesis
      proof (cases r)
        case None
        with False Some Inr found assms show ?thesis by (simp add: resolveIdentifierFull_def)
      next
        case (Some resolvedPath)
        with Inr found have "isFile fs resolvedPath" by (auto dest: resolveImport_isFile)
        then obtain t stmts where "readSourceFile fs resolvedPath = Inr (SourceFile t stmts)"
          using readSourceFile_isFile by blast
        with False \<open>imps idName = Some importInfo\<close> Inr found Some assms show ?thesis
          by (simp add: resolveIdentifierFull_def Let_def split: if_splits)
      qed
    qed
  qed
qed

lemma resolveSchemaText_Inl:
  "resolveSchemaText fs schemaText sourceFile imps filePath depth s = Inl e \<Longrightarrow> e = TypeError"
proof (induction fs schemaText sourceFile imps filePath depth s rule: resolveSchemaText.induct)
  case (1 fs schemaText sourceFile imps filePath depth s)
  note run = "1.prems"
  show ?case
  proof (cases "5 < depth \<or> startsWith (trim schemaText) ''z.'' \<or> startsWith (trim schemaText) ''{''")
    case True
    with run show ?thesis by (subst (asm) resolveSchemaText.simps) (auto split: if_splits)
  next
    case base: False
    show ?thesis
    proof (cases "identifierSplit (trim schemaText)")
      case None
      with base run show ?thesis by (subst (asm) resolveSchemaText.simps) auto
    next
      case (Some split)
      obtain idName suffix where split: "split = (idName, suffix)" by (cases split)
      show ?thesis
      proof (cases "resolveIdentifierFull fs idName sourceFile imps filePath s")
        case (Inl e')
        with base Some split run resolveIdentifierFull_Inl [OF Inl] show ?thesis
          by (subst (asm) resolveSchemaText.simps) auto
      next
        case (Inr found)
        obtain r s1 where found: "found = (r, s1)" by (cases found)
        show ?thesis
        proof (cases r)
          case None
          with base Some split Inr found run show ?thesis
            by (subst (asm) resolveSchemaText.simps) auto
        next
          case (Some resolved)
          show ?thesis
          proof (cases "startsWith (ir_text resolved @ suffix) ''z.''")
            case True
            with base \<open>identifierSplit (trim schemaText) = Some split\<close> split Inr found Some run
            show ?thesis
              by (subst (asm) resolveSchemaText.simps) auto
          next
            case False
            have c1: "\<not> 5 < depth"
              and c2: "\<not> (startsWith (trim schemaText) ''z.'' \<or> startsWith (trim schemaText) ''{'')"
              using base by auto
            have c3: "identifierSplit (trim schemaText) = Some (idName, suffix)"
              using \<open>identifierSplit (trim schemaText) = Some split\<close> split by simp
            have c5: "resolveIdentifierFull fs idName sourceFile imps filePath s
                = Inr (Some resolved, s1)"
              using Inr found Some by simp
            have "resolveSchemaText fs (ir_text resolved @ suffix) (ir_sourceFile resolved)
                   (ir_imports resolved) (ir_filePath resolved) (depth + 1) s1 = Inl e"
              using base c3 c5 False run by (subst (asm) resolveSchemaText.simps) auto
            then show ?thesis
              by (rule "1.IH" [OF c1 c2 c3 refl c5 refl refl False])
          qed
        qed
      qed
    qed
  qed
qed

lemma resolveExplicit_Inl:
  "resolveExplicit (resolveSchemaTextCallback fs) schema sourceFile imps filePath s = Inl e \<Longrightarrow>
   e = TypeError"
  by (auto simp: resolveExplicit_def resolveSchemaTextCallback_def simp del: resolveSchemaText.simps
      split: option.splits if_splits sum.splits dest: resolveSchemaText_Inl)

lemma procedureMethod_Some:
  "procedureMethod n = Some (receiver, m) \<longleftrightarrow>
     (\<exists>t q name args. n = CallExpression t (PropertyAccessExpression q receiver name) args
        \<and> getText name = m \<and> isProcedureMethod m)"
  by (cases n) (auto simp: procedureMethod_def split: node.splits)


lemma analyze_recognized:
  assumes "procedureMethod n = Some (receiver, m)"
    and "analyzeProcedureChain fs cc n sourceFile imps filePath rst s = Inr (r, s')"
  shows "\<exists>res. r = Some res \<and> par_type res = m"
  using assms
  by (auto simp: analyzeProcedureChain_def Let_def split: sum.splits prod.splits)

lemma analyze_Inl:
  assumes "analyzeProcedureChain fs cc n sourceFile imps filePath (resolveSchemaTextCallback fs) s
             = Inl e"
  shows "e = TypeError"
proof (cases "procedureMethod n")
  case None
  with assms show ?thesis by (simp add: analyzeProcedureChain_def)
next
  case (Some a)
  obtain receiver m where a: "a = (receiver, m)" by (cases a)
  show ?thesis
    using assms Some a
    by (auto simp: analyzeProcedureChain_def Let_def split: sum.splits prod.splits
        dest: resolveExplicit_Inl)
qed

text \<open>
  C6, on the input where the code leaves it. The call
  \<open>publicProcedure.input(userSchema).query(() => 1)\<close> passes the three tests of the analyzer,
  with the method name \<open>query\<close>, and its analysis throws a \<open>TypeError\<close> where a result of type
  \<open>query\<close> is due: resolving the schema \<open>userSchema\<close> takes the import \<open>@app/schemas\<close> to
  the path-mapping table, whose entry for \<open>@app/*\<close> is the number \<open>5\<close>, and the loop over its
  substitutions throws.
\<close>

theorem analyzeProcedureChain_throws:
  "map_option snd (procedureMethod inputProcedure) = Some ''query'' \<and>
   (case analyzeProcedureChain fsMalformed ccNone inputProcedure malformedFile
           (getImports malformedFile) [''root'', ''app.ts''] (resolveSchemaTextCallback fsMalformed)
           emptySession of
      Inl e \<Rightarrow> e = TypeError
    | Inr r \<Rightarrow> False)"
  by code_simp

text \<open>
  C1, on the input where the code leaves it. The procedure
  \<open>publicProcedure.query(() => [1, foo])\<close> has no explicit output, the output inferred from its
  resolver is \<open>number | unknown[]\<close>, which the test of the code itself takes for informative,
  and the analysis returns the output \<open>(string | number)[]\<close> read from the type of the
  procedure in its place.
\<close>

theorem analyzeProcedureChain_overrides_structural:
  "map_option snd (procedureMethod listProcedure) = Some ''query'' \<and>
   findMethodInChain (ident ''publicProcedure'') ''output'' = None \<and>
   fst (inferOutputSchemaFromResolver fsProcedure ccProcedure listProcedure [''root'', ''app.ts'']
          None emptySession) = Some ''number | unknown[]'' \<and>
   \<not> isNonInformativeInferredType ''number | unknown[]'' \<and>
   (case analyzeProcedureChain fsProcedure ccProcedure listProcedure listFile Map.empty
           [''root'', ''app.ts''] (resolveSchemaTextCallback fsProcedure) emptySession of
      Inr (Some res, s') \<Rightarrow> par_outputSchema res = Some ''(string | number)[]''
    | _ \<Rightarrow> False)"
  by code_simp

section \<open>Properties of the schema text resolver\<close>

lemma resolveSchemaText_cap:
  "5 < depth \<Longrightarrow>
   resolveSchemaText fs schemaText sourceFile imps filePath depth s = Inr (schemaText, s)"
  by (subst resolveSchemaText.simps) simp

lemma resolveSchemaText_literal:
  "depth \<le> 5 \<Longrightarrow>
   startsWith (trim schemaText) ''z.'' \<or> startsWith (trim schemaText) ''{'' \<Longrightarrow>
   resolveSchemaText fs schemaText sourceFile imps filePath depth s = Inr (trim schemaText, s)"
  by (subst resolveSchemaText.simps) auto

lemma resolveSchemaText_unresolved:
  "depth \<le> 5 \<Longrightarrow> unresolvedLink fs (schemaText, sourceFile, imps, filePath, s) s' \<Longrightarrow>
   resolveSchemaText fs schemaText sourceFile imps filePath depth s = Inr (trim schemaText, s')"
  by (subst resolveSchemaText.simps) (auto simp: unresolvedLink_def split: option.splits)

lemma aliasStep_unfold:
  assumes "aliasStep fs (schemaText, sourceFile, imps, filePath, s) (t', sf', imps', fp', s')"
    and "depth \<le> 5"
  shows "resolveSchemaText fs schemaText sourceFile imps filePath depth s
           = resolveSchemaText fs t' sf' imps' fp' (depth + 1) s'"
  using assms by (subst resolveSchemaText.simps) (auto simp: aliasStep_def)

lemma aliasChain_unfold:
  "(aliasStep fs ^^ k) (schemaText, sourceFile, imps, filePath, s) (t', sf', imps', fp', s') \<Longrightarrow>
   depth + k \<le> 6 \<Longrightarrow>
   resolveSchemaText fs schemaText sourceFile imps filePath depth s
     = resolveSchemaText fs t' sf' imps' fp' (depth + k) s'"
proof (induction k arbitrary: schemaText sourceFile imps filePath s depth)
  case 0
  then show ?case by simp
next
  case (Suc k)
  have "\<exists>c. aliasStep fs (schemaText, sourceFile, imps, filePath, s) c
           \<and> (aliasStep fs ^^ k) c (t', sf', imps', fp', s')"
    using Suc.prems(1) by (meson relpowp_Suc_D2)
  then obtain c where first: "aliasStep fs (schemaText, sourceFile, imps, filePath, s) c"
    and rest: "(aliasStep fs ^^ k) c (t', sf', imps', fp', s')"
    by blast
  obtain t1 sf1 imps1 fp1 s1 where c: "c = (t1, sf1, imps1, fp1, s1)" by (cases c)
  have "resolveSchemaText fs schemaText sourceFile imps filePath depth s
          = resolveSchemaText fs t1 sf1 imps1 fp1 (depth + 1) s1"
    using first Suc.prems(2) unfolding c by (intro aliasStep_unfold) auto
  also have "\<dots> = resolveSchemaText fs t' sf' imps' fp' (depth + 1 + k) s'"
    using rest Suc.prems(2) unfolding c by (intro Suc.IH) auto
  finally show ?case by simp
qed

text \<open>
  Along a chain of \<open>k\<close> links that reaches no literal base case, \<open>resolveSchemaText\<close> returns
  the text accumulated at the end of the chain: as it stands where the depth has reached 6, and
  trimmed where the chain ends before that at an identifier with no definition.
\<close>

lemma resolveSchemaText_chain:
  assumes "(aliasStep fs ^^ k) (schemaText, sourceFile, imps, filePath, s)
             (lastText, lastFile, lastImports, lastPath, lastSession)"
  shows "depth + k = 6 \<Longrightarrow>
           resolveSchemaText fs schemaText sourceFile imps filePath depth s
             = Inr (lastText, lastSession)"
    and "depth + k < 6 \<Longrightarrow>
         unresolvedLink fs (lastText, lastFile, lastImports, lastPath, lastSession) s' \<Longrightarrow>
           resolveSchemaText fs schemaText sourceFile imps filePath depth s
             = Inr (trim lastText, s')"
proof -
  show "resolveSchemaText fs schemaText sourceFile imps filePath depth s
          = Inr (lastText, lastSession)" if "depth + k = 6"
  proof -
    have "resolveSchemaText fs schemaText sourceFile imps filePath depth s
            = resolveSchemaText fs lastText lastFile lastImports lastPath (depth + k) lastSession"
      using that by (intro aliasChain_unfold [OF assms]) simp
    also have "\<dots> = Inr (lastText, lastSession)"
      using that by (intro resolveSchemaText_cap) simp
    finally show ?thesis .
  qed
  show "resolveSchemaText fs schemaText sourceFile imps filePath depth s
          = Inr (trim lastText, s')"
    if "depth + k < 6"
      and "unresolvedLink fs (lastText, lastFile, lastImports, lastPath, lastSession) s'"
  proof -
    have "resolveSchemaText fs schemaText sourceFile imps filePath depth s
            = resolveSchemaText fs lastText lastFile lastImports lastPath (depth + k) lastSession"
      using that(1) by (intro aliasChain_unfold [OF assms]) simp
    also have "\<dots> = Inr (trim lastText, s')"
      using that by (intro resolveSchemaText_unresolved) simp_all
    finally show ?thesis .
  qed
qed

lemma local_alias_step:
  assumes "findVariableInitializer sourceFile idName = Some target"
    and "target \<noteq> []"
    and "identifierSplit (trim idName) = Some (idName, [])"
    and "\<not> startsWith (trim idName) ''z.''"
    and "\<not> startsWith (trim idName) ''{''"
    and "\<not> startsWith target ''z.''"
  shows "aliasStep fs (idName, sourceFile, imps, filePath, s) (target, sourceFile, imps, filePath, s)"
  unfolding aliasStep_def using assms
  by (simp add: resolveIdentifierFull_def truthy_def)

lemma aliasChain_six:
  "resolveSchemaText Map.empty ''a0'' aliasChainFile Map.empty [''root'', ''s.ts''] 0
     emptySession = Inr (''a6'', emptySession)"
proof -
  let ?c = "\<lambda>t. (t, aliasChainFile, Map.empty :: importMap, [''root'', ''s.ts''], emptySession)"
  have s0: "aliasStep Map.empty (?c ''a0'') (?c ''a1'')"
    by (rule local_alias_step; code_simp)
  have s1: "aliasStep Map.empty (?c ''a1'') (?c ''a2'')"
    by (rule local_alias_step; code_simp)
  have s2: "aliasStep Map.empty (?c ''a2'') (?c ''a3'')"
    by (rule local_alias_step; code_simp)
  have s3: "aliasStep Map.empty (?c ''a3'') (?c ''a4'')"
    by (rule local_alias_step; code_simp)
  have s4: "aliasStep Map.empty (?c ''a4'') (?c ''a5'')"
    by (rule local_alias_step; code_simp)
  have s5: "aliasStep Map.empty (?c ''a5'') (?c ''a6'')"
    by (rule local_alias_step; code_simp)
  have r6: "(aliasStep Map.empty ^^ 0) (?c ''a6'') (?c ''a6'')"
    by simp
  have r5: "(aliasStep Map.empty ^^ Suc 0) (?c ''a5'') (?c ''a6'')"
    by (rule relpowp_Suc_I2 [OF s5 r6])
  have r4: "(aliasStep Map.empty ^^ Suc (Suc 0)) (?c ''a4'') (?c ''a6'')"
    by (rule relpowp_Suc_I2 [OF s4 r5])
  have r3: "(aliasStep Map.empty ^^ Suc (Suc (Suc 0))) (?c ''a3'') (?c ''a6'')"
    by (rule relpowp_Suc_I2 [OF s3 r4])
  have r2: "(aliasStep Map.empty ^^ Suc (Suc (Suc (Suc 0)))) (?c ''a2'') (?c ''a6'')"
    by (rule relpowp_Suc_I2 [OF s2 r3])
  have r1: "(aliasStep Map.empty ^^ Suc (Suc (Suc (Suc (Suc 0))))) (?c ''a1'') (?c ''a6'')"
    by (rule relpowp_Suc_I2 [OF s1 r2])
  have r0: "(aliasStep Map.empty ^^ Suc (Suc (Suc (Suc (Suc (Suc 0)))))) (?c ''a0'') (?c ''a6'')"
    by (rule relpowp_Suc_I2 [OF s0 r1])
  have "(aliasStep Map.empty ^^ 6) (?c ''a0'') (?c ''a6'')"
    using r0 by (simp add: eval_nat_numeral)
  then show ?thesis
    by (rule resolveSchemaText_chain(1)) simp
qed

lemma aliasChain_short:
  "resolveSchemaText Map.empty ''a0'' shortChainFile Map.empty [''root'', ''s.ts''] 0
     emptySession = Inr (''a2'', emptySession)"
proof -
  let ?c = "\<lambda>t. (t, shortChainFile, Map.empty :: importMap, [''root'', ''s.ts''], emptySession)"
  have s0: "aliasStep Map.empty (?c ''a0'') (?c ''a1'')"
    by (rule local_alias_step; code_simp)
  have s1: "aliasStep Map.empty (?c ''a1'') (?c ''a2'')"
    by (rule local_alias_step; code_simp)
  have r2: "(aliasStep Map.empty ^^ 0) (?c ''a2'') (?c ''a2'')"
    by simp
  have r1: "(aliasStep Map.empty ^^ Suc 0) (?c ''a1'') (?c ''a2'')"
    by (rule relpowp_Suc_I2 [OF s1 r2])
  have r0: "(aliasStep Map.empty ^^ Suc (Suc 0)) (?c ''a0'') (?c ''a2'')"
    by (rule relpowp_Suc_I2 [OF s0 r1])
  have chain: "(aliasStep Map.empty ^^ 2) (?c ''a0'') (?c ''a2'')"
    using r0 by (simp add: eval_nat_numeral)
  have split: "identifierSplit (trim ''a2'') = Some (''a2'', [])"
    by code_simp
  have undefined: "findVariableInitializer shortChainFile ''a2'' = None"
    by code_simp
  have literal: "\<not> startsWith (trim ''a2'') ''z.''" "\<not> startsWith (trim ''a2'') ''{''"
    by code_simp+
  have last: "unresolvedLink Map.empty (?c ''a2'') emptySession"
    unfolding unresolvedLink_def using split undefined literal
    by (simp add: resolveIdentifierFull_def truthy_def)
  have trimmed: "trim ''a2'' = ''a2''"
    by code_simp
  show ?thesis
    using resolveSchemaText_chain(2) [OF chain _ last, of 0] trimmed by simp
qed

text \<open>
  C3, on the input where the code leaves it. In the project with the malformed path-mapping
  table the chain \<open>schemaAlias = userSchema\<close>, \<open>userSchema\<close> imported from \<open>@app/schemas\<close>,
  reaches no literal base case, and \<open>resolveSchemaText\<close> throws a \<open>TypeError\<close> from the
  resolution of the import where the text \<open>userSchema\<close> accumulated so far is due.
\<close>

theorem resolveSchemaText_throws:
  "findVariableInitializer malformedFile ''schemaAlias'' = Some ''userSchema'' \<and>
   findVariableInitializer malformedFile ''userSchema'' = None \<and>
   map_option moduleSpecifier (getImports malformedFile ''userSchema'') = Some ''@app/schemas'' \<and>
   (case resolveSchemaText fsMalformed ''schemaAlias'' malformedFile (getImports malformedFile)
           [''root'', ''app.ts''] 0 emptySession of
      Inl e \<Rightarrow> e = TypeError
    | Inr r \<Rightarrow> False)"
  by code_simp

section \<open>Properties of the router tree builder\<close>

lemma preorder_self: "n \<in> set (preorder n)"
  by (subst preorder.simps) simp

lemma preorder_child: "c \<in> set (forEachChild n) \<Longrightarrow> set (preorder c) \<subseteq> set (preorder n)"
  by (subst (2) preorder.simps) auto

lemma preorder_cases:
  "m \<in> set (preorder n) \<Longrightarrow> m = n \<or> (\<exists>c \<in> set (forEachChild n). m \<in> set (preorder c))"
  by (subst (asm) preorder.simps) auto

lemma preorder_trans: "m \<in> set (preorder n) \<Longrightarrow> set (preorder m) \<subseteq> set (preorder n)"
proof (induction n rule: preorder.induct)
  case (1 n)
  from preorder_cases [OF "1.prems"] show ?case
  proof
    assume "m = n"
    then show ?thesis by simp
  next
    assume "\<exists>c \<in> set (forEachChild n). m \<in> set (preorder c)"
    then obtain c where c: "c \<in> set (forEachChild n)" and m: "m \<in> set (preorder c)" by blast
    from "1.IH" [OF c m] preorder_child [OF c] show ?thesis by blast
  qed
qed

lemma preorder_grandchild:
  "m \<in> set (preorder n) \<Longrightarrow> c \<in> set (forEachChild m) \<Longrightarrow> c \<in> set (preorder n)"
  using preorder_trans [of m n] preorder_child [of c m] preorder_self [of c] by blast

lemma finite_nodeNames: "finite (nodeNames n)"
proof -
  have "{t. \<exists>name. Identifier t name \<in> set (preorder n)}
          \<subseteq> (\<lambda>m. case m of Identifier t name \<Rightarrow> t | _ \<Rightarrow> []) ` set (preorder n)"
    by (auto simp: image_iff intro!: bexI [of _ "Identifier t name" for t name])
  moreover have "{k. \<exists>t. ShorthandPropertyAssignment t k \<in> set (preorder n)}
          \<subseteq> (\<lambda>m. case m of ShorthandPropertyAssignment t k \<Rightarrow> k | _ \<Rightarrow> []) ` set (preorder n)"
    by (auto simp: image_iff intro!: bexI [of _ "ShorthandPropertyAssignment t k" for t k])
  ultimately show ?thesis
    unfolding nodeNames_def by (meson finite_UnI finite_imageI finite_set finite_subset)
qed

lemma finite_dom_addNamedImport:
  "finite (dom result) \<Longrightarrow> finite (dom (foldl (addNamedImport spec) result elements))"
  by (induction elements arbitrary: result) (auto simp: addNamedImport_def)

lemma finite_dom_addImports: "finite (dom result) \<Longrightarrow> finite (dom (addImports result stmt))"
  by (auto simp: addImports_def Let_def finite_dom_addNamedImport
      split: node.splits option.splits namedBindings.splits)

lemma finite_dom_foldl_addImports:
  "finite (dom result) \<Longrightarrow> finite (dom (foldl addImports result stmts))"
  by (induction stmts arbitrary: result) (auto simp: finite_dom_addImports)

lemma finite_ran_getImports: "finite (ran (getImports sourceFile))"
  unfolding getImports_def by (rule finite_ran) (simp add: finite_dom_foldl_addImports)

lemma finite_fileNames: "finite (fileNames e)"
  by (auto simp: fileNames_def finite_nodeNames finite_ran_getImports
      split: option.splits fsEntry.splits)

lemma finite_projectNames: "finite (dom fs) \<Longrightarrow> finite extra \<Longrightarrow> finite (projectNames fs extra)"
  by (simp add: projectNames_def finite_fileNames)

lemma finite_projectKeys:
  assumes "finite (dom fs)" "finite extra" shows "finite (projectKeys fs extra)"
proof -
  have "{p. isFile fs p} \<subseteq> dom fs"
    by (auto simp: isFile_def split: option.splits)
  with assms(1) have "finite {p. isFile fs p}" by (rule rev_finite_subset)
  with finite_projectNames [OF assms] show ?thesis
    by (simp add: projectKeys_def)
qed

lemma readSourceFile_fileNames:
  "readSourceFile fs p = Inr sourceFile \<Longrightarrow>
   nodeNames sourceFile \<union> importName ` ran (getImports sourceFile) \<subseteq> projectNames fs extra"
  by (auto simp: readSourceFile_def projectNames_def fileNames_def split: option.splits fsEntry.splits
      intro!: bexI [of _ p])

lemma identifier_projectNames:
  "readSourceFile fs p = Inr sourceFile \<Longrightarrow> Identifier t name \<in> set (preorder sourceFile) \<Longrightarrow>
   t \<in> projectNames fs extra"
  using readSourceFile_fileNames [of fs p sourceFile extra] by (auto simp: nodeNames_def)

lemma shorthand_projectNames:
  "readSourceFile fs p = Inr sourceFile \<Longrightarrow>
   ShorthandPropertyAssignment t k \<in> set (preorder sourceFile) \<Longrightarrow> k \<in> projectNames fs extra"
  using readSourceFile_fileNames [of fs p sourceFile extra] by (auto simp: nodeNames_def)

lemma import_projectNames:
  "readSourceFile fs p = Inr sourceFile \<Longrightarrow> getImports sourceFile v = Some i \<Longrightarrow>
   importName i \<in> projectNames fs extra"
  using readSourceFile_fileNames [of fs p sourceFile extra] by (auto simp: ran_def)

lemma readSourceFile_Inr_isFile: "readSourceFile fs p = Inr sourceFile \<Longrightarrow> isFile fs p"
  by (auto simp: readSourceFile_def isFile_def split: option.splits fsEntry.splits)

lemma routerObject_preorder:
  "routerObject v n = Some ps \<Longrightarrow> n \<in> set (preorder sourceFile) \<Longrightarrow> set ps \<subseteq> set (preorder sourceFile)"
proof
  fix p assume ro: "routerObject v n = Some ps" and n: "n \<in> set (preorder sourceFile)" and p: "p \<in> set ps"
  from ro obtain l t callee q args where
    i: "variableInitializer v n = Some (l, CallExpression t callee (ObjectLiteralExpression q ps # args))"
    by (auto simp: routerObject_def split: option.splits prod.splits node.splits list.splits if_splits)
  let ?call = "CallExpression t callee (ObjectLiteralExpression q ps # args)"
  from i have "?call \<in> set (forEachChild n)"
    by (auto simp: variableInitializer_def split: node.splits option.splits if_splits)
  with n have "?call \<in> set (preorder sourceFile)" by (rule preorder_grandchild)
  then have "ObjectLiteralExpression q ps \<in> set (preorder sourceFile)"
    by (rule preorder_grandchild) simp
  then show "p \<in> set (preorder sourceFile)"
    by (rule preorder_grandchild) (simp add: p)
qed

lemma routerObjects_preorder:
  "\<forall>ps \<in> set (routerObjects v sourceFile). set ps \<subseteq> set (preorder sourceFile)"
proof
  fix ps assume "ps \<in> set (routerObjects v sourceFile)"
  then obtain n where "n \<in> set (preorder sourceFile)" and "routerObject v n = Some ps"
    by (auto simp: routerObjects_def List.map_filter_def)
  then show "set ps \<subseteq> set (preorder sourceFile)"
    using routerObject_preorder by blast
qed

lemma readSourceFile_resolved:
  "resolveImport fs specifier fromFilePath s = Inr (Some p, s') \<Longrightarrow>
   readSourceFile fs p = Inl e \<Longrightarrow> False"
  using readSourceFile_isFile [of fs p] by (auto dest!: resolveImport_isFile)

lemma resolveIdentifierAsProcedure_Inl:
  assumes "resolveIdentifierAsProcedure fs cc varName currentFilePath currentSourceFile
             currentImports s = Inl e"
  shows "e = TypeError"
  using assms
  by (auto simp: resolveIdentifierAsProcedure_def
      split: option.splits sum.splits prod.splits if_splits
      dest: analyze_Inl resolveImport_Inl readSourceFile_resolved)

lemma card_keys_insert:
  assumes "finite U" "k \<in> U" "k \<notin> visited" "card (U - visited) < Suc fuel"
  shows "card (U - insert k visited) < fuel"
proof -
  have "U - insert k visited = (U - visited) - {k}" by auto
  moreover have "k \<in> U - visited" using assms by simp
  moreover have "finite (U - visited)" using assms by simp
  ultimately have "card (U - insert k visited) = card (U - visited) - 1" by simp
  moreover have "0 < card (U - visited)"
    using \<open>k \<in> U - visited\<close> \<open>finite (U - visited)\<close> card_gt_0_iff by blast
  ultimately show ?thesis using assms(4) by simp
qed

lemma card_keys_mono:
  assumes "finite U" "visited \<subseteq> visited'" "card (U - visited) < fuel"
  shows "card (U - visited') < fuel"
proof -
  have "card (U - visited') \<le> card (U - visited)"
    using assms by (intro card_mono) auto
  with assms(3) show ?thesis by simp
qed

lemma settled_cases:
  assumes "settled visited result"
  obtains (thrown) "result = Some (Inl TypeError)"
  | (returned) r visited' s' where "result = Some (Inr (r, visited', s'))" "visited \<subseteq> visited'"
  using assms by (auto simp: settled_def split: option.splits sum.splits)

lemma settled_Inl [simp]: "settled visited (Some (Inl e)) \<longleftrightarrow> e = TypeError"
  by (simp add: settled_def)

lemma settled_Inr [simp]: "settled visited (Some (Inr (r, visited', s'))) \<longleftrightarrow> visited \<subseteq> visited'"
  by (simp add: settled_def)

lemma builder_total:
  fixes extra :: "string set"
  shows
    "finite (dom fs) \<Longrightarrow> finite extra \<Longrightarrow> routerVarName \<in> projectNames fs extra \<Longrightarrow>
     card (projectKeys fs extra - visited) < fuel \<Longrightarrow> fs filePath \<noteq> Some Directory \<Longrightarrow>
     settled visited (parseRouterFromFile fuel fs cc filePath routerVarName visited s)"
    and
    "finite (dom fs) \<Longrightarrow> finite extra \<Longrightarrow> readSourceFile fs filePath = Inr sourceFile \<Longrightarrow>
     imps = getImports sourceFile \<Longrightarrow> \<forall>ps \<in> set objects. set ps \<subseteq> set (preorder sourceFile) \<Longrightarrow>
     card (projectKeys fs extra - visited) < fuel \<Longrightarrow>
     settled visited (parseRouterDeclarations fuel fs cc objects filePath imps visited sourceFile s)"
    and
    "finite (dom fs) \<Longrightarrow> finite extra \<Longrightarrow> readSourceFile fs filePath = Inr sourceFile \<Longrightarrow>
     imps = getImports sourceFile \<Longrightarrow> set properties \<subseteq> set (preorder sourceFile) \<Longrightarrow>
     card (projectKeys fs extra - visited) < fuel \<Longrightarrow>
     settled visited (parseRouterObject fuel fs cc properties filePath imps visited sourceFile s)"
    and
    "finite (dom fs) \<Longrightarrow> finite extra \<Longrightarrow> readSourceFile fs filePath = Inr sourceFile \<Longrightarrow>
     imps = getImports sourceFile \<Longrightarrow> property \<in> set (preorder sourceFile) \<Longrightarrow>
     card (projectKeys fs extra - visited) < fuel \<Longrightarrow>
     settled visited (parseRouterProperty fuel fs cc property filePath imps visited sourceFile s)"
    and
    "finite (dom fs) \<Longrightarrow> finite extra \<Longrightarrow> isFile fs currentFilePath \<Longrightarrow>
     varName \<in> projectNames fs extra \<Longrightarrow> \<forall>i \<in> ran imps. importName i \<in> projectNames fs extra \<Longrightarrow>
     card (projectKeys fs extra - visited) < fuel \<Longrightarrow>
     settled visited (resolveIdentifierAsRouter fuel fs cc varName currentFilePath imps visited s)"
proof (induction fuel fs cc filePath routerVarName visited s
    and fuel fs cc objects filePath imps visited sourceFile s
    and fuel fs cc properties filePath imps visited sourceFile s
    and fuel fs cc property filePath imps visited sourceFile s
    and fuel fs cc varName currentFilePath imps visited s
    rule: parseRouterFromFile_parseRouterDeclarations_parseRouterObject_parseRouterProperty_resolveIdentifierAsRouter.induct)
  case (1 fuel fs cc filePath routerVarName visited s)
  note fin = "1.prems"(1,2) and var = "1.prems"(3) and card = "1.prems"(4) and nd = "1.prems"(5)
  from card obtain fuel' where fuel: "fuel = Suc fuel'" by (cases fuel) auto
  define s0 where "s0 = (if visited = {} then clearProcedureAnalysisCaches s else s)"
  show ?case
  proof (cases "visitedKey filePath routerVarName \<in> visited \<or> \<not> existsSync fs filePath")
    case True
    then show ?thesis by (subst parseRouterFromFile.simps) (auto simp: fuel Let_def)
  next
    case False
    then have nv: "visitedKey filePath routerVarName \<notin> visited" and ex: "existsSync fs filePath"
      by auto
    from ex nd have regular: "isFile fs filePath"
      by (auto simp: existsSync_def isFile_def split: option.splits fsEntry.splits)
    then obtain t stmts where rd: "readSourceFile fs filePath = Inr (SourceFile t stmts)"
      using readSourceFile_isFile by blast
    have key: "visitedKey filePath routerVarName \<in> projectKeys fs extra"
      using regular var by (auto simp: projectKeys_def)
    have card': "card (projectKeys fs extra - insert (visitedKey filePath routerVarName) visited) < fuel'"
      using finite_projectKeys [OF fin] key nv card [unfolded fuel] by (rule card_keys_insert)
    have nnex: "\<not> \<not> existsSync fs filePath" using ex by simp
    have "settled (insert (visitedKey filePath routerVarName) visited)
            (parseRouterDeclarations fuel' fs cc (routerObjects routerVarName (SourceFile t stmts))
               filePath (getImports (SourceFile t stmts))
               (insert (visitedKey filePath routerVarName) visited) (SourceFile t stmts) s0)"
      using "1.IH" [OF fuel s0_def nv nnex rd fin rd refl routerObjects_preorder card'] .
    then show ?thesis
    proof (cases rule: settled_cases)
      case thrown
      with nv ex rd show ?thesis
        by (subst parseRouterFromFile.simps) (simp add: fuel Let_def s0_def)
    next
      case (returned r v' s')
      with nv ex rd show ?thesis
        by (subst parseRouterFromFile.simps) (simp add: fuel Let_def s0_def)
    qed
  qed
next
  case (2 fuel fs cc objects filePath imps visited sourceFile s)
  note fin = "2.prems"(1,2) and rd = "2.prems"(3) and im = "2.prems"(4) and ob = "2.prems"(5)
    and card = "2.prems"(6)
  show ?case
  proof (cases objects)
    case Nil
    then show ?thesis by (subst parseRouterDeclarations.simps) simp
  next
    case (Cons ps others)
    have "set ps \<subseteq> set (preorder sourceFile)" using ob Cons by simp
    from "2.IH"(1) [OF Cons fin rd im this card]
    have "settled visited (parseRouterObject fuel fs cc ps filePath imps visited sourceFile s)" .
    then show ?thesis
    proof (cases rule: settled_cases)
      case thrown
      with Cons show ?thesis by (subst parseRouterDeclarations.simps) simp
    next
      case (returned r v1 s1)
      note a = returned(1) and sub = returned(2)
      have card1: "card (projectKeys fs extra - v1) < fuel"
        using finite_projectKeys [OF fin] sub card by (rule card_keys_mono)
      have ob': "\<forall>ps \<in> set others. set ps \<subseteq> set (preorder sourceFile)" using ob Cons by simp
      from "2.IH"(2) [OF Cons a refl refl refl fin rd im ob' card1]
      have "settled v1 (parseRouterDeclarations fuel fs cc others filePath imps v1 sourceFile s1)" .
      then show ?thesis
      proof (cases rule: settled_cases)
        case thrown
        with Cons a show ?thesis by (subst parseRouterDeclarations.simps) simp
      next
        case (returned r2 v2 s2)
        with Cons a sub show ?thesis by (subst parseRouterDeclarations.simps) auto
      qed
    qed
  qed
next
  case (3 fuel fs cc properties filePath imps visited sourceFile s)
  note fin = "3.prems"(1,2) and rd = "3.prems"(3) and im = "3.prems"(4) and ob = "3.prems"(5)
    and card = "3.prems"(6)
  show ?case
  proof (cases properties)
    case Nil
    then show ?thesis by (subst parseRouterObject.simps) simp
  next
    case (Cons p props)
    have "p \<in> set (preorder sourceFile)" using ob Cons by simp
    from "3.IH"(1) [OF Cons fin rd im this card]
    have "settled visited (parseRouterProperty fuel fs cc p filePath imps visited sourceFile s)" .
    then show ?thesis
    proof (cases rule: settled_cases)
      case thrown
      with Cons show ?thesis by (subst parseRouterObject.simps) simp
    next
      case (returned r v1 s1)
      note a = returned(1) and sub = returned(2)
      have card1: "card (projectKeys fs extra - v1) < fuel"
        using finite_projectKeys [OF fin] sub card by (rule card_keys_mono)
      have ob': "set props \<subseteq> set (preorder sourceFile)" using ob Cons by simp
      from "3.IH"(2) [OF Cons a refl refl refl fin rd im ob' card1]
      have "settled v1 (parseRouterObject fuel fs cc props filePath imps v1 sourceFile s1)" .
      then show ?thesis
      proof (cases rule: settled_cases)
        case thrown
        with Cons a show ?thesis by (subst parseRouterObject.simps) simp
      next
        case (returned r2 v2 s2)
        with Cons a sub show ?thesis by (subst parseRouterObject.simps) auto
      qed
    qed
  qed
next
  case (4 fuel fs cc property filePath imps visited sourceFile s)
  note fin = "4.prems"(1,2) and rd = "4.prems"(3) and im = "4.prems"(4) and pr = "4.prems"(5)
    and card = "4.prems"(6)
  have regular: "isFile fs filePath" using rd by (rule readSourceFile_Inr_isFile)
  have imok: "\<forall>i \<in> ran imps. importName i \<in> projectNames fs extra"
    using import_projectNames [OF rd] im by (auto simp: ran_def)
  show ?case
  proof (cases "propertyAssignment property")
    case None
    show ?thesis
    proof (cases "shorthandProperty property")
      case sn: None
      with None show ?thesis by (subst parseRouterProperty.simps) simp
    next
      case (Some k)
      then obtain t where "property = ShorthandPropertyAssignment t k"
        by (auto simp: shorthandProperty_def split: node.splits)
      with pr have k: "k \<in> projectNames fs extra" using shorthand_projectNames [OF rd] by blast
      from "4.IH"(1) [OF None Some fin regular k imok card]
      have "settled visited (resolveIdentifierAsRouter fuel fs cc k filePath imps visited s)" .
      then show ?thesis
      proof (cases rule: settled_cases)
        case thrown
        with None Some show ?thesis by (subst parseRouterProperty.simps) simp
      next
        case (returned r v1 s1)
        with None Some show ?thesis by (subst parseRouterProperty.simps) (cases r; simp)
      qed
    qed
  next
    case (Some a)
    obtain l propName v where a: "a = (l, propName, v)" by (cases a)
    from Some a obtain t where property: "property = PropertyAssignment t l propName v"
      by (auto simp: propertyAssignment_def split: node.splits)
    have v: "v \<in> set (preorder sourceFile)"
      using pr by (rule preorder_grandchild) (simp add: property)
    show ?thesis
    proof (cases "analyzeProcedureChain fs cc v sourceFile imps filePath
        (resolveSchemaTextCallback fs) s")
      case (Inl e)
      with Some a analyze_Inl [OF Inl] show ?thesis
        by (subst parseRouterProperty.simps) simp
    next
      case (Inr analysed)
      obtain pa s1 where an: "analyzeProcedureChain fs cc v sourceFile imps filePath
          (resolveSchemaTextCallback fs) s = Inr (pa, s1)"
        using Inr by (cases analysed) simp
      show ?thesis
      proof (cases pa)
        case (Some procInfo)
        with \<open>propertyAssignment property = Some a\<close> a an show ?thesis
          by (subst parseRouterProperty.simps) simp
      next
        case None
        show ?thesis
        proof (cases "identifierText v")
          case (Some idName)
          then obtain name where "v = Identifier idName name"
            by (auto simp: identifierText_def split: node.splits)
          with v have id: "idName \<in> projectNames fs extra"
            using identifier_projectNames [OF rd] by blast
          show ?thesis
          proof (cases "resolveIdentifierAsProcedure fs cc idName filePath sourceFile imps s1")
            case (Inl e)
            with \<open>propertyAssignment property = Some a\<close> a an None Some
              resolveIdentifierAsProcedure_Inl [OF Inl]
            show ?thesis
              by (subst parseRouterProperty.simps) simp
          next
            case (Inr resolved)
            obtain pp s2 where rp: "resolveIdentifierAsProcedure fs cc idName filePath sourceFile
                imps s1 = Inr (pp, s2)"
              using Inr by (cases resolved) simp
            show ?thesis
            proof (cases pp)
              case (Some proc)
              with \<open>propertyAssignment property = Some a\<close> a an None
                \<open>identifierText v = Some idName\<close> rp
              show ?thesis
                by (subst parseRouterProperty.simps) simp
            next
              case pn: None
              from "4.IH"(3) [OF \<open>propertyAssignment property = Some a\<close> a [symmetric] refl an
                  refl None \<open>identifierText v = Some idName\<close> rp refl pn fin regular id imok card]
              have "settled visited
                      (resolveIdentifierAsRouter fuel fs cc idName filePath imps visited s2)" .
              then show ?thesis
              proof (cases rule: settled_cases)
                case thrown
                with \<open>propertyAssignment property = Some a\<close> a an None
                  \<open>identifierText v = Some idName\<close> rp pn
                show ?thesis
                  by (subst parseRouterProperty.simps) simp
              next
                case (returned r v1 s3)
                with \<open>propertyAssignment property = Some a\<close> a an None
                  \<open>identifierText v = Some idName\<close> rp pn
                show ?thesis
                  by (subst parseRouterProperty.simps) (cases r; simp)
              qed
            qed
          qed
        next
          case inone: None
          show ?thesis
          proof (cases "\<exists>nested. inlineRouterObject v = Some (Some nested)")
            case False
            with \<open>propertyAssignment property = Some a\<close> a an None inone show ?thesis
              by (subst parseRouterProperty.simps) (auto split: option.splits)
          next
            case True
            then obtain nested where ne: "inlineRouterObject v = Some (Some nested)" by blast
            then obtain q callee u others where
              vv: "v = CallExpression q callee (ObjectLiteralExpression u nested # others)"
              by (auto simp: inlineRouterObject_def split: node.splits if_splits list.splits)
            have "ObjectLiteralExpression u nested \<in> set (preorder sourceFile)"
              using v by (rule preorder_grandchild) (simp add: vv)
            then have ns: "set nested \<subseteq> set (preorder sourceFile)"
              by (auto intro: preorder_grandchild)
            from "4.IH"(2) [OF \<open>propertyAssignment property = Some a\<close> a [symmetric] refl an
                refl None inone ne refl fin rd im ns card]
            have "settled visited
                    (parseRouterObject fuel fs cc nested filePath imps visited sourceFile s1)" .
            then show ?thesis
            proof (cases rule: settled_cases)
              case thrown
              with \<open>propertyAssignment property = Some a\<close> a an None inone ne
              show ?thesis
                by (subst parseRouterProperty.simps) simp
            next
              case (returned r v1 s3)
              with \<open>propertyAssignment property = Some a\<close> a an None inone ne
              show ?thesis
                by (subst parseRouterProperty.simps) simp
            qed
          qed
        qed
      qed
    qed
  qed
next
  case (5 fuel fs cc varName currentFilePath imps visited s)
  note fin = "5.prems"(1,2) and regular = "5.prems"(3) and var = "5.prems"(4) and imok = "5.prems"(5)
    and card = "5.prems"(6)
  have nd: "fs currentFilePath \<noteq> Some Directory" using regular by (auto simp: isFile_def)
  show ?case
  proof (cases "imps varName")
    case None
    from "5.IH"(1) [OF None fin var card nd] None show ?thesis
      by (subst resolveIdentifierAsRouter.simps) simp
  next
    case (Some importInfo)
    show ?thesis
    proof (cases "resolveImport fs (moduleSpecifier importInfo) currentFilePath s")
      case (Inl e)
      with Some resolveImport_Inl [OF Inl] show ?thesis
        by (subst resolveIdentifierAsRouter.simps) simp
    next
      case (Inr found)
      obtain x y where ri: "resolveImport fs (moduleSpecifier importInfo) currentFilePath s
          = Inr (x, y)"
        using Inr by (cases found) simp
      show ?thesis
      proof (cases x)
        case None
        from "5.IH"(2) [OF Some ri refl None fin var card nd] Some ri None show ?thesis
          by (subst resolveIdentifierAsRouter.simps) simp
      next
        case (Some resolved)
        with ri have "isFile fs resolved" by (auto dest: resolveImport_isFile)
        then have nd': "fs resolved \<noteq> Some Directory" by (auto simp: isFile_def)
        have "importName importInfo \<in> projectNames fs extra"
          using imok \<open>imps varName = Some importInfo\<close> by (auto simp: ran_def)
        with var have var': "(if isDefault importInfo then varName else importName importInfo)
            \<in> projectNames fs extra" by simp
        from "5.IH"(3) [OF \<open>imps varName = Some importInfo\<close> ri refl Some fin var' card nd']
          \<open>imps varName = Some importInfo\<close> ri Some show ?thesis
          by (subst resolveIdentifierAsRouter.simps) simp
      qed
    qed
  qed
qed




















lemma samePaths_refl: "samePaths s s"
  by (simp add: samePaths_def)

lemma samePaths_trans: "samePaths s s1 \<Longrightarrow> samePaths s1 s2 \<Longrightarrow> samePaths s s2"
  by (simp add: samePaths_def)

lemma findNearestTsConfigFileFrom_same:
  "nearestTsConfigPathCache s initialDir = None \<or> initialDir = dir \<Longrightarrow>
   samePaths s (snd (findNearestTsConfigFileFrom fs initialDir dir s))"
proof (induction fs initialDir dir s rule: findNearestTsConfigFileFrom.induct)
  case (1 fs initialDir dir s)
  show ?case
  proof (cases "nearestTsConfigPathCache s dir = None
                 \<and> \<not> existsSync fs (path_join dir ''tsconfig.json'') \<and> dir \<noteq> []")
    case True
    then have "nearestTsConfigPathCache s initialDir = None \<or> initialDir = path_dirname dir"
      using "1.prems" by auto
    with "1.IH" True show ?thesis
      by (subst findNearestTsConfigFileFrom.simps) (simp del: findNearestTsConfigFileFrom.simps)
  next
    case False
    then show ?thesis
      using "1.prems"
      by (subst findNearestTsConfigFileFrom.simps)
        (auto simp: samePaths_def map_le_def simp del: findNearestTsConfigFileFrom.simps
          split: option.splits)
  qed
qed

lemma getTypeCheckerContext_same:
  assumes "getTypeCheckerContext fs cc filePath s = (r, s')"
  shows "samePaths s s'"
proof -
  have a: "samePaths s (snd (findNearestTsConfigFile fs filePath s))"
    unfolding findNearestTsConfigFile_def by (rule findNearestTsConfigFileFrom_same) (rule disjI2, rule refl)
  obtain x s1 where f: "findNearestTsConfigFile fs filePath s = (x, s1)"
    by (cases "findNearestTsConfigFile fs filePath s")
  with a have k: "samePaths s s1" by simp
  have "samePaths s1 s'"
    using f assms by (auto simp: getTypeCheckerContext_def samePaths_def map_le_def
        simp del: findNearestTsConfigFileFrom.simps split: option.splits)
  with k show ?thesis by (rule samePaths_trans)
qed

lemma replaceEnum_same: "samePaths s (snd (replaceEnum ctx fullMatch enumName s))"
  by (auto simp: replaceEnum_def samePaths_def map_le_def split: option.splits)

lemma resolveEnumScan_same: "samePaths s (snd (resolveEnumScan ctx prev rest s))"
proof (induction ctx prev rest s rule: resolveEnumScan.induct)
  case (1 ctx prev rest s)
  show ?case
  proof (cases rest)
    case Nil
    then show ?thesis
      by (subst resolveEnumScan.simps) (simp add: samePaths_refl del: resolveEnumScan.simps)
  next
    case (Cons c cs)
    show ?thesis
    proof (cases "matchEnumAt prev rest")
      case None
      from "1.IH"(1) [OF Cons None] Cons None show ?thesis
        by (subst resolveEnumScan.simps) (auto simp del: resolveEnumScan.simps split: prod.splits)
    next
      case (Some a)
      obtain n enumName where a: "a = (n, enumName)" by (cases a)
      obtain replacement s1 where r: "replaceEnum ctx (take (Suc n) rest) enumName s = (replacement, s1)"
        by (cases "replaceEnum ctx (take (Suc n) rest) enumName s")
      have k1: "samePaths s s1" using replaceEnum_same [of s ctx "take (Suc n) rest" enumName] r by simp
      have "samePaths s1 (snd (resolveEnumScan ctx (rev (take (Suc n) rest) @ prev) (drop (Suc n) rest) s1))"
        using "1.IH"(2) [OF Cons Some a [symmetric] r [symmetric]] .
      with k1 have "samePaths s (snd (resolveEnumScan ctx (rev (take (Suc n) rest) @ prev) (drop (Suc n) rest) s1))"
        by (rule samePaths_trans)
      with Cons Some a r show ?thesis
        by (subst resolveEnumScan.simps) (auto simp del: resolveEnumScan.simps split: prod.splits)
    qed
  qed
qed

lemma resolveEnumAliasesInText_same: "resolveEnumAliasesInText t ctx s = (r, s') \<Longrightarrow> samePaths s s'"
  using resolveEnumScan_same [of s ctx "[]" t]
  by (simp add: resolveEnumAliasesInText_def del: resolveEnumScan.simps)

lemma inferTypeFromTypeChecker_same:
  assumes "inferTypeFromTypeChecker fs cc expr filePath s = (r, s')"
  shows "samePaths s s'"
proof -
  obtain x s1 where g: "getTypeCheckerContext fs cc filePath s = (x, s1)"
    by (cases "getTypeCheckerContext fs cc filePath s")
  then have k: "samePaths s s1" by (rule getTypeCheckerContext_same)
  have "samePaths s1 s'"
    using g assms
    by (auto simp: inferTypeFromTypeChecker_def samePaths_refl
        split: option.splits prod.splits if_splits dest: resolveEnumAliasesInText_same)
  with k show ?thesis by (rule samePaths_trans)
qed

lemma inferReturnTypes_same: "samePaths s (snd (inferReturnTypes fs cc filePath inputSchema exprs s))"
proof (induction exprs arbitrary: s)
  case Nil
  then show ?case by (simp add: samePaths_refl)
next
  case (Cons expr exprs)
  define first where "first =
     (if inferTypeFromExpression expr inputSchema = []
            \<or> isNonInformativeInferredType (inferTypeFromExpression expr inputSchema)
         then inferTypeFromTypeChecker fs cc expr filePath s
         else (Some (inferTypeFromExpression expr inputSchema), s))"
  have k: "samePaths s (snd first)"
    using inferTypeFromTypeChecker_same [of fs cc expr filePath s
        "fst (inferTypeFromTypeChecker fs cc expr filePath s)"
        "snd (inferTypeFromTypeChecker fs cc expr filePath s)"]
    by (simp add: first_def samePaths_refl)
  have "samePaths (snd first) (snd (inferReturnTypes fs cc filePath inputSchema exprs (snd first)))"
    by (rule Cons.IH)
  with k have "samePaths s (snd (inferReturnTypes fs cc filePath inputSchema exprs (snd first)))"
    by (rule samePaths_trans)
  then show ?case
    unfolding first_def by (auto split: prod.splits)
qed

lemma inferOutputSchemaFromResolver_same:
  assumes "inferOutputSchemaFromResolver fs cc n filePath inputSchema s = (r, s')"
  shows "samePaths s s'"
proof (cases "\<exists>t callee resolver args. n = CallExpression t callee (resolver # args)")
  case False
  then have "inferOutputSchemaFromResolver fs cc n filePath inputSchema s = (None, s)"
    by (auto simp: inferOutputSchemaFromResolver_def split: node.splits list.splits)
  with assms show ?thesis by (simp add: samePaths_refl)
next
  case True
  then obtain t callee resolver args where n: "n = CallExpression t callee (resolver # args)"
    by blast
  show ?thesis
    using assms inferReturnTypes_same [where s = s and fs = fs and cc = cc and filePath = filePath
        and inputSchema = inputSchema and exprs = "collectReturnExpressions resolver"]
    unfolding n
    by (auto simp: inferOutputSchemaFromResolver_def samePaths_refl split: prod.splits if_splits)
qed

lemma inferSchemasFromProcedureType_same:
  assumes "inferSchemasFromProcedureType fs cc n filePath s = (r, s')"
  shows "samePaths s s'"
proof -
  obtain x s1 where g: "getTypeCheckerContext fs cc filePath s = (x, s1)"
    by (cases "getTypeCheckerContext fs cc filePath s")
  then have k: "samePaths s s1" by (rule getTypeCheckerContext_same)
  have "samePaths s1 s'"
    using g assms
    by (auto simp: inferSchemasFromProcedureType_def samePaths_refl Let_def
        split: option.splits prod.splits if_splits dest: resolveEnumAliasesInText_same)
  with k show ?thesis by (rule samePaths_trans)
qed

lemma wellFormedCache_same: "wellFormedCache s \<Longrightarrow> samePaths s s' \<Longrightarrow> wellFormedCache s'"
  by (simp add: wellFormedCache_def samePaths_def)

lemma wellFormedCache_clear: "wellFormedCache s \<Longrightarrow> wellFormedCache (clearProcedureAnalysisCaches s)"
  by (simp add: wellFormedCache_def clearProcedureAnalysisCaches_def)

lemma tryMappings_wellFormed:
  "list_all isJString substitutions \<Longrightarrow> \<exists>r. tryMappings fs base rest substitutions = Inr r"
  by (induction substitutions) (auto simp: isJString_def split: json.splits option.splits)

lemma tryPatterns_wellFormed:
  "list_all wellFormedEntry entries \<Longrightarrow> \<exists>r. tryPatterns fs base specifier entries = Inr r"
proof (induction entries)
  case Nil
  show ?case by simp
next
  case (Cons entry entries)
  obtain pattern mappings where entry: "entry = (pattern, mappings)" by (cases entry)
  from Cons.prems entry obtain substitutions where it: "iterate mappings = Some substitutions"
    and strings: "list_all isJString substitutions"
    by (auto simp: wellFormedEntry_def split: option.splits)
  from Cons have rest: "\<exists>r. tryPatterns fs base specifier entries = Inr r" by simp
  obtain r where "tryMappings fs base (drop (length (stripTrailingStar pattern)) specifier)
      substitutions = Inr r"
    using tryMappings_wellFormed [OF strings] by blast
  with rest it show ?case
    unfolding entry by (cases r) auto
qed

lemma getTsConfigPathsFrom_wellFormed:
  "wellFormedProject fs \<Longrightarrow> wellFormedCache s \<Longrightarrow>
   wellFormedCache (snd (getTsConfigPathsFrom fs dir s)) \<and>
   (\<forall>tsConfigPaths. fst (getTsConfigPathsFrom fs dir s) = Some tsConfigPaths \<longrightarrow>
      wellFormedPaths tsConfigPaths)"
proof (induction fs dir s rule: getTsConfigPathsFrom.induct)
  case (1 fs dir s)
  show ?case
  proof (cases "dir \<noteq> [] \<and> tsConfigPathsCache s dir = None
                 \<and> \<not> existsSync fs (path_join dir ''tsconfig.json'')")
    case True
    with "1.IH" "1.prems" show ?thesis
      by (subst (1 2) getTsConfigPathsFrom.simps) (simp del: getTsConfigPathsFrom.simps)
  next
    case False
    with "1.prems" show ?thesis
      by (subst (1 2) getTsConfigPathsFrom.simps)
        (auto simp: wellFormedCache_def wellFormedProject_def simp del: getTsConfigPathsFrom.simps
          split: option.splits)
  qed
qed

lemma resolveImport_wellFormed:
  assumes "wellFormedProject fs" "wellFormedCache s"
  shows "\<exists>r s'. resolveImport fs specifier fromFilePath s = Inr (r, s') \<and> wellFormedCache s'"
proof (cases "startsWith specifier ''.''")
  case True
  with assms show ?thesis by (simp add: resolveImport_def)
next
  case False
  obtain found s1 where g: "getTsConfigPaths fs fromFilePath s = (found, s1)"
    by (cases "getTsConfigPaths fs fromFilePath s")
  from getTsConfigPathsFrom_wellFormed [OF assms, of "path_dirname fromFilePath"] g
  have c: "wellFormedCache s1"
    and t: "\<forall>tsConfigPaths. found = Some tsConfigPaths \<longrightarrow> wellFormedPaths tsConfigPaths"
    by (simp_all add: getTsConfigPaths_def del: getTsConfigPathsFrom.simps)
  show ?thesis
  proof (cases found)
    case None
    with False g c show ?thesis by (simp add: resolveImport_def)
  next
    case (Some tsConfigPaths)
    with t have "list_all wellFormedEntry (ownEntries (paths tsConfigPaths))"
      by (simp add: wellFormedPaths_def)
    from tryPatterns_wellFormed [OF this]
    obtain r where "tryPatterns fs (baseUrl tsConfigPaths) specifier
        (ownEntries (paths tsConfigPaths)) = Inr r" by blast
    with False g c Some show ?thesis by (simp add: resolveImport_def)
  qed
qed

lemma resolveIdentifierFull_wellFormed:
  assumes "wellFormedProject fs" "wellFormedCache s"
  shows "\<exists>r s'. resolveIdentifierFull fs idName sourceFile imps filePath s = Inr (r, s')
           \<and> wellFormedCache s'"
proof (cases "truthy (findVariableInitializer sourceFile idName)")
  case True
  with assms show ?thesis by (simp add: resolveIdentifierFull_def)
next
  case False
  show ?thesis
  proof (cases "imps idName")
    case None
    with False assms show ?thesis by (simp add: resolveIdentifierFull_def)
  next
    case (Some importInfo)
    obtain r s1 where ri: "resolveImport fs (moduleSpecifier importInfo) filePath s = Inr (r, s1)"
      and c: "wellFormedCache s1"
      using resolveImport_wellFormed [OF assms] by blast
    show ?thesis
    proof (cases r)
      case None
      with False Some ri c show ?thesis by (simp add: resolveIdentifierFull_def)
    next
      case (Some resolvedPath)
      with ri have "isFile fs resolvedPath" by (auto dest: resolveImport_isFile)
      then obtain t stmts where "readSourceFile fs resolvedPath = Inr (SourceFile t stmts)"
        using readSourceFile_isFile by blast
      with False \<open>imps idName = Some importInfo\<close> ri c Some show ?thesis
        by (simp add: resolveIdentifierFull_def Let_def)
    qed
  qed
qed

lemma resolveSchemaText_wellFormed:
  "wellFormedProject fs \<Longrightarrow> wellFormedCache s \<Longrightarrow>
   \<exists>t s'. resolveSchemaText fs schemaText sourceFile imps filePath depth s = Inr (t, s')
      \<and> wellFormedCache s'"
proof (induction fs schemaText sourceFile imps filePath depth s rule: resolveSchemaText.induct)
  case (1 fs schemaText sourceFile imps filePath depth s)
  note wf = "1.prems"
  show ?case
  proof (cases "5 < depth \<or> startsWith (trim schemaText) ''z.'' \<or> startsWith (trim schemaText) ''{''")
    case True
    with wf show ?thesis by (subst resolveSchemaText.simps) auto
  next
    case base: False
    show ?thesis
    proof (cases "identifierSplit (trim schemaText)")
      case None
      with base wf show ?thesis by (subst resolveSchemaText.simps) auto
    next
      case (Some split)
      obtain idName suffix where split: "split = (idName, suffix)" by (cases split)
      obtain r s1 where rf: "resolveIdentifierFull fs idName sourceFile imps filePath s = Inr (r, s1)"
        and c: "wellFormedCache s1"
        using resolveIdentifierFull_wellFormed [OF wf] by blast
      show ?thesis
      proof (cases r)
        case None
        with base Some split rf c show ?thesis by (subst resolveSchemaText.simps) auto
      next
        case (Some resolved)
        show ?thesis
        proof (cases "startsWith (ir_text resolved @ suffix) ''z.''")
          case True
          with base \<open>identifierSplit (trim schemaText) = Some split\<close> split rf Some c
          show ?thesis by (subst resolveSchemaText.simps) auto
        next
          case False
          have c1: "\<not> 5 < depth"
            and c2: "\<not> (startsWith (trim schemaText) ''z.'' \<or> startsWith (trim schemaText) ''{'')"
            using base by auto
          have c3: "identifierSplit (trim schemaText) = Some (idName, suffix)"
            using \<open>identifierSplit (trim schemaText) = Some split\<close> split by simp
          have c5: "resolveIdentifierFull fs idName sourceFile imps filePath s
              = Inr (Some resolved, s1)"
            using rf Some by simp
          from "1.IH" [OF c1 c2 c3 refl c5 refl refl False wf(1) c]
          obtain t s' where "resolveSchemaText fs (ir_text resolved @ suffix) (ir_sourceFile resolved)
                 (ir_imports resolved) (ir_filePath resolved) (depth + 1) s1 = Inr (t, s')"
            and "wellFormedCache s'" by blast
          with base c3 c5 False show ?thesis by (subst resolveSchemaText.simps) auto
        qed
      qed
    qed
  qed
qed

lemma resolveExplicit_wellFormed:
  assumes "wellFormedProject fs" "wellFormedCache s"
  shows "\<exists>r s'. resolveExplicit (resolveSchemaTextCallback fs) schema sourceFile imps filePath s
           = Inr (r, s') \<and> wellFormedCache s'"
proof (cases schema)
  case None
  with assms show ?thesis by (simp add: resolveExplicit_def)
next
  case (Some t)
  obtain r s' where "resolveSchemaText fs t sourceFile imps filePath 0 s = Inr (r, s')"
    and "wellFormedCache s'"
    using resolveSchemaText_wellFormed [OF assms] by blast
  with Some assms show ?thesis
    by (auto simp: resolveExplicit_def resolveSchemaTextCallback_def simp del: resolveSchemaText.simps
        split: if_splits)
qed

lemma analyzeProcedureChain_wellFormed:
  assumes wf: "wellFormedProject fs" and c: "wellFormedCache s"
  shows "\<exists>r s'. analyzeProcedureChain fs cc n sourceFile imps filePath (resolveSchemaTextCallback fs) s
           = Inr (r, s') \<and> wellFormedCache s'"
proof (cases "procedureMethod n")
  case None
  with c show ?thesis by (simp add: analyzeProcedureChain_def)
next
  case (Some a)
  obtain receiver m where a: "a = (receiver, m)" by (cases a)
  obtain i s1 where
    first: "resolveExplicit (resolveSchemaTextCallback fs) (findMethodInChain receiver ''input'')
      sourceFile imps filePath s = Inr (i, s1)" and c1: "wellFormedCache s1"
    using resolveExplicit_wellFormed [OF wf c] by blast
  obtain e s2 where
    second: "resolveExplicit (resolveSchemaTextCallback fs) (findMethodInChain receiver ''output'')
      sourceFile imps filePath s1 = Inr (e, s2)" and c2: "wellFormedCache s2"
    using resolveExplicit_wellFormed [OF wf c1] by blast
  obtain o3 s3 where third: "(if \<not> truthy e
                                then inferOutputSchemaFromResolver fs cc n filePath i s2
                                else (e, s2)) = (o3, s3)"
    by (cases "if \<not> truthy e then inferOutputSchemaFromResolver fs cc n filePath i s2 else (e, s2)")
  obtain p4 s4 where fourth: "inferSchemasFromProcedureType fs cc n filePath s3 = (p4, s4)"
    by (cases "inferSchemasFromProcedureType fs cc n filePath s3")
  have "samePaths s2 s3"
    using third
    by (auto simp: samePaths_refl split: if_splits dest: inferOutputSchemaFromResolver_same)
  with c2 have c3: "wellFormedCache s3" by (rule wellFormedCache_same)
  have "samePaths s3 s4" using fourth by (rule inferSchemasFromProcedureType_same)
  with c3 have c4: "wellFormedCache s4" by (rule wellFormedCache_same)
  show ?thesis
    using Some a first second third fourth c4
    by (simp add: analyzeProcedureChain_def Let_def)
qed

lemma resolveIdentifierAsProcedure_wellFormed:
  assumes wf: "wellFormedProject fs" and c: "wellFormedCache s"
  shows "\<exists>r s'. resolveIdentifierAsProcedure fs cc varName currentFilePath currentSourceFile
           currentImports s = Inr (r, s') \<and> wellFormedCache s'"
proof -
  define loc where "loc =
        (case findVariableDeclarationInfo currentSourceFile varName of
           None \<Rightarrow> Inr (None, s)
         | Some (initializer, l) \<Rightarrow>
             (case analyzeProcedureChain fs cc initializer currentSourceFile
                     currentImports currentFilePath (resolveSchemaTextCallback fs) s of
                Inl e \<Rightarrow> Inl e
              | Inr (None, s1) \<Rightarrow> Inr (None, s1)
              | Inr (Some localProc, s1) \<Rightarrow>
                  Inr (Some \<lparr>pr_type = par_type localProc,
                             pr_inputSchema = par_inputSchema localProc,
                             pr_outputSchema = par_outputSchema localProc,
                             pr_filePath = currentFilePath, pr_line = l\<rparr>, s1)))"
  have "\<exists>x s1. loc = Inr (x, s1) \<and> wellFormedCache s1"
  proof (cases "findVariableDeclarationInfo currentSourceFile varName")
    case None
    with c show ?thesis by (simp add: loc_def)
  next
    case (Some a)
    obtain initializer l where a: "a = (initializer, l)" by (cases a)
    obtain r s1 where "analyzeProcedureChain fs cc initializer currentSourceFile
        currentImports currentFilePath (resolveSchemaTextCallback fs) s = Inr (r, s1)"
      and "wellFormedCache s1"
      using analyzeProcedureChain_wellFormed [OF wf c] by blast
    with Some a show ?thesis by (cases r) (simp_all add: loc_def)
  qed
  then obtain x s1 where loc: "loc = Inr (x, s1)" and c1: "wellFormedCache s1" by blast
  have unf: "resolveIdentifierAsProcedure fs cc varName currentFilePath currentSourceFile currentImports s
     = (case loc of
        Inl e \<Rightarrow> Inl e
      | Inr (Some localResult, s1) \<Rightarrow> Inr (Some localResult, s1)
      | Inr (None, s1) \<Rightarrow>
          (case currentImports varName of
             None \<Rightarrow> Inr (None, s1)
           | Some importInfo \<Rightarrow>
               (case resolveImport fs (moduleSpecifier importInfo) currentFilePath s1 of
                  Inl e \<Rightarrow> Inl e
                | Inr (None, s2) \<Rightarrow> Inr (None, s2)
                | Inr (Some resolvedPath, s2) \<Rightarrow>
                    if \<not> existsSync fs resolvedPath then Inr (None, s2)
                    else
                      (case readSourceFile fs resolvedPath of
                         Inl e \<Rightarrow> Inl e
                       | Inr importSf \<Rightarrow>
                           (case findVariableDeclarationInfo importSf
                                   (if isDefault importInfo then varName else importName importInfo) of
                              None \<Rightarrow> Inr (None, s2)
                            | Some (initializer, l) \<Rightarrow>
                                (case analyzeProcedureChain fs cc initializer
                                        importSf (getImports importSf) resolvedPath
                                        (resolveSchemaTextCallback fs) s2 of
                                   Inl e \<Rightarrow> Inl e
                                 | Inr (None, s3) \<Rightarrow> Inr (None, s3)
                                 | Inr (Some importedProc, s3) \<Rightarrow>
                                     Inr (Some \<lparr>pr_type = par_type importedProc,
                                                pr_inputSchema = par_inputSchema importedProc,
                                                pr_outputSchema = par_outputSchema importedProc,
                                                pr_filePath = resolvedPath, pr_line = l\<rparr>, s3)))))))"
    unfolding resolveIdentifierAsProcedure_def loc_def ..
  show ?thesis
  proof (cases x)
    case (Some localResult)
    with loc c1 show ?thesis unfolding unf by simp
  next
    case None
    show ?thesis
    proof (cases "currentImports varName")
      case nimp: None
      with None loc c1 show ?thesis unfolding unf by simp
    next
      case (Some importInfo)
      obtain r s2 where ri: "resolveImport fs (moduleSpecifier importInfo) currentFilePath s1
          = Inr (r, s2)" and c2: "wellFormedCache s2"
        using resolveImport_wellFormed [OF wf c1] by blast
      show ?thesis
      proof (cases r)
        case rn: None
        with None loc Some ri c2 show ?thesis unfolding unf by simp
      next
        case (Some resolvedPath)
        with ri have f: "isFile fs resolvedPath" by (auto dest: resolveImport_isFile)
        then have ex: "existsSync fs resolvedPath" by (rule isFile_existsSync)
        from f obtain t stmts where rd: "readSourceFile fs resolvedPath = Inr (SourceFile t stmts)"
          using readSourceFile_isFile by blast
        show ?thesis
        proof (cases "findVariableDeclarationInfo (SourceFile t stmts)
                        (if isDefault importInfo then varName else importName importInfo)")
          case dn: None
          with None loc \<open>currentImports varName = Some importInfo\<close> ri Some ex rd c2
          show ?thesis unfolding unf by simp
        next
          case (Some a)
          obtain initializer l where a: "a = (initializer, l)" by (cases a)
          obtain r3 s3 where an: "analyzeProcedureChain fs cc initializer (SourceFile t stmts)
                (getImports (SourceFile t stmts)) resolvedPath (resolveSchemaTextCallback fs) s2
                = Inr (r3, s3)" and c3: "wellFormedCache s3"
            using analyzeProcedureChain_wellFormed [OF wf c2] by blast
          with None loc \<open>currentImports varName = Some importInfo\<close> ri
            \<open>r = Some resolvedPath\<close> ex rd Some a
          show ?thesis unfolding unf by (cases r3) simp_all
        qed
      qed
    qed
  qed
qed

lemma builder_wellFormed:
  shows
    "wellFormedProject fs \<Longrightarrow> wellFormedCache s \<Longrightarrow> fs filePath \<noteq> Some Directory \<Longrightarrow>
     (\<forall>result. parseRouterFromFile fuel fs cc filePath routerVarName visited s = Some result \<longrightarrow>
        (\<exists>r v' s'. result = Inr (r, v', s') \<and> wellFormedCache s'))"
    and
    "wellFormedProject fs \<Longrightarrow> wellFormedCache s \<Longrightarrow> isFile fs filePath \<Longrightarrow>
     (\<forall>result. parseRouterDeclarations fuel fs cc objects filePath imps visited sourceFile s
          = Some result \<longrightarrow>
        (\<exists>r v' s'. result = Inr (r, v', s') \<and> wellFormedCache s'))"
    and
    "wellFormedProject fs \<Longrightarrow> wellFormedCache s \<Longrightarrow> isFile fs filePath \<Longrightarrow>
     (\<forall>result. parseRouterObject fuel fs cc properties filePath imps visited sourceFile s
          = Some result \<longrightarrow>
        (\<exists>r v' s'. result = Inr (r, v', s') \<and> wellFormedCache s'))"
    and
    "wellFormedProject fs \<Longrightarrow> wellFormedCache s \<Longrightarrow> isFile fs filePath \<Longrightarrow>
     (\<forall>result. parseRouterProperty fuel fs cc property filePath imps visited sourceFile s
          = Some result \<longrightarrow>
        (\<exists>r v' s'. result = Inr (r, v', s') \<and> wellFormedCache s'))"
    and
    "wellFormedProject fs \<Longrightarrow> wellFormedCache s \<Longrightarrow> isFile fs currentFilePath \<Longrightarrow>
     (\<forall>result. resolveIdentifierAsRouter fuel fs cc varName currentFilePath imps visited s
          = Some result \<longrightarrow>
        (\<exists>r v' s'. result = Inr (r, v', s') \<and> wellFormedCache s'))"
proof (induction fuel fs cc filePath routerVarName visited s
    and fuel fs cc objects filePath imps visited sourceFile s
    and fuel fs cc properties filePath imps visited sourceFile s
    and fuel fs cc property filePath imps visited sourceFile s
    and fuel fs cc varName currentFilePath imps visited s
    rule: parseRouterFromFile_parseRouterDeclarations_parseRouterObject_parseRouterProperty_resolveIdentifierAsRouter.induct)
  case (1 fuel fs cc filePath routerVarName visited s)
  note wf = "1.prems"(1) and c = "1.prems"(2) and nd = "1.prems"(3)
  define s0 where "s0 = (if visited = {} then clearProcedureAnalysisCaches s else s)"
  have c0: "wellFormedCache s0" using c by (simp add: s0_def wellFormedCache_clear)
  show ?case
  proof (intro allI impI)
    fix result
    assume run: "parseRouterFromFile fuel fs cc filePath routerVarName visited s = Some result"
    from run obtain fuel' where fuel: "fuel = Suc fuel'"
      by (cases fuel) (auto simp: parseRouterFromFile.simps)
    show "\<exists>r v' s'. result = Inr (r, v', s') \<and> wellFormedCache s'"
    proof (cases "visitedKey filePath routerVarName \<in> visited \<or> \<not> existsSync fs filePath")
      case True
      with run c0 show ?thesis
        by (subst (asm) parseRouterFromFile.simps) (auto simp: fuel Let_def s0_def split: if_splits)
    next
      case False
      then have nv: "visitedKey filePath routerVarName \<notin> visited"
        and ex: "\<not> \<not> existsSync fs filePath" by auto
      from ex nd have regular: "isFile fs filePath"
        by (auto simp: existsSync_def isFile_def split: option.splits fsEntry.splits)
      then obtain t stmts where rd: "readSourceFile fs filePath = Inr (SourceFile t stmts)"
        using readSourceFile_isFile by blast
      from run nv ex rd obtain inner where
        inner: "parseRouterDeclarations fuel' fs cc (routerObjects routerVarName (SourceFile t stmts))
                  filePath (getImports (SourceFile t stmts))
                  (insert (visitedKey filePath routerVarName) visited) (SourceFile t stmts) s0
                = Some inner"
        by (subst (asm) parseRouterFromFile.simps)
          (auto simp: fuel Let_def s0_def split: option.splits)
      from "1.IH" [OF fuel s0_def nv ex rd wf c0 regular] inner
      obtain pushed v' s' where "inner = Inr (pushed, v', s')" and "wellFormedCache s'" by blast
      with run nv ex rd inner show ?thesis
        by (subst (asm) parseRouterFromFile.simps) (auto simp: fuel Let_def s0_def)
    qed
  qed
next
  case (2 fuel fs cc objects filePath imps visited sourceFile s)
  note wf = "2.prems"(1) and c = "2.prems"(2) and regular = "2.prems"(3)
  show ?case
  proof (intro allI impI)
    fix result
    assume run: "parseRouterDeclarations fuel fs cc objects filePath imps visited sourceFile s
                  = Some result"
    show "\<exists>r v' s'. result = Inr (r, v', s') \<and> wellFormedCache s'"
    proof (cases objects)
      case Nil
      with run c show ?thesis by (subst (asm) parseRouterDeclarations.simps) auto
    next
      case (Cons ps others)
      from run Cons obtain first where
        a: "parseRouterObject fuel fs cc ps filePath imps visited sourceFile s = Some first"
        by (subst (asm) parseRouterDeclarations.simps) (auto split: option.splits)
      from "2.IH"(1) [OF Cons wf c regular] a
      obtain p1 v1 s1 where first: "first = Inr (p1, v1, s1)" and c1: "wellFormedCache s1"
        by blast
      from run Cons a first obtain second where
        b: "parseRouterDeclarations fuel fs cc others filePath imps v1 sourceFile s1 = Some second"
        by (subst (asm) parseRouterDeclarations.simps) (auto split: option.splits)
      from "2.IH"(2) [OF Cons a [unfolded first] refl refl refl wf c1 regular] b
      obtain p2 v2 s2 where "second = Inr (p2, v2, s2)" and "wellFormedCache s2" by blast
      with run Cons a first b show ?thesis
        by (subst (asm) parseRouterDeclarations.simps) auto
    qed
  qed
next
  case (3 fuel fs cc properties filePath imps visited sourceFile s)
  note wf = "3.prems"(1) and c = "3.prems"(2) and regular = "3.prems"(3)
  show ?case
  proof (intro allI impI)
    fix result
    assume run: "parseRouterObject fuel fs cc properties filePath imps visited sourceFile s
                  = Some result"
    show "\<exists>r v' s'. result = Inr (r, v', s') \<and> wellFormedCache s'"
    proof (cases properties)
      case Nil
      with run c show ?thesis by (subst (asm) parseRouterObject.simps) auto
    next
      case (Cons p props)
      from run Cons obtain first where
        a: "parseRouterProperty fuel fs cc p filePath imps visited sourceFile s = Some first"
        by (subst (asm) parseRouterObject.simps) (auto split: option.splits)
      from "3.IH"(1) [OF Cons wf c regular] a
      obtain p1 v1 s1 where first: "first = Inr (p1, v1, s1)" and c1: "wellFormedCache s1"
        by blast
      from run Cons a first obtain second where
        b: "parseRouterObject fuel fs cc props filePath imps v1 sourceFile s1 = Some second"
        by (subst (asm) parseRouterObject.simps) (auto split: option.splits)
      from "3.IH"(2) [OF Cons a [unfolded first] refl refl refl wf c1 regular] b
      obtain p2 v2 s2 where "second = Inr (p2, v2, s2)" and "wellFormedCache s2" by blast
      with run Cons a first b show ?thesis
        by (subst (asm) parseRouterObject.simps) auto
    qed
  qed
next
  case (4 fuel fs cc property filePath imps visited sourceFile s)
  note wf = "4.prems"(1) and c = "4.prems"(2) and regular = "4.prems"(3)
  show ?case
  proof (intro allI impI)
    fix result
    assume run: "parseRouterProperty fuel fs cc property filePath imps visited sourceFile s
                  = Some result"
    show "\<exists>r v' s'. result = Inr (r, v', s') \<and> wellFormedCache s'"
    proof (cases "propertyAssignment property")
      case None
      show ?thesis
      proof (cases "shorthandProperty property")
        case sn: None
        with None run c show ?thesis by (subst (asm) parseRouterProperty.simps) auto
      next
        case (Some k)
        from run None Some obtain inner where
          a: "resolveIdentifierAsRouter fuel fs cc k filePath imps visited s = Some inner"
          by (subst (asm) parseRouterProperty.simps) (auto split: option.splits)
        from "4.IH"(1) [OF None Some wf c regular] a
        obtain r v1 s1 where "inner = Inr (r, v1, s1)" and "wellFormedCache s1" by blast
        with run None Some a show ?thesis
          by (subst (asm) parseRouterProperty.simps) (cases r; auto)
      qed
    next
      case (Some a)
      obtain l propName v where a: "a = (l, propName, v)" by (cases a)
      obtain pa s1 where an: "analyzeProcedureChain fs cc v sourceFile imps filePath
          (resolveSchemaTextCallback fs) s = Inr (pa, s1)" and c1: "wellFormedCache s1"
        using analyzeProcedureChain_wellFormed [OF wf c] by blast
      show ?thesis
      proof (cases pa)
        case (Some procInfo)
        with \<open>propertyAssignment property = Some a\<close> a an run c1 show ?thesis
          by (subst (asm) parseRouterProperty.simps) auto
      next
        case None
        show ?thesis
        proof (cases "identifierText v")
          case (Some idName)
          obtain pp s2 where rp: "resolveIdentifierAsProcedure fs cc idName filePath sourceFile
              imps s1 = Inr (pp, s2)" and c2: "wellFormedCache s2"
            using resolveIdentifierAsProcedure_wellFormed [OF wf c1] by blast
          show ?thesis
          proof (cases pp)
            case (Some proc)
            with \<open>propertyAssignment property = Some a\<close> a an None
              \<open>identifierText v = Some idName\<close> rp run c2
            show ?thesis
              by (subst (asm) parseRouterProperty.simps) auto
          next
            case pn: None
            from run \<open>propertyAssignment property = Some a\<close> a an None
              \<open>identifierText v = Some idName\<close> rp pn
            obtain inner where
              b: "resolveIdentifierAsRouter fuel fs cc idName filePath imps visited s2 = Some inner"
              by (subst (asm) parseRouterProperty.simps) (auto split: option.splits)
            from "4.IH"(3) [OF \<open>propertyAssignment property = Some a\<close> a [symmetric] refl an
                refl None \<open>identifierText v = Some idName\<close> rp refl pn wf c2 regular] b
            obtain r v1 s3 where "inner = Inr (r, v1, s3)" and "wellFormedCache s3" by blast
            with run \<open>propertyAssignment property = Some a\<close> a an None
              \<open>identifierText v = Some idName\<close> rp pn b
            show ?thesis
              by (subst (asm) parseRouterProperty.simps) (cases r; auto)
          qed
        next
          case inone: None
          show ?thesis
          proof (cases "\<exists>nested. inlineRouterObject v = Some (Some nested)")
            case False
            with \<open>propertyAssignment property = Some a\<close> a an None inone run c1 show ?thesis
              by (subst (asm) parseRouterProperty.simps) (auto split: option.splits)
          next
            case True
            then obtain nested where nest: "inlineRouterObject v = Some (Some nested)" by blast
            from run \<open>propertyAssignment property = Some a\<close> a an None inone nest
            obtain inner where
              b: "parseRouterObject fuel fs cc nested filePath imps visited sourceFile s1 = Some inner"
              by (subst (asm) parseRouterProperty.simps) (auto split: option.splits)
            from "4.IH"(2) [OF \<open>propertyAssignment property = Some a\<close> a [symmetric] refl an
                refl None inone nest refl wf c1 regular] b
            obtain pushed v1 s3 where "inner = Inr (pushed, v1, s3)" and "wellFormedCache s3"
              by blast
            with run \<open>propertyAssignment property = Some a\<close> a an None inone nest b
            show ?thesis
              by (subst (asm) parseRouterProperty.simps) auto
          qed
        qed
      qed
    qed
  qed
next
  case (5 fuel fs cc varName currentFilePath imps visited s)
  note wf = "5.prems"(1) and c = "5.prems"(2) and regular = "5.prems"(3)
  have nd: "fs currentFilePath \<noteq> Some Directory" using regular by (auto simp: isFile_def)
  show ?case
  proof (intro allI impI)
    fix result
    assume run: "resolveIdentifierAsRouter fuel fs cc varName currentFilePath imps visited s
                  = Some result"
    show "\<exists>r v' s'. result = Inr (r, v', s') \<and> wellFormedCache s'"
    proof (cases "imps varName")
      case None
      with run have "parseRouterFromFile fuel fs cc currentFilePath varName visited s = Some result"
        by (subst (asm) resolveIdentifierAsRouter.simps) simp
      with "5.IH"(1) [OF None wf c nd] show ?thesis by blast
    next
      case (Some importInfo)
      obtain x y where ri: "resolveImport fs (moduleSpecifier importInfo) currentFilePath s
          = Inr (x, y)" and c1: "wellFormedCache y"
        using resolveImport_wellFormed [OF wf c] by blast
      show ?thesis
      proof (cases x)
        case None
        with run Some ri
        have "parseRouterFromFile fuel fs cc currentFilePath varName visited y = Some result"
          by (subst (asm) resolveIdentifierAsRouter.simps) simp
        with "5.IH"(2) [OF Some ri refl None wf c1 nd] show ?thesis by blast
      next
        case (Some resolved)
        with ri have "isFile fs resolved" by (auto dest: resolveImport_isFile)
        then have nd': "fs resolved \<noteq> Some Directory" by (auto simp: isFile_def)
        from run \<open>imps varName = Some importInfo\<close> ri Some
        have "parseRouterFromFile fuel fs cc resolved
                (if isDefault importInfo then varName else importName importInfo) visited y
            = Some result"
          by (subst (asm) resolveIdentifierAsRouter.simps) simp
        with "5.IH"(3) [OF \<open>imps varName = Some importInfo\<close> ri refl Some wf c1 nd']
        show ?thesis by blast
      qed
    qed
  qed
qed


lemma parseRouterFromFile_expand:
  assumes "visitedKey filePath routerVarName \<notin> visited"
    and "readSourceFile fs filePath = Inr sourceFile"
  shows "parseRouterFromFile (Suc fuel) fs cc filePath routerVarName visited s =
     (case parseRouterDeclarations fuel fs cc (routerObjects routerVarName sourceFile)
             filePath (getImports sourceFile)
             (insert (visitedKey filePath routerVarName) visited) sourceFile
             (if visited = {} then clearProcedureAnalysisCaches s else s) of
        None \<Rightarrow> None
      | Some (Inl e) \<Rightarrow> Some (Inl e)
      | Some (Inr (pushed, visited1, s1)) \<Rightarrow>
          Some (Inr (Some (TrpcNode routerVarName ''router'' pushed (Some filePath) None None None),
                     visited1, s1)))"
proof -
  have "existsSync fs filePath"
    using assms(2) by (auto simp: readSourceFile_def existsSync_def split: option.splits)
  with assms show ?thesis
    by (subst parseRouterFromFile.simps) (simp add: Let_def)
qed

lemma card_keys_fuel:
  assumes "finite (dom fs)" "card (projectKeys fs extra) < fuel" "finite extra"
  shows "card (projectKeys fs extra - visited) < fuel"
proof -
  have "card (projectKeys fs extra - visited) \<le> card (projectKeys fs extra)"
    using finite_projectKeys [OF assms(1,3)] by (intro card_mono) auto
  with assms(2) show ?thesis by simp
qed

lemma parseRouterFromFile_settled:
  assumes fin: "finite (dom fs)" and nd: "fs filePath \<noteq> Some Directory"
    and fuel: "card (projectKeys fs {routerVarName}) < fuel"
  shows "settled visited (parseRouterFromFile fuel fs cc filePath routerVarName visited s)"
proof -
  have c: "card (projectKeys fs {routerVarName} - visited) < fuel"
    using fin fuel by (rule card_keys_fuel) simp
  have v: "routerVarName \<in> projectNames fs {routerVarName}" by (simp add: projectNames_def)
  show ?thesis
    using builder_total(1) [OF fin _ v c nd] by simp
qed

lemma parseRouterFromFile_returns:
  assumes fin: "finite (dom fs)" and nd: "fs filePath \<noteq> Some Directory"
    and wf: "wellFormedProject fs" and c: "wellFormedCache s"
    and fuel: "card (projectKeys fs {routerVarName}) < fuel"
  shows "\<exists>r visited' s'. parseRouterFromFile fuel fs cc filePath routerVarName visited s
            = Some (Inr (r, visited', s')) \<and> visited \<subseteq> visited' \<and> wellFormedCache s'"
proof -
  from parseRouterFromFile_settled [OF fin nd fuel]
  have "settled visited (parseRouterFromFile fuel fs cc filePath routerVarName visited s)" .
  then show ?thesis
  proof (cases rule: settled_cases)
    case thrown
    with builder_wellFormed(1) [OF wf c nd] show ?thesis by blast
  next
    case (returned r visited' s')
    with builder_wellFormed(1) [OF wf c nd] show ?thesis by blast
  qed
qed

lemma parseRouterDeclarations_empty:
  "\<forall>ps \<in> set objects. ps = [] \<Longrightarrow>
   parseRouterDeclarations fuel fs cc objects filePath imps visited sourceFile s
     = Some (Inr ([], visited, s))"
proof (induction objects)
  case Nil
  show ?case by (subst parseRouterDeclarations.simps) simp
next
  case (Cons ps objects)
  then have "ps = []" and "\<forall>ps \<in> set objects. ps = []" by simp_all
  with Cons.IH show ?case
    by (subst parseRouterDeclarations.simps) (simp add: parseRouterObject.simps [of _ _ _ "[]"])
qed

lemma routerObjects_cases:
  assumes "ps \<in> set (routerObjects routerVarName sourceFile)"
  shows "\<exists>n \<in> set (preorder sourceFile). \<exists>l t callee q args.
           variableInitializer routerVarName n
             = Some (l, CallExpression t callee (ObjectLiteralExpression q ps # args)) \<and>
           isRouterCall (CallExpression t callee (ObjectLiteralExpression q ps # args))"
proof -
  from assms obtain n where n: "n \<in> set (preorder sourceFile)"
    and r: "routerObject routerVarName n = Some ps"
    by (auto simp: routerObjects_def List.map_filter_def)
  from r obtain l init where i: "variableInitializer routerVarName n = Some (l, init)"
    by (cases "variableInitializer routerVarName n") (auto simp: routerObject_def)
  from r i obtain t callee q args where
    "init = CallExpression t callee (ObjectLiteralExpression q ps # args)" and "isRouterCall init"
    by (auto simp: routerObject_def split: node.splits list.splits if_splits)
  with n i show ?thesis by blast
qed

text \<open>
  In a finite project with well-formed path-mapping tables, when the path is a file and the
  pair is not in the visited set, the builder, given enough fuel, returns a router node for the
  variable. The node has no children when every declaration of the variable, if there is one,
  has an initializer that is not a collection-factory call with an object literal as first
  argument, or has the empty object there.
\<close>

lemma parseRouterFromFile_node:
  assumes fin: "finite (dom fs)"
    and rd: "readSourceFile fs filePath = Inr sourceFile"
    and nv: "visitedKey filePath routerVarName \<notin> visited"
    and wf: "wellFormedProject fs" and c: "wellFormedCache s"
  shows "\<exists>N. \<forall>fuel \<ge> N. \<exists>pushed visited' s'.
           parseRouterFromFile fuel fs cc filePath routerVarName visited s
             = Some (Inr (Some (TrpcNode routerVarName ''router'' pushed (Some filePath) None None None),
                          visited', s')) \<and>
           ((\<forall>n \<in> set (preorder sourceFile). \<forall>l t callee q ps args.
                variableInitializer routerVarName n
                  = Some (l, CallExpression t callee (ObjectLiteralExpression q ps # args)) \<longrightarrow>
                isRouterCall (CallExpression t callee (ObjectLiteralExpression q ps # args)) \<longrightarrow>
                ps = [])
            \<longrightarrow> pushed = [])"
proof (rule exI [of _ "Suc (card (projectKeys fs {routerVarName}))"], intro allI impI)
  fix fuel
  assume "Suc (card (projectKeys fs {routerVarName})) \<le> fuel"
  then have k: "card (projectKeys fs {routerVarName}) < fuel" by simp
  then obtain fuel' where fuel: "fuel = Suc fuel'" by (cases fuel) auto
  have nd: "fs filePath \<noteq> Some Directory"
    using rd by (auto simp: readSourceFile_def)
  obtain r visited' s' where run: "parseRouterFromFile fuel fs cc filePath routerVarName visited s
      = Some (Inr (r, visited', s'))"
    using parseRouterFromFile_returns [OF fin nd wf c k] by blast
  let ?s0 = "if visited = {} then clearProcedureAnalysisCaches s else s"
  let ?inner = "parseRouterDeclarations fuel' fs cc (routerObjects routerVarName sourceFile)
             filePath (getImports sourceFile)
             (insert (visitedKey filePath routerVarName) visited) sourceFile ?s0"
  from run obtain pushed where inner: "?inner = Some (Inr (pushed, visited', s'))"
    and r: "r = Some (TrpcNode routerVarName ''router'' pushed (Some filePath) None None None)"
    unfolding fuel parseRouterFromFile_expand [OF nv rd]
    by (auto split: option.splits sum.splits)
  have "pushed = []"
    if none: "\<forall>n \<in> set (preorder sourceFile). \<forall>l t callee q ps args.
                variableInitializer routerVarName n
                  = Some (l, CallExpression t callee (ObjectLiteralExpression q ps # args)) \<longrightarrow>
                isRouterCall (CallExpression t callee (ObjectLiteralExpression q ps # args)) \<longrightarrow>
                ps = []"
  proof -
    have "\<forall>ps \<in> set (routerObjects routerVarName sourceFile). ps = []"
      using none routerObjects_cases by blast
    from parseRouterDeclarations_empty [OF this] inner show ?thesis by simp
  qed
  with run r show "\<exists>pushed visited' s'.
           parseRouterFromFile fuel fs cc filePath routerVarName visited s
             = Some (Inr (Some (TrpcNode routerVarName ''router'' pushed (Some filePath) None None None),
                          visited', s')) \<and>
           ((\<forall>n \<in> set (preorder sourceFile). \<forall>l t callee q ps args.
                variableInitializer routerVarName n
                  = Some (l, CallExpression t callee (ObjectLiteralExpression q ps # args)) \<longrightarrow>
                isRouterCall (CallExpression t callee (ObjectLiteralExpression q ps # args)) \<longrightarrow>
                ps = [])
            \<longrightarrow> pushed = [])"
    by blast
qed

text \<open>
  C10, on the input where the code leaves it. In the project with the malformed path-mapping
  table, \<open>app.ts\<close> is a file and the visited set is empty, and the build of \<open>appRouter\<close>
  returns no node: it throws a \<open>TypeError\<close> from the resolution of the import of
  \<open>userRouter\<close>.
\<close>

theorem parseRouterFromFile_throws:
  "isFile fsMalformed [''root'', ''app.ts''] \<and>
   routerObjects ''appRouter'' malformedFile
     = [[PropertyAssignment ''user: userRouter'' 4 (ident ''user'') (ident ''userRouter'')]] \<and>
   (case parseRouterFromFile 2 fsMalformed ccNone [''root'', ''app.ts''] ''appRouter'' {}
           emptySession of
      Some (Inl e) \<Rightarrow> e = TypeError
    | _ \<Rightarrow> False)"
  by code_simp
































end
